theory Spec2Isabelle
  imports Complex_Main "HOL-Library.Word" "HOL-Library.Sublist"
begin

unbundle bit_operations_syntax

section \<open>Numbers, errors and the seeded random source\<close>

text \<open>
  JavaScript numbers that hold weights, biases and random draws are modelled as
  \<^typ>\<open>real\<close>; counts, limits and seeds are modelled as \<^typ>\<open>int\<close>.  A thrown
  \<^verbatim>\<open>Error\<close> is the left injection of a sum, carrying its message.
\<close>

datatype error = Error string

text \<open>
  \<^verbatim>\<open>SeedableRng\<close> (rng/seedable-rng.ts).  The object has the field \<^verbatim>\<open>_seed\<close> and the
  closure \<^verbatim>\<open>_next\<close>, whose only state is the variable \<^verbatim>\<open>seed\<close> captured by
  \<^verbatim>\<open>mulberry32\<close>.  That variable is a JavaScript number that grows by 0x6D2B79F5 at
  every call; the bit operations read it modulo \<open>2 ^ 32\<close>, which \<^term>\<open>word_of_int\<close> does.
\<close>

record seedable_rng =
  rng_seed :: int
  rng_next :: int

definition mulberry32 :: "int \<Rightarrow> real \<times> int" where
  "mulberry32 seed =
     (let seed' = seed + 1831565813;
          t0 = (word_of_int seed' :: 32 word);
          t1 = (t0 XOR drop_bit 15 t0) * (t0 OR 1);
          t2 = t1 XOR (t1 + (t1 XOR drop_bit 7 t1) * (t1 OR 61))
      in (real (unat (t2 XOR drop_bit 14 t2)) / 4294967296, seed'))"

definition new_rng :: "int \<Rightarrow> seedable_rng" where
  "new_rng n = \<lparr>rng_seed = n, rng_next = n\<rparr>"

definition rng_reseed :: "int \<Rightarrow> seedable_rng \<Rightarrow> seedable_rng" where
  "rng_reseed n g = g\<lparr>rng_seed := n, rng_next := n\<rparr>"

definition rng_float :: "seedable_rng \<Rightarrow> real \<times> seedable_rng" where
  "rng_float g = (case mulberry32 (rng_next g) of (v, s) \<Rightarrow> (v, g\<lparr>rng_next := s\<rparr>))"

definition rng_int :: "int \<Rightarrow> int \<Rightarrow> seedable_rng \<Rightarrow> int \<times> seedable_rng" where
  "rng_int mn mx g =
     (let lo = (if mn > mx then mx else mn);
          hi = (if mn > mx then mn else mx)
      in case rng_float g of (v, g') \<Rightarrow> (\<lfloor>v * real_of_int (hi - lo + 1)\<rfloor> + lo, g'))"

definition rng_pick :: "'a list \<Rightarrow> seedable_rng \<Rightarrow> (error + 'a) \<times> seedable_rng" where
  "rng_pick xs g =
     (if length xs = 0 then (Inl (Error ''Cannot pick from empty list''), g)
      else case rng_int 0 (int (length xs) - 1) g of (i, g') \<Rightarrow> (Inr (xs ! nat i), g'))"

definition rng_chance :: "real \<Rightarrow> seedable_rng \<Rightarrow> bool \<times> seedable_rng" where
  "rng_chance probability g = (case rng_float g of (v, g') \<Rightarrow> (v < probability, g'))"

record 'a weighted_item =
  item :: 'a
  weight :: real

text \<open>
  The subtraction walk of \<^verbatim>\<open>weightedPick\<close>: \<^verbatim>\<open>random -= item.weight\<close>, returning the
  first item at which the running value is no longer positive.  \<open>None\<close> is the loop
  running off the end of the list.
\<close>

fun weighted_walk :: "real \<Rightarrow> 'a weighted_item list \<Rightarrow> 'a option" where
  "weighted_walk random [] = None"
| "weighted_walk random (i # rest) =
     (if random - weight i \<le> 0 then Some (item i) else weighted_walk (random - weight i) rest)"

text \<open>
  \<^verbatim>\<open>weightedPick\<close> after the draw: \<open>u\<close> is the value \<^verbatim>\<open>this.float()\<close> returned.
\<close>

definition weightedPick_draw :: "real \<Rightarrow> 'a weighted_item list \<Rightarrow> error + 'a" where
  "weightedPick_draw u items =
     (if length items = 0 then Inl (Error ''Cannot pick from empty weighted list'')
      else let validItems = filter (\<lambda>i. weight i > 0) items in
        if length validItems = 0 then Inl (Error ''All weights are zero or negative'')
        else let totalWeight = foldl (\<lambda>sum i. sum + weight i) 0 validItems in
          (case weighted_walk (u * totalWeight) validItems of
             Some x \<Rightarrow> Inr x
           | None \<Rightarrow> Inr (item (last validItems))))"

text \<open>The method itself: the draw is taken only once both checks have passed.\<close>

definition weightedPick :: "'a weighted_item list \<Rightarrow> seedable_rng \<Rightarrow> (error + 'a) \<times> seedable_rng" where
  "weightedPick items g =
     (if length items = 0 \<or> length (filter (\<lambda>i. weight i > 0) items) = 0
      then (weightedPick_draw 0 items, g)
      else case rng_float g of (u, g') \<Rightarrow> (weightedPick_draw u items, g'))"

section \<open>Lexicon data (types/lexicon.ts)\<close>

text \<open>
  Optional properties are \<open>option\<close> fields.  A \<^verbatim>\<open>Record<string, T>\<close> is an association
  list in the order \<^verbatim>\<open>Object.entries\<close> enumerates it.  The output-transform settings that
  a lexicon or an archetype may carry are never inspected by the generation engine; they
  are kept as opaque text.
\<close>

datatype pos = Noun | Verb | Adj | Adv | Prep | Conj | Intj | Det

datatype scope = ScToken | ScPhrase | ScClause | ScSentence | ScParagraph | ScText

fun scope_name :: "scope \<Rightarrow> string" where
  "scope_name ScToken = ''token''"
| "scope_name ScPhrase = ''phrase''"
| "scope_name ScClause = ''clause''"
| "scope_name ScSentence = ''sentence''"
| "scope_name ScParagraph = ''paragraph''"
| "scope_name ScText = ''text''"

datatype fval = FBool bool | FNum real | FStr string

type_synonym features = "(string \<times> fval) list"

record lex_term =
  term_value :: string
  term_weight :: "real option"
  term_features :: "features option"
  term_tags :: "string list option"

record term_set =
  ts_pos :: pos
  ts_tags :: "string list option"
  ts_terms :: "lex_term list"

record lexical_item =
  li_value :: string
  li_pos :: pos
  li_termSetId :: "string option"
  li_features :: "features option"
  li_tags :: "string list option"

datatype pattern_type =
  PtSentence | PtNounPhrase | PtVerbPhrase | PtPrepPhrase | PtAdjPhrase | PtAdvPhrase | PtClause

record pattern =
  pat_type :: pattern_type
  pat_slots :: "string list"
  pat_constraints :: "string list option"
  pat_weight :: "real option"
  pat_tags :: "string list option"

record distribution_entry =
  de_key :: string
  de_weight :: real

record correlation_condition =
  chosenTermSet :: "string option"
  chosenTag :: "string option"
  chosenValue :: "string option"
  usedPattern :: "string option"

record correlation_boost =
  boost_termSet :: "string option"
  boost_pattern :: "string option"
  weightDelta :: real

record correlation =
  corr_when :: correlation_condition
  thenBoost :: "correlation_boost list"
  corr_scope :: scope

datatype level = Hard | Soft

datatype constraint_type = NoRepeat | MaxCount | MinCount | Required | Forbidden | Custom

record constraint =
  c_id :: string
  c_level :: level
  c_scope :: scope
  c_type :: constraint_type
  c_target :: string
  c_value :: "int option"

datatype invariant_type = Capitalization | Punctuation | Whitespace | Agreement | CustomInvariant

record invariant =
  inv_id :: string
  inv_type :: invariant_type
  inv_scope :: scope

record archetype_distributions =
  ad_sentenceTypes :: "string option"
  ad_termSetBias :: "string option"

record archetype =
  arch_tags :: "string list option"
  arch_distributions :: "archetype_distributions option"
  arch_overrides :: "(string \<times> real) list option"
  arch_outputTransforms :: "string option"

record relation =
  rel_from :: string
  rel_type :: string
  rel_to :: string
  rel_weight :: "real option"

record lexicon =
  lex_id :: string
  lex_version :: "string option"
  lex_language :: string
  termSets :: "(string \<times> term_set) list option"
  patterns :: "(string \<times> pattern) list option"
  distributions :: "(string \<times> distribution_entry list) list option"
  correlations :: "correlation list option"
  lex_constraints :: "constraint list option"
  lex_invariants :: "invariant list option"
  archetypes :: "(string \<times> archetype) list option"
  relations :: "relation list option"
  lex_outputTransforms :: "string option"

record term_query =
  q_pos :: pos
  q_tags :: "string list option"
  q_termSetIds :: "string list option"
  q_features :: "features option"
  q_fallbackToFaker :: bool
  q_exclude :: "string list option"

record pattern_query =
  pq_type :: pattern_type
  pq_tags :: "string list option"
  pq_patternIds :: "string list option"

datatype choice_type = ChTerm | ChPattern | ChTemplate

datatype choice_item = ItemTerm lexical_item | ItemPattern pattern | ItemString string

record choice_event =
  ev_type :: choice_type
  ev_item :: choice_item
  ev_termSetId :: "string option"
  ev_patternId :: "string option"
  ev_scope :: scope

datatype direction = Outgoing | Incoming

record relation_result =
  rr_term :: string
  rr_relationType :: string
  rr_weight :: real
  rr_direction :: direction

section \<open>Generation context (types/context.ts)\<close>

datatype gnumber = Singular | Plural

record phrase_features =
  pf_number :: gnumber
  pf_person :: int

record generation_history =
  chosenTermSets :: "string list"
  chosenTerms :: "pos \<Rightarrow> lexical_item list option"
  chosenPatterns :: "string list"
  events :: "choice_event list"

record scope_entry =
  se_type :: scope
  se_startIndex :: int

record generation_context =
  ctx_seed :: int
  ctx_archetype :: string
  activeTags :: "string list"
  biases :: "string \<rightharpoonup> real"
  history :: generation_history
  scopeStack :: "scope_entry list"
  ctx_constraints :: "constraint list"
  ctx_invariants :: "invariant list"
  sentenceIndex :: int
  paragraphIndex :: int
  currentSentenceTokens :: "string list"
  currentSubjectFeatures :: "phrase_features option"
  relationHints :: "string list"
  retryCount :: int

definition createContext :: "int \<Rightarrow> string \<Rightarrow> generation_context" where
  "createContext seed archetype =
     \<lparr>ctx_seed = seed, ctx_archetype = archetype, activeTags = [], biases = Map.empty,
      history = \<lparr>chosenTermSets = [], chosenTerms = (\<lambda>_. None), chosenPatterns = [], events = []\<rparr>,
      scopeStack = [\<lparr>se_type = ScText, se_startIndex = 0\<rparr>],
      ctx_constraints = [], ctx_invariants = [],
      sentenceIndex = 0, paragraphIndex = 0, currentSentenceTokens = [],
      currentSubjectFeatures = None, relationHints = [], retryCount = 0\<rparr>"

text \<open>\<^verbatim>\<open>ctx.activeTags.add(tag)\<close> on the insertion-ordered set.\<close>

definition addTag :: "string \<Rightarrow> generation_context \<Rightarrow> generation_context" where
  "addTag t ctx = (if t \<in> set (activeTags ctx) then ctx else ctx\<lparr>activeTags := activeTags ctx @ [t]\<rparr>)"

definition recordChoice :: "choice_event \<Rightarrow> generation_context \<Rightarrow> generation_context" where
  "recordChoice event ctx =
     (let h = history ctx;
          h1 = h\<lparr>events := events h @ [event]\<rparr>
      in case (ev_type event, ev_item event) of
           (ChTerm, ItemTerm it) \<Rightarrow>
             (let existing = (case chosenTerms h1 (li_pos it) of None \<Rightarrow> [] | Some l \<Rightarrow> l);
                  h2 = h1\<lparr>chosenTerms := (chosenTerms h1)(li_pos it \<mapsto> existing @ [it])\<rparr>;
                  h3 = (case ev_termSetId event of
                          Some tsid \<Rightarrow>
                            (if tsid \<noteq> [] then h2\<lparr>chosenTermSets := chosenTermSets h2 @ [tsid]\<rparr> else h2)
                        | None \<Rightarrow> h2)
              in ctx\<lparr>history := h3\<rparr>)
         | (ChPattern, _) \<Rightarrow>
             (case ev_patternId event of
                Some pid \<Rightarrow>
                  (if pid \<noteq> [] then ctx\<lparr>history := h1\<lparr>chosenPatterns := chosenPatterns h1 @ [pid]\<rparr>\<rparr>
                   else ctx\<lparr>history := h1\<rparr>)
              | None \<Rightarrow> ctx\<lparr>history := h1\<rparr>)
         | _ \<Rightarrow> ctx\<lparr>history := h1\<rparr>)"

text \<open>
  The two boundary clears.  Deleting, while iterating, every key of the bias \<^verbatim>\<open>Map\<close> that
  starts with the prefix leaves exactly the entries whose key does not start with it.
\<close>

definition clearSentenceState :: "generation_context \<Rightarrow> generation_context" where
  "clearSentenceState ctx =
     ctx\<lparr>currentSentenceTokens := [], currentSubjectFeatures := None, relationHints := [],
         biases := (\<lambda>key. if prefix ''sentence:'' key then None else biases ctx key)\<rparr>"

definition clearParagraphState :: "generation_context \<Rightarrow> generation_context" where
  "clearParagraphState ctx =
     (let c1 = clearSentenceState ctx in
      c1\<lparr>sentenceIndex := 0,
         biases := (\<lambda>key. if prefix ''paragraph:'' key then None else biases c1 key)\<rparr>)"

section \<open>Lexicon store (lexicon/store.ts)\<close>

text \<open>
  The store holds the lexicon (\<open>None\<close> before one is loaded) and a reference to the
  session's random source, which the sampling functions take and return.
\<close>

type_synonym lexicon_store = "lexicon option"

definition isLoaded :: "lexicon_store \<Rightarrow> bool" where
  "isLoaded store = (store \<noteq> None)"

definition getMeta :: "lexicon_store \<Rightarrow> (string \<times> string option \<times> string) option" where
  "getMeta store =
     (case store of None \<Rightarrow> None
      | Some lx \<Rightarrow> Some (lex_id lx, lex_version lx, lex_language lx))"

definition getArchetype :: "lexicon_store \<Rightarrow> string \<Rightarrow> archetype option" where
  "getArchetype store name =
     (case store of None \<Rightarrow> None
      | Some lx \<Rightarrow> (case archetypes lx of None \<Rightarrow> None | Some as \<Rightarrow> map_of as name))"

definition getDistribution :: "lexicon_store \<Rightarrow> string \<Rightarrow> distribution_entry list option" where
  "getDistribution store ident =
     (case store of None \<Rightarrow> None
      | Some lx \<Rightarrow> (case distributions lx of None \<Rightarrow> None | Some ds \<Rightarrow> map_of ds ident))"

text \<open>A string used as a condition: \<^verbatim>\<open>undefined\<close> and the empty string are falsy.\<close>

fun truthy :: "string option \<Rightarrow> bool" where
  "truthy None = False"
| "truthy (Some s) = (s \<noteq> [])"

text \<open>\<^verbatim>\<open>xs && xs.length > 0\<close> on an optional array.\<close>

fun nonempty_opt :: "'a list option \<Rightarrow> bool" where
  "nonempty_opt None = False"
| "nonempty_opt (Some xs) = (xs \<noteq> [])"

fun opt_list :: "'a list option \<Rightarrow> 'a list" where
  "opt_list None = []"
| "opt_list (Some xs) = xs"

definition findMatchingTermSets ::
    "lexicon_store \<Rightarrow> term_query \<Rightarrow> generation_context \<Rightarrow> (string \<times> term_set) list" where
  "findMatchingTermSets store termQuery ctx =
     (case store of None \<Rightarrow> []
      | Some lx \<Rightarrow>
        (case termSets lx of None \<Rightarrow> []
         | Some tss \<Rightarrow>
           if nonempty_opt (q_termSetIds termQuery) then
             concat (map (\<lambda>ident. case map_of tss ident of
                               None \<Rightarrow> []
                             | Some s \<Rightarrow> if ts_pos s = q_pos termQuery then [(ident, s)] else [])
                         (opt_list (q_termSetIds termQuery)))
           else
             filter (\<lambda>(ident, s).
                 ts_pos s = q_pos termQuery
                 \<and> (\<not> nonempty_opt (q_tags termQuery)
                      \<or> list_ex (\<lambda>t. t \<in> set (opt_list (ts_tags s))) (opt_list (q_tags termQuery)))
                 \<and> \<not> (activeTags ctx \<noteq> [] \<and> ts_tags s \<noteq> None
                        \<and> \<not> list_ex (\<lambda>t. t \<in> set (opt_list (ts_tags s))) (activeTags ctx)
                        \<and> nonempty_opt (q_tags termQuery)))
               tss))"

text \<open>
  The weight \<^verbatim>\<open>sampleTerm\<close> gives a candidate term set: the body of the \<^verbatim>\<open>map\<close> callback.
\<close>

definition termSetWeight :: "lexicon_store \<Rightarrow> generation_context \<Rightarrow> string \<Rightarrow> real" where
  "termSetWeight store ctx ident =
     (let weight = 1;
          weight =
            (case getArchetype store (ctx_archetype ctx) of
               None \<Rightarrow> weight
             | Some a \<Rightarrow>
               (case arch_distributions a of
                  None \<Rightarrow> weight
                | Some d \<Rightarrow>
                  if truthy (ad_termSetBias d) then
                    (case getDistribution store (the (ad_termSetBias d)) of
                       None \<Rightarrow> weight
                     | Some dst \<Rightarrow>
                       (case find (\<lambda>e. de_key e = ident) dst of
                          None \<Rightarrow> weight
                        | Some entry \<Rightarrow> weight * de_weight entry))
                  else weight));
          bias = (case biases ctx ident of None \<Rightarrow> 0 | Some b \<Rightarrow> b);
          weight = weight + bias
      in max 0 weight)"

definition featuresMatch :: "features option \<Rightarrow> lex_term \<Rightarrow> bool" where
  "featuresMatch qf t =
     (case qf of None \<Rightarrow> True
      | Some fs \<Rightarrow>
          list_all (\<lambda>(key, v). (case term_features t of None \<Rightarrow> None | Some tf \<Rightarrow> map_of tf key) = Some v) fs)"

definition sampleTerm ::
    "lexicon_store \<Rightarrow> term_query \<Rightarrow> generation_context \<Rightarrow> seedable_rng
      \<Rightarrow> (error + lexical_item option) \<times> seedable_rng" where
  "sampleTerm store termQuery ctx g =
     (case store of None \<Rightarrow> (Inr None, g)
      | Some lx \<Rightarrow>
        if termSets lx = None then (Inr None, g) else
        let candidateSets = findMatchingTermSets store termQuery ctx in
        if length candidateSets = 0 then (Inr None, g) else
        let weightedSets =
              map (\<lambda>(ident, s). \<lparr>item = (ident, s), weight = termSetWeight store ctx ident\<rparr>) candidateSets;
            validWeightedSets = filter (\<lambda>w. weight w > 0) weightedSets
        in if length validWeightedSets = 0 then (Inr None, g) else
          (case weightedPick validWeightedSets g of
             (Inl e, g1) \<Rightarrow> (Inl e, g1)
           | (Inr (termSetId, s), g1) \<Rightarrow>
             let terms = filter (\<lambda>t. featuresMatch (q_features termQuery) t
                                     \<and> \<not> (term_value t \<in> set (opt_list (q_exclude termQuery))))
                                (ts_terms s)
             in if length terms = 0 then (Inr None, g1) else
               let weightedTerms =
                     map (\<lambda>t. \<lparr>item = t, weight = (case term_weight t of None \<Rightarrow> 1 | Some w \<Rightarrow> w)\<rparr>) terms
               in (case weightedPick weightedTerms g1 of
                     (Inl e, g2) \<Rightarrow> (Inl e, g2)
                   | (Inr t, g2) \<Rightarrow>
                       (Inr (Some \<lparr>li_value = term_value t, li_pos = q_pos termQuery,
                                   li_termSetId = Some termSetId, li_features = term_features t,
                                   li_tags = (case term_tags t of None \<Rightarrow> ts_tags s | Some tg \<Rightarrow> Some tg)\<rparr>),
                        g2))))"

definition patternWeight :: "generation_context \<Rightarrow> string \<Rightarrow> pattern \<Rightarrow> real" where
  "patternWeight ctx ident p =
     (let weight = (case pat_weight p of None \<Rightarrow> 1 | Some w \<Rightarrow> w);
          bias = (case biases ctx (''pattern:'' @ ident) of None \<Rightarrow> 0 | Some b \<Rightarrow> b);
          weight = weight + bias
      in max 0 weight)"

definition samplePattern ::
    "lexicon_store \<Rightarrow> pattern_query \<Rightarrow> generation_context \<Rightarrow> seedable_rng
      \<Rightarrow> (error + pattern option) \<times> seedable_rng" where
  "samplePattern store patternQuery ctx g =
     (case store of None \<Rightarrow> (Inr None, g)
      | Some lx \<Rightarrow>
        (case patterns lx of None \<Rightarrow> (Inr None, g)
         | Some ps \<Rightarrow>
           let candidates =
                 (if nonempty_opt (pq_patternIds patternQuery) then
                    concat (map (\<lambda>ident. case map_of ps ident of
                                   None \<Rightarrow> []
                                 | Some p \<Rightarrow> if pat_type p = pq_type patternQuery then [(ident, p)] else [])
                                (opt_list (pq_patternIds patternQuery)))
                  else
                    filter (\<lambda>(ident, p).
                        pat_type p = pq_type patternQuery
                        \<and> (\<not> nonempty_opt (pq_tags patternQuery)
                             \<or> list_ex (\<lambda>t. t \<in> set (opt_list (pat_tags p))) (opt_list (pq_tags patternQuery))))
                      ps)
           in if length candidates = 0 then (Inr None, g) else
             let weighted = map (\<lambda>(ident, p). \<lparr>item = p, weight = patternWeight ctx ident p\<rparr>) candidates;
                 validWeighted = filter (\<lambda>w. weight w > 0) weighted
             in if length validWeighted = 0 then (Inr None, g) else
               (case weightedPick validWeighted g of
                  (Inl e, g1) \<Rightarrow> (Inl e, g1)
                | (Inr p, g1) \<Rightarrow> (Inr (Some p), g1))))"

definition matchesCorrelationCondition :: "correlation_condition \<Rightarrow> choice_event \<Rightarrow> bool" where
  "matchesCorrelationCondition condition chosen =
     (if truthy (chosenTermSet condition) \<and> ev_termSetId chosen = chosenTermSet condition then True
      else if truthy (chosenTag condition) \<and> ev_type chosen = ChTerm
              \<and> (case ev_item chosen of
                    ItemTerm it \<Rightarrow> the (chosenTag condition) \<in> set (opt_list (li_tags it))
                  | ItemPattern p \<Rightarrow> the (chosenTag condition) \<in> set (opt_list (pat_tags p))
                  | ItemString s \<Rightarrow> False) then True
      else if truthy (chosenValue condition) \<and> ev_type chosen = ChTerm
              \<and> (case ev_item chosen of
                    ItemTerm it \<Rightarrow> li_value it = the (chosenValue condition)
                  | _ \<Rightarrow> False) then True
      else if truthy (usedPattern condition) \<and> ev_patternId chosen = usedPattern condition then True
      else False)"

text \<open>The body of the inner loop of \<^verbatim>\<open>applyCorrelations\<close>: one boost of one correlation.\<close>

definition applyBoost :: "scope \<Rightarrow> correlation_boost \<Rightarrow> (string \<rightharpoonup> real) \<Rightarrow> (string \<rightharpoonup> real)" where
  "applyBoost sc boost b =
     (let pfx = scope_name sc @ '':'';
          b1 = (if truthy (boost_termSet boost) then
                  (let key = pfx @ the (boost_termSet boost);
                       current = (case b key of None \<Rightarrow> 0 | Some v \<Rightarrow> v);
                       b' = b(key \<mapsto> current + weightDelta boost);
                       currentSimple = (case b' (the (boost_termSet boost)) of None \<Rightarrow> 0 | Some v \<Rightarrow> v)
                   in b'(the (boost_termSet boost) \<mapsto> currentSimple + weightDelta boost))
                else b)
      in if truthy (boost_pattern boost) then
           (let key = pfx @ (''pattern:'' @ the (boost_pattern boost));
                current = (case b1 key of None \<Rightarrow> 0 | Some v \<Rightarrow> v)
            in b1(key \<mapsto> current + weightDelta boost))
         else b1)"

definition applyCorrelations :: "lexicon_store \<Rightarrow> choice_event \<Rightarrow> generation_context \<Rightarrow> generation_context" where
  "applyCorrelations store chosen ctx =
     (case store of None \<Rightarrow> ctx
      | Some lx \<Rightarrow>
        (case correlations lx of None \<Rightarrow> ctx
         | Some cs \<Rightarrow>
           ctx\<lparr>biases :=
             foldl (\<lambda>b c. if matchesCorrelationCondition (corr_when c) chosen
                           then foldl (\<lambda>b' boost. applyBoost (corr_scope c) boost b') b (thenBoost c)
                           else b)
                   (biases ctx) cs\<rparr>))"

definition evaluateRelations :: "lexicon_store \<Rightarrow> string \<Rightarrow> string option \<Rightarrow> relation_result list" where
  "evaluateRelations store entityOrTerm relationType =
     (case store of None \<Rightarrow> []
      | Some lx \<Rightarrow>
        (case relations lx of None \<Rightarrow> []
         | Some rs \<Rightarrow>
           concat (map (\<lambda>r.
             (if rel_from r = entityOrTerm \<and> (\<not> truthy relationType \<or> Some (rel_type r) = relationType)
              then [\<lparr>rr_term = rel_to r, rr_relationType = rel_type r,
                     rr_weight = (case rel_weight r of None \<Rightarrow> 1 | Some w \<Rightarrow> w), rr_direction = Outgoing\<rparr>]
              else [])
             @ (if rel_to r = entityOrTerm \<and> (\<not> truthy relationType \<or> Some (rel_type r) = relationType)
                then [\<lparr>rr_term = rel_from r, rr_relationType = rel_type r,
                       rr_weight = (case rel_weight r of None \<Rightarrow> 1 | Some w \<Rightarrow> w), rr_direction = Incoming\<rparr>]
                else [])) rs)))"

text \<open>
  The weight the active archetype's \<^verbatim>\<open>termSetBias\<close> distribution holds for a term set, when
  the archetype, the distribution and the entry all exist: the lookups \<^verbatim>\<open>sampleTerm\<close> makes.
\<close>

definition archetypeDistributionWeight :: "lexicon_store \<Rightarrow> generation_context \<Rightarrow> string \<Rightarrow> real option" where
  "archetypeDistributionWeight store ctx ident =
     (case getArchetype store (ctx_archetype ctx) of
        None \<Rightarrow> None
      | Some a \<Rightarrow>
        (case arch_distributions a of
           None \<Rightarrow> None
         | Some d \<Rightarrow>
           if truthy (ad_termSetBias d) then
             (case getDistribution store (the (ad_termSetBias d)) of
                None \<Rightarrow> None
              | Some dst \<Rightarrow> map_option de_weight (find (\<lambda>e. de_key e = ident) dst))
           else None))"

text \<open>
  The weight as the specification words it:
  \<^verbatim>\<open>1 + activeArchetypeDistributionWeight(setId) + ctx.bias[setId]\<close>, clamped at 0.
\<close>

definition spec_termSetWeight :: "lexicon_store \<Rightarrow> generation_context \<Rightarrow> string \<Rightarrow> real" where
  "spec_termSetWeight store ctx ident =
     max 0 (1 + (case archetypeDistributionWeight store ctx ident of None \<Rightarrow> 0 | Some w \<Rightarrow> w)
              + (case biases ctx ident of None \<Rightarrow> 0 | Some b \<Rightarrow> b))"

section \<open>Text normalisation (morphology/normalize.ts)\<close>

text \<open>
  Text is a list of characters.  The word lists, templates and punctuation of the
  generator are ASCII, and the model's case mapping and character classes are the ASCII
  ones: a character outside ASCII is a caseless symbol.  The white space of \<^verbatim>\<open>\s\<close>,
  \<^verbatim>\<open>trim\<close> and \<^verbatim>\<open>trimEnd\<close> among the characters below 256 is tab, line feed,
  vertical tab, form feed, carriage return, space and the no-break space.
\<close>

definition is_space :: "char \<Rightarrow> bool" where
  "is_space c = (c = CHR '' '' \<or> c = CHR 0x09 \<or> c = CHR 0x0A \<or> c = CHR 0x0B \<or> c = CHR 0x0C \<or> c = CHR 0x0D
                  \<or> c = CHR 0xA0)"

definition is_lower :: "char \<Rightarrow> bool" where
  "is_lower c = (c \<in> set ''abcdefghijklmnopqrstuvwxyz'')"

definition is_upper :: "char \<Rightarrow> bool" where
  "is_upper c = (c \<in> set ''ABCDEFGHIJKLMNOPQRSTUVWXYZ'')"

text \<open>The class \<^verbatim>\<open>[a-zA-Z]\<close>.\<close>

definition is_letter :: "char \<Rightarrow> bool" where
  "is_letter c = (is_lower c \<or> is_upper c)"

definition upper_char :: "char \<Rightarrow> char" where
  "upper_char c =
     (case map_of (zip ''abcdefghijklmnopqrstuvwxyz'' ''ABCDEFGHIJKLMNOPQRSTUVWXYZ'') c of
        Some u \<Rightarrow> u
      | None \<Rightarrow> c)"

definition lower_char :: "char \<Rightarrow> char" where
  "lower_char c =
     (case map_of (zip ''ABCDEFGHIJKLMNOPQRSTUVWXYZ'' ''abcdefghijklmnopqrstuvwxyz'') c of
        Some l \<Rightarrow> l
      | None \<Rightarrow> c)"

definition toUpperCase :: "string \<Rightarrow> string" where
  "toUpperCase s = map upper_char s"

definition toLowerCase :: "string \<Rightarrow> string" where
  "toLowerCase s = map lower_char s"

text \<open>The classes \<^verbatim>\<open>[.,!?;:)]\<close> and \<^verbatim>\<open>[.,!?;:]\<close>, and the sentence-ending marks.\<close>

definition is_close_punct :: "char \<Rightarrow> bool" where
  "is_close_punct c = (c \<in> set ''.,!?;:)'')"

definition is_punct :: "char \<Rightarrow> bool" where
  "is_punct c = (c \<in> set ''.,!?;:'')"

definition is_end_punct :: "char \<Rightarrow> bool" where
  "is_end_punct c = (c \<in> set ''.!?;:'')"

text \<open>\<^verbatim>\<open>.replace(/\s+/g, ' ')\<close>: every maximal run of white space becomes one space.\<close>

fun collapse_ws :: "string \<Rightarrow> string" where
  "collapse_ws [] = []"
| "collapse_ws [c] = (if is_space c then [CHR '' ''] else [c])"
| "collapse_ws (c # d # cs) =
     (if is_space c then (if is_space d then collapse_ws (d # cs) else CHR '' '' # collapse_ws (d # cs))
      else c # collapse_ws (d # cs))"

text \<open>
  \<^verbatim>\<open>.replace(/\s+([.,!?;:)])/g, '$1')\<close>: a maximal run of white space that is directly
  followed by one of the marks is dropped; any other run stays.
\<close>

function strip_before_punct :: "string \<Rightarrow> string" where
  "strip_before_punct [] = []"
| "strip_before_punct (c # cs) =
     (if is_space c then
        (case dropWhile is_space cs of
           [] \<Rightarrow> c # takeWhile is_space cs
         | p # ps \<Rightarrow>
             if is_close_punct p then p # strip_before_punct ps
             else c # takeWhile is_space cs @ p # strip_before_punct ps)
      else c # strip_before_punct cs)"
  by pat_completeness auto
termination
proof (relation "measure length")
  fix c :: char and cs p ps
  assume "dropWhile is_space cs = p # ps"
  then have "length (p # ps) \<le> length cs"
    by (metis length_dropWhile_le)
  then show "(ps, c # cs) \<in> measure length" by simp
next
  fix c :: char and cs p ps
  assume "dropWhile is_space cs = p # ps"
  then have "length (p # ps) \<le> length cs"
    by (metis length_dropWhile_le)
  then show "(ps, c # cs) \<in> measure length" by simp
qed auto

text \<open>\<^verbatim>\<open>.replace(/\(\s+/g, '(')\<close>: white space after an opening parenthesis is dropped.\<close>

function strip_after_open :: "string \<Rightarrow> string" where
  "strip_after_open [] = []"
| "strip_after_open (c # cs) =
     (if c = CHR ''('' then c # strip_after_open (dropWhile is_space cs)
      else c # strip_after_open cs)"
  by pat_completeness auto
termination
  by (relation "measure length") (auto simp: le_imp_less_Suc length_dropWhile_le)

text \<open>
  \<^verbatim>\<open>.replace(/([.,!?;:])(?=[^\s])/g, '$1 ')\<close>: a mark that is followed by a character that
  is not white space gets a space after it.  The lookahead consumes nothing.
\<close>

fun space_after_punct :: "string \<Rightarrow> string" where
  "space_after_punct [] = []"
| "space_after_punct [c] = [c]"
| "space_after_punct (c # d # cs) =
     (if is_punct c \<and> \<not> is_space d then c # CHR '' '' # space_after_punct (d # cs)
      else c # space_after_punct (d # cs))"

definition trimEnd :: "string \<Rightarrow> string" where
  "trimEnd s = rev (dropWhile is_space (rev s))"

definition trim :: "string \<Rightarrow> string" where
  "trim s = trimEnd (dropWhile is_space s)"

definition normalizeWhitespace :: "string \<Rightarrow> string" where
  "normalizeWhitespace text =
     trim (space_after_punct (strip_after_open (strip_before_punct (collapse_ws text))))"

definition capitalize :: "string \<Rightarrow> string" where
  "capitalize text = (case text of [] \<Rightarrow> [] | c # rest \<Rightarrow> toUpperCase [c] @ rest)"

definition ensureEndPunctuation :: "string \<Rightarrow> string \<Rightarrow> string" where
  "ensureEndPunctuation text defaultPunct =
     (let trimmed = trimEnd text in
      if trimmed = [] then trimmed
      else if last trimmed \<in> set ''.!?;:'' then trimmed
      else trimmed @ defaultPunct)"

definition isCapitalized :: "string \<Rightarrow> bool" where
  "isCapitalized text =
     (if text = [] then True
      else case find is_letter text of
             None \<Rightarrow> True
           | Some l \<Rightarrow> [l] = toUpperCase [l])"

definition endsWithPunctuation :: "string \<Rightarrow> bool" where
  "endsWithPunctuation text =
     (if text = [] then True
      else trimEnd text \<noteq> [] \<and> last (trimEnd text) \<in> set ''.!?;:,'')"

text \<open>\<^verbatim>\<open>!/\s{2,}/.test(text)\<close>: no two adjacent white-space characters.\<close>

fun hasNoDoubleSpaces :: "string \<Rightarrow> bool" where
  "hasNoDoubleSpaces [] = True"
| "hasNoDoubleSpaces [c] = True"
| "hasNoDoubleSpaces (c # d # cs) = (\<not> (is_space c \<and> is_space d) \<and> hasNoDoubleSpaces (d # cs))"

fun joinTokens_loop :: "string \<Rightarrow> string list \<Rightarrow> string" where
  "joinTokens_loop result [] = result"
| "joinTokens_loop result (token # rest) =
     joinTokens_loop
       (if token \<noteq> [] \<and> is_close_punct (hd token) then result @ token
        else if result \<noteq> [] \<and> last result = CHR ''('' then result @ token
        else result @ CHR '' '' # token)
       rest"

definition joinTokens :: "string list \<Rightarrow> string" where
  "joinTokens tokens = (case tokens of [] \<Rightarrow> [] | t # rest \<Rightarrow> joinTokens_loop t rest)"

definition formatSentence :: "string \<Rightarrow> string \<Rightarrow> string" where
  "formatSentence text punctuation =
     ensureEndPunctuation (capitalize (normalizeWhitespace text)) punctuation"

text \<open>\<^verbatim>\<open>Array.prototype.join\<close>.\<close>

fun join :: "string \<Rightarrow> string list \<Rightarrow> string" where
  "join sep [] = []"
| "join sep [x] = x"
| "join sep (x # y # rest) = x @ sep @ join sep (y # rest)"

definition formatParagraph :: "string list \<Rightarrow> string" where
  "formatParagraph sentences = join '' '' (map (\<lambda>s. formatSentence s ''.'') sentences)"

definition formatTextBlock :: "string list \<Rightarrow> string" where
  "formatTextBlock paragraphs = join [CHR 0x0A, CHR 0x0A] paragraphs"

text \<open>
  The properties the specification names: the text starts with an upper-case letter, and
  it ends in one of \<^verbatim>\<open>. ! ? ; :\<close>.
\<close>

definition startsWithCapital :: "string \<Rightarrow> bool" where
  "startsWithCapital text = (text \<noteq> [] \<and> is_upper (hd text))"

definition endsInTerminalPunctuation :: "string \<Rightarrow> bool" where
  "endsInTerminalPunctuation text = (text \<noteq> [] \<and> is_end_punct (last text))"

section \<open>Configuration (types/config.ts)\<close>

record sentence_type_weights =
  w_simpleDeclarative :: real
  w_compound :: real
  w_introAdverbial :: real
  w_subordinate :: real
  w_interjection :: real
  w_question :: real

record generator_config =
  sentenceTypeWeights :: sentence_type_weights
  minWordsPerSentence :: int
  maxWordsPerSentence :: int
  avgSentenceLength :: int
  minSentencesPerParagraph :: int
  maxSentencesPerParagraph :: int
  interjectionRate :: real
  subordinateClauseRate :: real
  relativeClauseRate :: real
  questionRate :: real
  compoundRate :: real
  maxPPChain :: int
  maxAdjectivesPerNoun :: int
  maxAdverbsPerVerb :: int
  maxSentenceAttempts :: int
  maxPhraseAttempts :: int
  enableTrace :: bool
  strictMode :: bool
  determiners :: "string list"
  subjectPronouns :: "string list"
  objectPronouns :: "string list"
  possessiveDeterminers :: "string list"
  modals :: "string list"
  subordinators :: "string list"
  relatives :: "string list"
  coordinators :: "string list"
  transitions :: "string list"
  interjections :: "string list"
  cfg_outputTransforms :: "string option"

definition DEFAULT_CONFIG :: generator_config where
  "DEFAULT_CONFIG =
     \<lparr>sentenceTypeWeights =
        \<lparr>w_simpleDeclarative = 45, w_compound = 15, w_introAdverbial = 12,
         w_subordinate = 15, w_interjection = 3, w_question = 10\<rparr>,
      minWordsPerSentence = 5, maxWordsPerSentence = 25, avgSentenceLength = 12,
      minSentencesPerParagraph = 2, maxSentencesPerParagraph = 7,
      interjectionRate = 3 / 100, subordinateClauseRate = 15 / 100, relativeClauseRate = 10 / 100,
      questionRate = 10 / 100, compoundRate = 15 / 100,
      maxPPChain = 2, maxAdjectivesPerNoun = 2, maxAdverbsPerVerb = 1,
      maxSentenceAttempts = 25, maxPhraseAttempts = 10,
      enableTrace = False, strictMode = False,
      determiners = [''the'', ''a'', ''an'', ''this'', ''that'', ''these'', ''those'', ''my'', ''your'',
        ''his'', ''her'', ''its'', ''our'', ''their'', ''some'', ''any'', ''no'', ''every'', ''each'',
        ''all'', ''both'', ''few'', ''many'', ''several''],
      subjectPronouns = [''I'', ''you'', ''he'', ''she'', ''it'', ''we'', ''they''],
      objectPronouns = [''me'', ''you'', ''him'', ''her'', ''it'', ''us'', ''them''],
      possessiveDeterminers = [''my'', ''your'', ''his'', ''her'', ''its'', ''our'', ''their''],
      modals = [''can'', ''could'', ''may'', ''might'', ''must'', ''shall'', ''should'', ''will'', ''would''],
      subordinators = [''after'', ''although'', ''as'', ''because'', ''before'', ''if'', ''once'',
        ''since'', ''than'', ''that'', ''though'', ''unless'', ''until'', ''when'', ''whenever'',
        ''where'', ''wherever'', ''while''],
      relatives = [''who'', ''whom'', ''whose'', ''which'', ''that''],
      coordinators = [''and'', ''but'', ''or'', ''nor'', ''for'', ''yet'', ''so''],
      transitions = [''however'', ''therefore'', ''moreover'', ''furthermore'', ''meanwhile'',
        ''consequently'', ''nevertheless'', ''otherwise'', ''accordingly'', ''indeed'', ''certainly'',
        ''naturally'', ''fortunately'', ''unfortunately'', ''surprisingly'', ''generally'',
        ''specifically'', ''particularly''],
      interjections = [''oh'', ''ah'', ''well'', ''wow'', ''hey'', ''alas'', ''indeed'', ''certainly'',
        ''surely'', ''naturally''],
      cfg_outputTransforms = None\<rparr>"

section \<open>Rule engine (rules/rule-engine.ts)\<close>

text \<open>
  A constraint or invariant result is its id and whether it passed; the message, which
  no caller inspects, is left out.
\<close>

record rule_result =
  r_id :: string
  r_passed :: bool

record validation_result =
  valid :: bool
  constraintResults :: "rule_result list"
  invariantResults :: "rule_result list"
  hardConstraintsFailed :: "string list"
  softConstraintsFailed :: "string list"
  invariantsFailed :: "string list"

text \<open>\<^verbatim>\<open>target.slice(4) as POS\<close>, used as a key of \<^verbatim>\<open>chosenTerms\<close>.\<close>

definition pos_of_string :: "string \<Rightarrow> pos option" where
  "pos_of_string s =
     map_of [(''noun'', Noun), (''verb'', Verb), (''adj'', Adj), (''adv'', Adv),
             (''prep'', Prep), (''conj'', Conj), (''intj'', Intj), (''det'', Det)] s"

definition chosenTermsOf :: "generation_context \<Rightarrow> string \<Rightarrow> lexical_item list" where
  "chosenTermsOf ctx p =
     (case pos_of_string p of
        None \<Rightarrow> []
      | Some q \<Rightarrow> (case chosenTerms (history ctx) q of None \<Rightarrow> [] | Some l \<Rightarrow> l))"

definition evaluateNoRepeat :: "constraint \<Rightarrow> generation_context \<Rightarrow> string list \<Rightarrow> rule_result" where
  "evaluateNoRepeat c ctx tokens =
     (let target = c_target c in
      if prefix ''pos:'' target then
        (let values = map (\<lambda>t. toLowerCase (li_value t)) (chosenTermsOf ctx (drop 4 target))
         in \<lparr>r_id = c_id c, r_passed = (length values = length (remdups values))\<rparr>)
      else if prefix ''termSet:'' target then
        (let count = length (filter (\<lambda>ts. ts = drop 8 target) (chosenTermSets (history ctx)))
         in \<lparr>r_id = c_id c, r_passed = \<not> (count > 1)\<rparr>)
      else
        (let tokenLower = map toLowerCase tokens
         in \<lparr>r_id = c_id c, r_passed = (length tokenLower = length (remdups tokenLower))\<rparr>))"

definition evaluateMaxCount ::
    "generator_config \<Rightarrow> constraint \<Rightarrow> generation_context \<Rightarrow> string list \<Rightarrow> rule_result" where
  "evaluateMaxCount config c ctx tokens =
     (let target = c_target c;
          maxValue = (case c_value c of None \<Rightarrow> 1 | Some v \<Rightarrow> v)
      in if target = ''PP'' then
           (let preps = set (determiners config);
                count = int (length (filter (\<lambda>t. toLowerCase t \<in> preps) tokens))
            in if count > maxValue then \<lparr>r_id = c_id c, r_passed = False\<rparr>
               else \<lparr>r_id = c_id c, r_passed = True\<rparr>)
         else if target = ''words'' then
           (if int (length tokens) > maxValue then \<lparr>r_id = c_id c, r_passed = False\<rparr>
            else \<lparr>r_id = c_id c, r_passed = True\<rparr>)
         else \<lparr>r_id = c_id c, r_passed = True\<rparr>)"

definition evaluateMinCount :: "constraint \<Rightarrow> generation_context \<Rightarrow> string list \<Rightarrow> rule_result" where
  "evaluateMinCount c ctx tokens =
     (let target = c_target c;
          minValue = (case c_value c of None \<Rightarrow> 1 | Some v \<Rightarrow> v)
      in if target = ''words'' \<and> int (length tokens) < minValue
         then \<lparr>r_id = c_id c, r_passed = False\<rparr>
         else \<lparr>r_id = c_id c, r_passed = True\<rparr>)"

definition evaluateRequired :: "constraint \<Rightarrow> generation_context \<Rightarrow> string list \<Rightarrow> rule_result" where
  "evaluateRequired c ctx tokens =
     (let target = c_target c in
      if prefix ''pos:'' target \<and> length (chosenTermsOf ctx (drop 4 target)) = 0
      then \<lparr>r_id = c_id c, r_passed = False\<rparr>
      else \<lparr>r_id = c_id c, r_passed = True\<rparr>)"

definition evaluateForbidden :: "constraint \<Rightarrow> generation_context \<Rightarrow> string list \<Rightarrow> rule_result" where
  "evaluateForbidden c ctx tokens =
     (let tokenLower = map toLowerCase tokens in
      if toLowerCase (c_target c) \<in> set tokenLower
      then \<lparr>r_id = c_id c, r_passed = False\<rparr>
      else \<lparr>r_id = c_id c, r_passed = True\<rparr>)"

definition evaluateConstraint ::
    "generator_config \<Rightarrow> constraint \<Rightarrow> generation_context \<Rightarrow> string list \<Rightarrow> rule_result" where
  "evaluateConstraint config c ctx tokens =
     (case c_type c of
        NoRepeat \<Rightarrow> evaluateNoRepeat c ctx tokens
      | MaxCount \<Rightarrow> evaluateMaxCount config c ctx tokens
      | MinCount \<Rightarrow> evaluateMinCount c ctx tokens
      | Required \<Rightarrow> evaluateRequired c ctx tokens
      | Forbidden \<Rightarrow> evaluateForbidden c ctx tokens
      | Custom \<Rightarrow> \<lparr>r_id = c_id c, r_passed = True\<rparr>)"

definition evaluateConstraints ::
    "generator_config \<Rightarrow> constraint list \<Rightarrow> generation_context \<Rightarrow> string list \<Rightarrow> scope
      \<Rightarrow> rule_result list" where
  "evaluateConstraints config cs ctx tokens sc =
     map (\<lambda>c. evaluateConstraint config c ctx tokens) (filter (\<lambda>c. c_scope c = sc) cs)"

definition evaluateInvariant :: "invariant \<Rightarrow> string \<Rightarrow> rule_result" where
  "evaluateInvariant iv text =
     (case inv_type iv of
        Capitalization \<Rightarrow> \<lparr>r_id = inv_id iv, r_passed = isCapitalized text\<rparr>
      | Punctuation \<Rightarrow> \<lparr>r_id = inv_id iv, r_passed = endsWithPunctuation text\<rparr>
      | Whitespace \<Rightarrow> \<lparr>r_id = inv_id iv, r_passed = hasNoDoubleSpaces text\<rparr>
      | Agreement \<Rightarrow> \<lparr>r_id = inv_id iv, r_passed = True\<rparr>
      | CustomInvariant \<Rightarrow> \<lparr>r_id = inv_id iv, r_passed = True\<rparr>)"

definition evaluateInvariants :: "invariant list \<Rightarrow> string \<Rightarrow> scope \<Rightarrow> rule_result list" where
  "evaluateInvariants invs text sc =
     map (\<lambda>iv. evaluateInvariant iv text) (filter (\<lambda>iv. inv_scope iv = sc) invs)"

text \<open>\<^verbatim>\<open>constraints.find(c => c.id === r.id)?.level === l\<close>.\<close>

definition levelOf :: "constraint list \<Rightarrow> string \<Rightarrow> level option" where
  "levelOf cs ident = map_option c_level (find (\<lambda>c. c_id c = ident) cs)"

definition validate ::
    "generator_config \<Rightarrow> constraint list \<Rightarrow> invariant list \<Rightarrow> generation_context \<Rightarrow> string
      \<Rightarrow> string list \<Rightarrow> scope \<Rightarrow> validation_result" where
  "validate config cs invs ctx text tokens sc =
     (let cres = evaluateConstraints config cs ctx tokens sc;
          ires = evaluateInvariants invs text sc;
          hardFailed = map r_id (filter (\<lambda>r. levelOf cs (r_id r) = Some Hard)
                                   (filter (\<lambda>r. \<not> r_passed r) cres));
          softFailed = map r_id (filter (\<lambda>r. levelOf cs (r_id r) = Some Soft)
                                   (filter (\<lambda>r. \<not> r_passed r) cres));
          invFailed = map r_id (filter (\<lambda>r. \<not> r_passed r) ires)
      in \<lparr>valid = (length hardFailed = 0 \<and> length invFailed = 0),
          constraintResults = cres, invariantResults = ires,
          hardConstraintsFailed = hardFailed, softConstraintsFailed = softFailed,
          invariantsFailed = invFailed\<rparr>)"

definition getDefaultInvariants :: "invariant list" where
  "getDefaultInvariants =
     [\<lparr>inv_id = ''inv.capitalized'', inv_type = Capitalization, inv_scope = ScSentence\<rparr>,
      \<lparr>inv_id = ''inv.endsWithPunct'', inv_type = Punctuation, inv_scope = ScSentence\<rparr>,
      \<lparr>inv_id = ''inv.noDoubleSpaces'', inv_type = Whitespace, inv_scope = ScText\<rparr>]"

definition getDefaultConstraints :: "generator_config \<Rightarrow> constraint list" where
  "getDefaultConstraints config =
     [\<lparr>c_id = ''c.maxPP'', c_level = Hard, c_scope = ScPhrase, c_type = MaxCount,
       c_target = ''PP'', c_value = Some (maxPPChain config)\<rparr>,
      \<lparr>c_id = ''c.minWords'', c_level = Soft, c_scope = ScSentence, c_type = MinCount,
       c_target = ''words'', c_value = Some (minWordsPerSentence config)\<rparr>,
      \<lparr>c_id = ''c.maxWords'', c_level = Soft, c_scope = ScSentence, c_type = MaxCount,
       c_target = ''words'', c_value = Some (maxWordsPerSentence config)\<rparr>]"

text \<open>
  The prepositions of the default word tables (defaults/index.ts), from which the word
  provider draws the head of every prepositional phrase when no lexicon supplies one.
\<close>

definition DEFAULT_PREPOSITIONS :: "string list" where
  "DEFAULT_PREPOSITIONS =
     [''of'', ''in'', ''to'', ''for'', ''with'', ''on'', ''at'', ''from'', ''by'', ''about'',
      ''as'', ''into'', ''through'', ''during'', ''before'', ''after'', ''above'', ''below'',
      ''between'', ''under'', ''since'', ''without'', ''toward'', ''upon'', ''within'',
      ''against'', ''among'', ''across'', ''behind'', ''beyond'', ''over'', ''around'',
      ''throughout'', ''despite'', ''near'', ''along'', ''beside'', ''outside'', ''inside'']"

text \<open>
  The count the specification names for a \<^verbatim>\<open>maxCount\<close> constraint on \<^verbatim>\<open>PP\<close>: the number of
  prepositional phrases in the token sequence, one for each preposition that opens one.
\<close>

definition spec_ppCount :: "string list \<Rightarrow> int" where
  "spec_ppCount tokens = int (length (filter (\<lambda>t. toLowerCase t \<in> set DEFAULT_PREPOSITIONS) tokens))"

section \<open>Sentence templates (grammar/sentence-templates.ts)\<close>

datatype sentence_type =
  SimpleDeclarative | Compound | IntroAdverbial | Subordinate | Interjection | Question

record sentence_result =
  sr_text :: string
  sr_type :: sentence_type
  sr_tokens :: "string list"

datatype tense = Present | Past | Progressive

record phrase_result =
  pr_tokens :: "string list"
  pr_features :: "phrase_features option"

text \<open>
  What the grammar reads but never writes (the shared configuration object and the
  lexicon store), and what it reads and writes (the generation context and the random
  source).  A grammar function returns its result, or the error it threw, together with
  the state it left behind.
\<close>

record gen_env =
  env_config :: generator_config
  env_store :: lexicon_store

type_synonym gen_state = "generation_context \<times> seedable_rng"

type_synonym 'a gen = "gen_state \<Rightarrow> (error + 'a) \<times> gen_state"

definition gbind :: "'a gen \<Rightarrow> ('a \<Rightarrow> 'b gen) \<Rightarrow> 'b gen" where
  "gbind m f s = (case m s of (Inl e, s1) \<Rightarrow> (Inl e, s1) | (Inr x, s1) \<Rightarrow> f x s1)"

definition greturn :: "'a \<Rightarrow> 'a gen" where
  "greturn x s = (Inr x, s)"

definition gthrow :: "error \<Rightarrow> 'a gen" where
  "gthrow e s = (Inl e, s)"

definition g_float :: "real gen" where
  "g_float s = (case rng_float (snd s) of (v, g1) \<Rightarrow> (Inr v, (fst s, g1)))"

definition g_chance :: "real \<Rightarrow> bool gen" where
  "g_chance p s = (case rng_chance p (snd s) of (b, g1) \<Rightarrow> (Inr b, (fst s, g1)))"

definition g_pick :: "'a list \<Rightarrow> 'a gen" where
  "g_pick xs s = (case rng_pick xs (snd s) of (r, g1) \<Rightarrow> (r, (fst s, g1)))"

text \<open>
  The phrase builders (grammar/phrase-builders.ts) with the word provider and the
  morphology helpers behind them are the collaborators of the templates.  They are
  parameters of the model: any functions of the environment, their options and the
  generation state.
\<close>

record np_options =
  np_usePronoun :: "bool option"
  np_includePP :: "bool option"

record vp_options =
  vp_includeObject :: "bool option"
  vp_tense :: "tense option"

record clause_options =
  cl_tense :: "tense option"
  cl_usePronoun :: "bool option"

record phrase_builders =
  buildNP :: "gen_env \<Rightarrow> np_options \<Rightarrow> phrase_result gen"
  buildVP :: "gen_env \<Rightarrow> phrase_features option \<Rightarrow> vp_options \<Rightarrow> phrase_result gen"
  buildPP :: "gen_env \<Rightarrow> phrase_result gen"
  buildClause :: "gen_env \<Rightarrow> clause_options \<Rightarrow> phrase_result gen"
  buildSubordinateClause :: "gen_env \<Rightarrow> phrase_result gen"

definition selectSentenceType :: "generator_config \<Rightarrow> sentence_type gen" where
  "selectSentenceType config =
     gbind g_float (\<lambda>u.
       let weights = sentenceTypeWeights config;
           total = w_simpleDeclarative weights + w_compound weights + w_introAdverbial weights
                   + w_subordinate weights + w_interjection weights + w_question weights;
           rand = u * total;
           c1 = 0 + w_simpleDeclarative weights;
           c2 = c1 + w_compound weights;
           c3 = c2 + w_introAdverbial weights;
           c4 = c3 + w_subordinate weights;
           c5 = c4 + w_interjection weights
       in greturn (if rand < c1 then SimpleDeclarative
                   else if rand < c2 then Compound
                   else if rand < c3 then IntroAdverbial
                   else if rand < c4 then Subordinate
                   else if rand < c5 then Interjection
                   else Question))"

definition mk_sentence :: "sentence_type \<Rightarrow> string list \<Rightarrow> string \<Rightarrow> sentence_result" where
  "mk_sentence ty tokens punctuation =
     \<lparr>sr_text = formatSentence (joinTokens tokens) punctuation, sr_type = ty, sr_tokens = tokens\<rparr>"

definition buildSimpleDeclarative :: "phrase_builders \<Rightarrow> gen_env \<Rightarrow> sentence_result gen" where
  "buildSimpleDeclarative P env =
     gbind (g_pick [Present, Past]) (\<lambda>t.
     gbind (g_chance (3 / 10)) (\<lambda>usePronoun.
     gbind (buildClause P env \<lparr>cl_tense = Some t, cl_usePronoun = Some usePronoun\<rparr>) (\<lambda>clause.
     greturn (mk_sentence SimpleDeclarative (pr_tokens clause) ''.''))))"

definition buildCompound :: "phrase_builders \<Rightarrow> gen_env \<Rightarrow> sentence_result gen" where
  "buildCompound P env =
     gbind (g_pick [Present, Past]) (\<lambda>t.
     gbind (buildClause P env \<lparr>cl_tense = Some t, cl_usePronoun = None\<rparr>) (\<lambda>clause1.
     gbind (g_pick (coordinators (env_config env))) (\<lambda>conjunction.
     gbind (buildClause P env \<lparr>cl_tense = Some t, cl_usePronoun = None\<rparr>) (\<lambda>clause2.
     greturn (mk_sentence Compound
                (pr_tokens clause1 @ ['','', conjunction] @ pr_tokens clause2) ''.'')))))"

definition buildIntroAdverbial :: "phrase_builders \<Rightarrow> gen_env \<Rightarrow> sentence_result gen" where
  "buildIntroAdverbial P env =
     gbind (g_chance (6 / 10)) (\<lambda>useTransition.
     gbind (if useTransition
            then gbind (g_pick (transitions (env_config env))) (\<lambda>transition. greturn [transition])
            else gbind (buildPP P env) (\<lambda>pp. greturn (pr_tokens pp))) (\<lambda>intro.
     gbind (g_pick [Present, Past]) (\<lambda>t.
     gbind (buildClause P env \<lparr>cl_tense = Some t, cl_usePronoun = None\<rparr>) (\<lambda>clause.
     greturn (mk_sentence IntroAdverbial (intro @ ['',''] @ pr_tokens clause) ''.'')))))"

definition buildSubordinate :: "phrase_builders \<Rightarrow> gen_env \<Rightarrow> sentence_result gen" where
  "buildSubordinate P env =
     gbind (buildSubordinateClause P env) (\<lambda>subClause.
     gbind (g_pick [Present, Past]) (\<lambda>t.
     gbind (buildClause P env \<lparr>cl_tense = Some t, cl_usePronoun = None\<rparr>) (\<lambda>mainClause.
     gbind (g_chance (5 / 10)) (\<lambda>subFirst.
     greturn (mk_sentence Subordinate
                (if subFirst then pr_tokens subClause @ ['',''] @ pr_tokens mainClause
                 else pr_tokens mainClause @ pr_tokens subClause) ''.'')))))"

definition buildInterjection :: "phrase_builders \<Rightarrow> gen_env \<Rightarrow> sentence_result gen" where
  "buildInterjection P env =
     gbind (g_pick (interjections (env_config env))) (\<lambda>interjection.
     gbind (buildClause P env \<lparr>cl_tense = Some Present, cl_usePronoun = None\<rparr>) (\<lambda>clause.
     greturn (mk_sentence Interjection ([interjection, '',''] @ pr_tokens clause) ''.'')))"

text \<open>
  \<^verbatim>\<open>subject.features!.number === 'singular' && subject.features!.person === 3\<close>: reading a
  property of \<^verbatim>\<open>undefined\<close> throws.
\<close>

definition thirdSingular :: "phrase_features option \<Rightarrow> bool gen" where
  "thirdSingular f =
     (case f of
        None \<Rightarrow> gthrow (Error ''Cannot read properties of undefined'')
      | Some pf \<Rightarrow> greturn (pf_number pf = Singular \<and> pf_person pf = 3))"

definition buildQuestion :: "phrase_builders \<Rightarrow> gen_env \<Rightarrow> sentence_result gen" where
  "buildQuestion P env =
     gbind (g_chance (6 / 10)) (\<lambda>yesNo.
     gbind
       (if yesNo then
          gbind (g_chance (4 / 10)) (\<lambda>usePronoun.
          gbind (buildNP P env \<lparr>np_usePronoun = Some usePronoun, np_includePP = Some False\<rparr>) (\<lambda>subject.
          gbind (g_chance (3 / 10)) (\<lambda>isPast.
          gbind (if isPast then greturn ''did''
                 else gbind (thirdSingular (pr_features subject))
                        (\<lambda>b. greturn (if b then ''does'' else ''do''))) (\<lambda>doAux.
          gbind (buildVP P env (pr_features subject)
                   \<lparr>vp_includeObject = Some True, vp_tense = Some Present\<rparr>) (\<lambda>vp.
          greturn ([doAux] @ pr_tokens subject @ pr_tokens vp))))))
        else
          gbind (g_pick [''what'', ''how'', ''why'', ''when'', ''where'']) (\<lambda>whWord.
            if whWord = ''what'' \<or> whWord = ''how'' then
              gbind (g_chance (5 / 10)) (\<lambda>whatVP.
                if whatVP then
                  gbind (buildVP P env (Some \<lparr>pf_number = Singular, pf_person = 3\<rparr>)
                           \<lparr>vp_includeObject = Some True, vp_tense = None\<rparr>) (\<lambda>vp.
                  greturn ([whWord] @ pr_tokens vp))
                else
                  gbind (buildNP P env \<lparr>np_usePronoun = None, np_includePP = Some False\<rparr>) (\<lambda>subject.
                  gbind (thirdSingular (pr_features subject)) (\<lambda>b.
                  gbind (buildVP P env (pr_features subject)
                           \<lparr>vp_includeObject = Some False, vp_tense = None\<rparr>) (\<lambda>vp.
                  greturn ([whWord, if b then ''does'' else ''do''] @ pr_tokens subject @ pr_tokens vp)))))
            else
              gbind (buildNP P env \<lparr>np_usePronoun = None, np_includePP = Some False\<rparr>) (\<lambda>subject.
              gbind (thirdSingular (pr_features subject)) (\<lambda>b.
              gbind (buildVP P env (pr_features subject)
                       \<lparr>vp_includeObject = Some True, vp_tense = None\<rparr>) (\<lambda>vp.
              greturn ([whWord, if b then ''does'' else ''do''] @ pr_tokens subject @ pr_tokens vp))))))
       (\<lambda>tokens. greturn (mk_sentence Question tokens ''?'')))"

definition buildOfType :: "phrase_builders \<Rightarrow> gen_env \<Rightarrow> sentence_type \<Rightarrow> sentence_result gen" where
  "buildOfType P env sentenceType =
     (case sentenceType of
        SimpleDeclarative \<Rightarrow> buildSimpleDeclarative P env
      | Compound \<Rightarrow> buildCompound P env
      | IntroAdverbial \<Rightarrow> buildIntroAdverbial P env
      | Subordinate \<Rightarrow> buildSubordinate P env
      | Interjection \<Rightarrow> buildInterjection P env
      | Question \<Rightarrow> buildQuestion P env)"

definition buildSentence ::
    "phrase_builders \<Rightarrow> gen_env \<Rightarrow> sentence_type option \<Rightarrow> sentence_result gen" where
  "buildSentence P env ty =
     (case ty of
        Some t \<Rightarrow> buildOfType P env t
      | None \<Rightarrow> gbind (selectSentenceType (env_config env)) (buildOfType P env))"

section \<open>Text generator (generator/text-generator.ts)\<close>

text \<open>
  The state of a \<^verbatim>\<open>TextGenerator\<close>.  There is one configuration object: the rule engine,
  the phrase builders and the sentence templates are constructed with a reference to
  \<^verbatim>\<open>this.config\<close>, so every component reads the field \<open>tg_config\<close>.  Likewise there is
  one random source, \<open>tg_rng\<close>.
\<close>

record text_generator =
  tg_config :: generator_config
  tg_rng :: seedable_rng
  tg_store :: lexicon_store
  tg_currentLexicon :: "lexicon option"
  tg_enableTrace :: bool
  tg_currentArchetype :: string
  tg_currentSeed :: int

text \<open>
  The constructor, for the built-in random source.  \<open>config\<close> is the merged configuration
  (\<^verbatim>\<open>mergeConfig(options.config)\<close>); \<open>now1\<close> and \<open>now2\<close> are the two readings of
  \<^verbatim>\<open>Date.now()\<close>: the default seed of \<^verbatim>\<open>new SeedableRng()\<close> and the initial
  \<^verbatim>\<open>currentSeed\<close>.
\<close>

definition new_TextGenerator ::
    "generator_config \<Rightarrow> lexicon option \<Rightarrow> bool option \<Rightarrow> int \<Rightarrow> int \<Rightarrow> text_generator" where
  "new_TextGenerator config lx trace now1 now2 =
     \<lparr>tg_config = config,
      tg_rng = rng_reseed now2 (new_rng now1),
      tg_store = lx,
      tg_currentLexicon = lx,
      tg_enableTrace = (case trace of None \<Rightarrow> enableTrace config | Some b \<Rightarrow> b),
      tg_currentArchetype =
        (case lx of
           None \<Rightarrow> ''default''
         | Some l \<Rightarrow> (case opt_list (archetypes l) of [] \<Rightarrow> ''default'' | (name, a) # rest \<Rightarrow> name)),
      tg_currentSeed = now2\<rparr>"

definition setSeed :: "int \<Rightarrow> text_generator \<Rightarrow> text_generator" where
  "setSeed seed tg = tg\<lparr>tg_currentSeed := seed, tg_rng := rng_reseed seed (tg_rng tg)\<rparr>"

definition setLexicon :: "lexicon \<Rightarrow> text_generator \<Rightarrow> text_generator" where
  "setLexicon lx tg = tg\<lparr>tg_store := Some lx, tg_currentLexicon := Some lx\<rparr>"

definition setArchetype :: "string \<Rightarrow> text_generator \<Rightarrow> text_generator" where
  "setArchetype name tg = tg\<lparr>tg_currentArchetype := name\<rparr>"

definition getActiveConstraints :: "text_generator \<Rightarrow> constraint list" where
  "getActiveConstraints tg =
     (let defaults = getDefaultConstraints (tg_config tg) in
      if \<not> isLoaded (tg_store tg) then defaults
      else (case getMeta (tg_store tg) of
              None \<Rightarrow> defaults
            | Some meta \<Rightarrow> defaults))"

definition getActiveInvariants :: "text_generator \<Rightarrow> invariant list" where
  "getActiveInvariants tg =
     (let defaults = getDefaultInvariants in
      if \<not> isLoaded (tg_store tg) then defaults else defaults)"

definition createGenerationContext :: "string list option \<Rightarrow> text_generator \<Rightarrow> generation_context" where
  "createGenerationContext hints tg =
     (let ctx = createContext (tg_currentSeed tg) (tg_currentArchetype tg);
          ctx = foldl (\<lambda>c hint. addTag hint c) ctx (opt_list hints);
          ctx = (case getArchetype (tg_store tg) (tg_currentArchetype tg) of
                   None \<Rightarrow> ctx
                 | Some a \<Rightarrow> foldl (\<lambda>c t. addTag t c) ctx (opt_list (arch_tags a)))
      in ctx\<lparr>ctx_constraints := getActiveConstraints tg, ctx_invariants := getActiveInvariants tg\<rparr>)"

definition env_of :: "text_generator \<Rightarrow> gen_env" where
  "env_of tg = \<lparr>env_config = tg_config tg, env_store = tg_store tg\<rparr>"

text \<open>
  What \<^verbatim>\<open>generateSentenceWithRetry\<close> leaves behind: the sentence or the error thrown, the
  final value of its counter \<^verbatim>\<open>attempts\<close>, and the generator and context as mutated.
\<close>

record retry_outcome =
  ro_result :: "error + sentence_result"
  ro_attempts :: int
  ro_generator :: text_generator
  ro_context :: generation_context

text \<open>The degrade step: \<^verbatim>\<open>this.config.maxPPChain = Math.max(0, this.config.maxPPChain - 1)\<close>.\<close>

definition degrade :: "text_generator \<Rightarrow> text_generator" where
  "degrade tg = tg\<lparr>tg_config := (tg_config tg)\<lparr>maxPPChain := max 0 (maxPPChain (tg_config tg) - 1)\<rparr>\<rparr>"

text \<open>
  The \<^verbatim>\<open>while\<close> loop of \<^verbatim>\<open>generateSentenceWithRetry\<close> from the state
  \<^verbatim>\<open>(attempts, lastResult, lastError, type)\<close>, followed by the code after the loop.
\<close>

function retryLoop ::
    "phrase_builders \<Rightarrow> text_generator \<Rightarrow> generation_context \<Rightarrow> sentence_type option \<Rightarrow> int
      \<Rightarrow> sentence_result option \<Rightarrow> error option \<Rightarrow> retry_outcome" where
  "retryLoop P tg ctx ty attempts lastResult lastError =
     (if attempts < maxSentenceAttempts (tg_config tg) then
        (let attempts1 = attempts + 1;
             ctx1 = ctx\<lparr>retryCount := attempts1 - 1\<rparr>
         in case buildSentence P (env_of tg) ty (ctx1, tg_rng tg) of
              (Inr result, (ctx2, g2)) \<Rightarrow>
                (let tg2 = tg\<lparr>tg_rng := g2\<rparr>;
                     validation = validate (tg_config tg2) (ctx_constraints ctx2) (ctx_invariants ctx2)
                                    ctx2 (sr_text result) (sr_tokens result) ScSentence
                 in if valid validation then
                      \<lparr>ro_result = Inr result, ro_attempts = attempts1,
                       ro_generator = tg2, ro_context = ctx2\<rparr>
                    else if length (hardConstraintsFailed validation) = 0
                            \<and> length (invariantsFailed validation) = 0 then
                      \<lparr>ro_result = Inr result, ro_attempts = attempts1,
                       ro_generator = tg2, ro_context = ctx2\<rparr>
                    else
                      retryLoop P (if attempts1 > 5 then degrade tg2 else tg2) ctx2
                        (if attempts1 > 10 then Some SimpleDeclarative else ty)
                        attempts1 (Some result) lastError)
            | (Inl e, (ctx2, g2)) \<Rightarrow>
                retryLoop P (tg\<lparr>tg_rng := g2\<rparr>) ctx2 ty attempts1 lastResult (Some e))
      else
        (case lastResult of
           Some r \<Rightarrow> \<lparr>ro_result = Inr r, ro_attempts = attempts, ro_generator = tg, ro_context = ctx\<rparr>
         | None \<Rightarrow>
             if strictMode (tg_config tg) then
               \<lparr>ro_result = Inl (case lastError of
                                  Some e \<Rightarrow> e
                                | None \<Rightarrow> Error ''Failed to generate valid sentence''),
                ro_attempts = attempts, ro_generator = tg, ro_context = ctx\<rparr>
             else
               (case buildSimpleDeclarative P (env_of tg) (ctx, tg_rng tg) of
                  (r, (ctx2, g2)) \<Rightarrow>
                    \<lparr>ro_result = r, ro_attempts = attempts,
                     ro_generator = tg\<lparr>tg_rng := g2\<rparr>, ro_context = ctx2\<rparr>)))"
  by pat_completeness auto
termination
  by (relation "measure (\<lambda>(P, tg, ctx, ty, attempts, lastResult, lastError).
                           nat (maxSentenceAttempts (tg_config tg) - attempts))")
     (auto simp: degrade_def)

definition generateSentenceWithRetry ::
    "phrase_builders \<Rightarrow> text_generator \<Rightarrow> generation_context \<Rightarrow> sentence_type option
      \<Rightarrow> retry_outcome" where
  "generateSentenceWithRetry P tg ctx ty = retryLoop P tg ctx ty 0 None None"

text \<open>
  The output-transform pipeline is outside the generation engine.  \<open>X\<close> stands for
  \<^verbatim>\<open>applyOutputTransforms\<close>: a function of the generator's state (configuration, lexicon,
  archetype, seed, trace flag), the per-call override and the text, which returns the
  transformed text or throws.
\<close>

type_synonym transforms = "text_generator \<Rightarrow> string option \<Rightarrow> string \<Rightarrow> error + string"

record sentence_options =
  so_type :: "sentence_type option"
  so_hints :: "string list option"
  so_outputTransforms :: "string option"

record paragraph_options =
  po_sentences :: "int option"
  po_minSentences :: "int option"
  po_maxSentences :: "int option"
  po_hints :: "string list option"
  po_outputTransforms :: "string option"

record textblock_options =
  bo_paragraphs :: "int option"
  bo_minParagraphs :: "int option"
  bo_maxParagraphs :: "int option"
  bo_hints :: "string list option"
  bo_outputTransforms :: "string option"

text \<open>
  The public calls \<^verbatim>\<open>sentence\<close>, \<^verbatim>\<open>paragraph\<close> (here \<open>genParagraph\<close>) and \<^verbatim>\<open>textBlock\<close>
  return the text (with tracing enabled, the \<^verbatim>\<open>text\<close> field of the
  result) or the error thrown, and the generator as mutated.
\<close>

definition sentence ::
    "phrase_builders \<Rightarrow> transforms \<Rightarrow> sentence_options option \<Rightarrow> text_generator
      \<Rightarrow> (error + string) \<times> text_generator" where
  "sentence P X opts tg =
     (let ctx = createGenerationContext (case opts of None \<Rightarrow> None | Some opt \<Rightarrow> so_hints opt) tg;
          sentenceType = (case opts of None \<Rightarrow> None | Some opt \<Rightarrow> so_type opt);
          out = generateSentenceWithRetry P tg ctx sentenceType;
          tg1 = ro_generator out
      in case ro_result out of
           Inl e \<Rightarrow> (Inl e, tg1)
         | Inr result \<Rightarrow>
             (X tg1 (case opts of None \<Rightarrow> None | Some opt \<Rightarrow> so_outputTransforms opt) (sr_text result),
              tg1))"

text \<open>
  The sentence loop of \<^verbatim>\<open>paragraph\<close> and \<^verbatim>\<open>textBlock\<close>: \<open>n\<close> iterations remain, \<open>i\<close> is the
  loop index, \<open>acc\<close> the sentences pushed so far.
\<close>

fun sentenceLoop ::
    "phrase_builders \<Rightarrow> nat \<Rightarrow> int \<Rightarrow> text_generator \<Rightarrow> generation_context \<Rightarrow> sentence_result list
      \<Rightarrow> (error + sentence_result list) \<times> text_generator \<times> generation_context" where
  "sentenceLoop P 0 i tg ctx acc = (Inr acc, tg, ctx)"
| "sentenceLoop P (Suc n) i tg ctx acc =
     (let ctx1 = clearSentenceState (ctx\<lparr>sentenceIndex := i\<rparr>);
          out = generateSentenceWithRetry P tg ctx1 None
      in case ro_result out of
           Inl e \<Rightarrow> (Inl e, ro_generator out, ro_context out)
         | Inr result \<Rightarrow>
             sentenceLoop P n (i + 1) (ro_generator out) (ro_context out) (acc @ [result]))"

definition genParagraph ::
    "phrase_builders \<Rightarrow> transforms \<Rightarrow> paragraph_options option \<Rightarrow> text_generator
      \<Rightarrow> (error + string) \<times> text_generator" where
  "genParagraph P X opts tg =
     (let ctx = createGenerationContext (case opts of None \<Rightarrow> None | Some opt \<Rightarrow> po_hints opt) tg;
          fixed = (case opts of None \<Rightarrow> None | Some opt \<Rightarrow> po_sentences opt);
          minSentences =
            (case (case opts of None \<Rightarrow> None | Some opt \<Rightarrow> po_minSentences opt) of
               Some m \<Rightarrow> m
             | None \<Rightarrow> (case fixed of Some k \<Rightarrow> k | None \<Rightarrow> minSentencesPerParagraph (tg_config tg)));
          maxSentences =
            (case (case opts of None \<Rightarrow> None | Some opt \<Rightarrow> po_maxSentences opt) of
               Some m \<Rightarrow> m
             | None \<Rightarrow> (case fixed of Some k \<Rightarrow> k | None \<Rightarrow> maxSentencesPerParagraph (tg_config tg)));
          (numSentences, tg1) =
            (case fixed of
               Some k \<Rightarrow> (k, tg)
             | None \<Rightarrow> (case rng_int minSentences maxSentences (tg_rng tg) of
                          (k, g1) \<Rightarrow> (k, tg\<lparr>tg_rng := g1\<rparr>)))
      in case sentenceLoop P (nat numSentences) 0 tg1 ctx [] of
           (Inl e, tg2, ctx2) \<Rightarrow> (Inl e, tg2)
         | (Inr sentences, tg2, ctx2) \<Rightarrow>
             (X tg2 (case opts of None \<Rightarrow> None | Some opt \<Rightarrow> po_outputTransforms opt)
                (formatParagraph (map sr_text sentences)),
              tg2))"

fun paragraphLoop ::
    "phrase_builders \<Rightarrow> string list option \<Rightarrow> nat \<Rightarrow> int \<Rightarrow> text_generator \<Rightarrow> string list
      \<Rightarrow> (error + string list) \<times> text_generator" where
  "paragraphLoop P hints 0 i tg acc = (Inr acc, tg)"
| "paragraphLoop P hints (Suc n) i tg acc =
     (let ctx = (createGenerationContext hints tg)\<lparr>paragraphIndex := i\<rparr>;
          (numSentences, g1) = rng_int (minSentencesPerParagraph (tg_config tg))
                                 (maxSentencesPerParagraph (tg_config tg)) (tg_rng tg)
      in case sentenceLoop P (nat numSentences) 0 (tg\<lparr>tg_rng := g1\<rparr>) ctx [] of
           (Inl e, tg2, ctx2) \<Rightarrow> (Inl e, tg2)
         | (Inr sentences, tg2, ctx2) \<Rightarrow>
             paragraphLoop P hints n (i + 1) tg2 (acc @ [formatParagraph (map sr_text sentences)]))"

definition textBlock ::
    "phrase_builders \<Rightarrow> transforms \<Rightarrow> textblock_options option \<Rightarrow> text_generator
      \<Rightarrow> (error + string) \<times> text_generator" where
  "textBlock P X opts tg =
     (let fixed = (case opts of None \<Rightarrow> None | Some opt \<Rightarrow> bo_paragraphs opt);
          minParagraphs =
            (case (case opts of None \<Rightarrow> None | Some opt \<Rightarrow> bo_minParagraphs opt) of
               Some m \<Rightarrow> m
             | None \<Rightarrow> (case fixed of Some k \<Rightarrow> k | None \<Rightarrow> 1));
          maxParagraphs =
            (case (case opts of None \<Rightarrow> None | Some opt \<Rightarrow> bo_maxParagraphs opt) of
               Some m \<Rightarrow> m
             | None \<Rightarrow> (case fixed of Some k \<Rightarrow> k | None \<Rightarrow> 3));
          (numParagraphs, tg1) =
            (case fixed of
               Some k \<Rightarrow> (k, tg)
             | None \<Rightarrow> (case rng_int minParagraphs maxParagraphs (tg_rng tg) of
                          (k, g1) \<Rightarrow> (k, tg\<lparr>tg_rng := g1\<rparr>)))
      in case paragraphLoop P (case opts of None \<Rightarrow> None | Some opt \<Rightarrow> bo_hints opt)
                (nat numParagraphs) 0 tg1 [] of
           (Inl e, tg2) \<Rightarrow> (Inl e, tg2)
         | (Inr paragraphs, tg2) \<Rightarrow>
             (X tg2 (case opts of None \<Rightarrow> None | Some opt \<Rightarrow> bo_outputTransforms opt)
                (formatTextBlock paragraphs),
              tg2))"

text \<open>A session: a sequence of public calls on one generator, each with its output.\<close>

datatype gen_call =
  CallSentence "sentence_options option"
| CallParagraph "paragraph_options option"
| CallTextBlock "textblock_options option"

fun run_call ::
    "phrase_builders \<Rightarrow> transforms \<Rightarrow> gen_call \<Rightarrow> text_generator \<Rightarrow> (error + string) \<times> text_generator" where
  "run_call P X (CallSentence opts) tg = sentence P X opts tg"
| "run_call P X (CallParagraph opts) tg = genParagraph P X opts tg"
| "run_call P X (CallTextBlock opts) tg = textBlock P X opts tg"

fun run_calls ::
    "phrase_builders \<Rightarrow> transforms \<Rightarrow> gen_call list \<Rightarrow> text_generator \<Rightarrow> (error + string) list" where
  "run_calls P X [] tg = []"
| "run_calls P X (c # cs) tg = (case run_call P X c tg of (out, tg1) \<Rightarrow> out # run_calls P X cs tg1)"

section \<open>Conditions on a run of the retry loop\<close>

text \<open>
  A constraint list holds an unsatisfiable hard constraint: one at sentence scope (the
  scope \<^verbatim>\<open>generateSentenceWithRetry\<close> validates at), classified hard by \<^verbatim>\<open>validate\<close>, that
  no token sequence passes.
\<close>

definition unsatisfiableHard :: "constraint list \<Rightarrow> bool" where
  "unsatisfiableHard cs =
     (\<exists>c \<in> set cs. c_scope c = ScSentence \<and> levelOf cs (c_id c) = Some Hard
        \<and> (\<forall>config ctx tokens. \<not> r_passed (evaluateConstraint config c ctx tokens)))"

text \<open>
  The phrase builders leave the context's constraint list alone.  (In the source, the
  phrase builders and the word provider behind them write only the history, the biases
  and the relation hints of the context.)
\<close>

definition gkeeps :: "'a gen \<Rightarrow> bool" where
  "gkeeps m = (\<forall>s. ctx_constraints (fst (snd (m s))) = ctx_constraints (fst s))"

definition keeps_constraints :: "phrase_builders \<Rightarrow> bool" where
  "keeps_constraints P =
     (\<forall>env. (\<forall>opts. gkeeps (buildNP P env opts)) \<and> (\<forall>f opts. gkeeps (buildVP P env f opts))
        \<and> gkeeps (buildPP P env) \<and> (\<forall>opts. gkeeps (buildClause P env opts))
        \<and> gkeeps (buildSubordinateClause P env))"

text \<open>
  The environments a retry loop started on \<open>tg\<close> can hand to the grammar: the loop changes
  nothing of the configuration but \<^verbatim>\<open>maxPPChain\<close>.
\<close>

definition loop_env :: "text_generator \<Rightarrow> int \<Rightarrow> gen_env" where
  "loop_env tg m = \<lparr>env_config = (tg_config tg)\<lparr>maxPPChain := m\<rparr>, env_store = tg_store tg\<rparr>"

text \<open>Every build attempt produces a candidate; every build attempt throws.\<close>

definition always_builds :: "phrase_builders \<Rightarrow> text_generator \<Rightarrow> bool" where
  "always_builds P tg = (\<forall>m ty s. \<exists>r. fst (buildSentence P (loop_env tg m) ty s) = Inr r)"

definition never_builds :: "phrase_builders \<Rightarrow> text_generator \<Rightarrow> bool" where
  "never_builds P tg = (\<forall>m ty s. \<exists>e. fst (buildSentence P (loop_env tg m) ty s) = Inl e)"

text \<open>
  A grammar computation that always returns, with a result that satisfies \<open>Q\<close>; one that
  always throws; and one whose results, when it returns, satisfy \<open>Q\<close>.
\<close>

definition gsucc :: "'a gen \<Rightarrow> ('a \<Rightarrow> bool) \<Rightarrow> bool" where
  "gsucc m Q = (\<forall>s. \<exists>r s'. m s = (Inr r, s') \<and> Q r)"

definition gfails :: "'a gen \<Rightarrow> bool" where
  "gfails m = (\<forall>s. \<exists>e. fst (m s) = Inl e)"

definition gpost :: "'a gen \<Rightarrow> ('a \<Rightarrow> bool) \<Rightarrow> bool" where
  "gpost m Q = (\<forall>s r s'. m s = (Inr r, s') \<longrightarrow> Q r)"

text \<open>
  Two generator states that differ at most in the random source and in \<^verbatim>\<open>maxPPChain\<close>,
  the latter unchanged or lowered to a value between 0 and one less than before.
\<close>

definition same_but_chain :: "text_generator \<Rightarrow> text_generator \<Rightarrow> bool" where
  "same_but_chain tg tg' = (\<exists>g m. tg' = tg\<lparr>tg_rng := g, tg_config := (tg_config tg)\<lparr>maxPPChain := m\<rparr>\<rparr>
      \<and> (m = maxPPChain (tg_config tg) \<or> (0 \<le> m \<and> m \<le> max 0 (maxPPChain (tg_config tg) - 1))))"

text \<open>
  A vocabulary of words: the token list of a clause, of a prepositional phrase and of a
  subordinate clause is not empty and starts with a token that starts with a letter, and
  so do the transitions and interjections of the configuration.
\<close>

definition headed :: "string list \<Rightarrow> bool" where
  "headed tokens = (tokens \<noteq> [] \<and> hd tokens \<noteq> [] \<and> is_letter (hd (hd tokens)))"

definition letter_headed :: "phrase_builders \<Rightarrow> bool" where
  "letter_headed P =
     (\<forall>env. (\<forall>opts. gpost (buildClause P env opts) (\<lambda>p. headed (pr_tokens p)))
        \<and> gpost (buildPP P env) (\<lambda>p. headed (pr_tokens p))
        \<and> gpost (buildSubordinateClause P env) (\<lambda>p. headed (pr_tokens p)))"

definition headed_words :: "generator_config \<Rightarrow> bool" where
  "headed_words config = list_all (\<lambda>w. headed [w]) (transitions config @ interjections config)"

text \<open>The three properties of a generated text.\<close>

definition wellFormedText :: "string \<Rightarrow> bool" where
  "wellFormedText text =
     (startsWithCapital text \<and> endsInTerminalPunctuation text \<and> hasNoDoubleSpaces text)"

section \<open>Example data\<close>

text \<open>
  A small lexicon in the shape of the one in the lexicon guide: business nouns and verbs,
  an archetype that names a \<^verbatim>\<open>termSetBias\<close> distribution, and correlations at sentence
  and paragraph scope.
\<close>

definition mk_term :: "string \<Rightarrow> lex_term" where
  "mk_term v = \<lparr>term_value = v, term_weight = None, term_features = None, term_tags = None\<rparr>"

definition no_condition :: correlation_condition where
  "no_condition = \<lparr>chosenTermSet = None, chosenTag = None, chosenValue = None, usedPattern = None\<rparr>"

definition ex_lexicon :: lexicon where
  "ex_lexicon =
     \<lparr>lex_id = ''lexicon.business'', lex_version = Some ''1.0.0'', lex_language = ''en'',
      termSets = Some
        [(''noun.business'', \<lparr>ts_pos = Noun, ts_tags = Some [''domain:business''],
            ts_terms = [mk_term ''strategy'', mk_term ''stakeholder'']\<rparr>),
         (''verb.business'', \<lparr>ts_pos = Verb, ts_tags = Some [''domain:business''],
            ts_terms = [mk_term ''leverage'', mk_term ''align'']\<rparr>),
         (''noun.plain'', \<lparr>ts_pos = Noun, ts_tags = None,
            ts_terms = [mk_term ''idea'']\<rparr>)],
      patterns = Some
        [(''np.simple'', \<lparr>pat_type = PtNounPhrase, pat_slots = [''DET'', ''NOUN''],
            pat_constraints = None, pat_weight = None, pat_tags = None\<rparr>)],
      distributions = Some
        [(''termSetBias.domain:business'',
            [\<lparr>de_key = ''noun.business'', de_weight = 10\<rparr>,
             \<lparr>de_key = ''verb.business'', de_weight = 8\<rparr>])],
      correlations = Some
        [\<lparr>corr_when = no_condition\<lparr>chosenTermSet := Some ''noun.business''\<rparr>,
          thenBoost = [\<lparr>boost_termSet = Some ''verb.business'', boost_pattern = None, weightDelta = 5\<rparr>,
                       \<lparr>boost_termSet = None, boost_pattern = Some ''np.simple'', weightDelta = 3\<rparr>],
          corr_scope = ScSentence\<rparr>,
         \<lparr>corr_when = no_condition\<lparr>chosenValue := Some ''idea''\<rparr>,
          thenBoost = [\<lparr>boost_termSet = Some ''noun.plain'', boost_pattern = None, weightDelta = 2\<rparr>],
          corr_scope = ScParagraph\<rparr>],
      lex_constraints = Some
        [\<lparr>c_id = ''c.noRepeatNoun'', c_level = Hard, c_scope = ScSentence, c_type = NoRepeat,
          c_target = ''pos:noun'', c_value = None\<rparr>],
      lex_invariants = Some
        [\<lparr>inv_id = ''inv.custom'', inv_type = CustomInvariant, inv_scope = ScSentence\<rparr>],
      archetypes = Some
        [(''corporate'', \<lparr>arch_tags = Some [''domain:business''],
            arch_distributions = Some \<lparr>ad_sentenceTypes = None,
                                        ad_termSetBias = Some ''termSetBias.domain:business''\<rparr>,
            arch_overrides = None, arch_outputTransforms = None\<rparr>),
         (''plain'', \<lparr>arch_tags = None, arch_distributions = None,
            arch_overrides = None, arch_outputTransforms = None\<rparr>)],
      relations = None,
      lex_outputTransforms = None\<rparr>"

text \<open>The choice event \<^verbatim>\<open>WordProvider.getWord\<close> hands to \<^verbatim>\<open>applyCorrelations\<close> for a sampled item.\<close>

definition term_event :: "lexical_item \<Rightarrow> choice_event" where
  "term_event it =
     \<lparr>ev_type = ChTerm, ev_item = ItemTerm it, ev_termSetId = li_termSetId it,
      ev_patternId = None, ev_scope = ScToken\<rparr>"

definition ex_noun :: lexical_item where
  "ex_noun = \<lparr>li_value = ''strategy'', li_pos = Noun, li_termSetId = Some ''noun.business'',
              li_features = None, li_tags = Some [''domain:business'']\<rparr>"

definition ex_idea :: lexical_item where
  "ex_idea = \<lparr>li_value = ''idea'', li_pos = Noun, li_termSetId = Some ''noun.plain'',
              li_features = None, li_tags = None\<rparr>"

text \<open>
  Fixed-phrase builders, to run the templates and the retry loop on concrete inputs: each
  returns the same phrase and leaves the state as it found it.  The second set throws, as
  the word provider does when the lexicon has no match and fallback is disallowed.
\<close>

definition ex_phrase :: "string list \<Rightarrow> phrase_result gen" where
  "ex_phrase ts s = (Inr \<lparr>pr_tokens = ts, pr_features = Some \<lparr>pf_number = Singular, pf_person = 3\<rparr>\<rparr>, s)"

definition ex_builders :: phrase_builders where
  "ex_builders =
     \<lparr>buildNP = (\<lambda>env opts. ex_phrase [''the'', ''team'']),
      buildVP = (\<lambda>env f opts. ex_phrase [''helps'', ''the'', ''client'']),
      buildPP = (\<lambda>env. ex_phrase [''in'', ''the'', ''plan'']),
      buildClause = (\<lambda>env opts. ex_phrase [''the'', ''team'', ''helps'', ''the'', ''client'']),
      buildSubordinateClause = (\<lambda>env. ex_phrase [''because'', ''the'', ''plan'', ''works''])\<rparr>"

definition ex_failing_builders :: phrase_builders where
  "ex_failing_builders =
     \<lparr>buildNP = (\<lambda>env opts. gthrow (Error ''No term found for POS: noun'')),
      buildVP = (\<lambda>env f opts. gthrow (Error ''No term found for POS: verb'')),
      buildPP = (\<lambda>env. gthrow (Error ''No term found for POS: prep'')),
      buildClause = (\<lambda>env opts. gthrow (Error ''No term found for POS: noun'')),
      buildSubordinateClause = (\<lambda>env. gthrow (Error ''No term found for POS: noun''))\<rparr>"

text \<open>A hard sentence-scope constraint that no sentence meets: at most \<open>-1\<close> words.\<close>

definition ex_impossible :: constraint where
  "ex_impossible =
     \<lparr>c_id = ''c.impossible'', c_level = Hard, c_scope = ScSentence, c_type = MaxCount,
      c_target = ''words'', c_value = Some (- 1)\<rparr>"

definition ex_context :: generation_context where
  "ex_context = (createContext 42 ''default'')\<lparr>ctx_constraints := [ex_impossible]\<rparr>"

text \<open>A generator with the default configuration, an attempt budget and a strictness flag.\<close>

definition ex_generator :: "int \<Rightarrow> bool \<Rightarrow> text_generator" where
  "ex_generator budget strict =
     setSeed 42 (new_TextGenerator (DEFAULT_CONFIG\<lparr>maxSentenceAttempts := budget, strictMode := strict\<rparr>)
                   None None 1700000000000 1700000000001)"

text \<open>No output transforms: the pipeline returns the text it is given.\<close>

definition no_transforms :: transforms where
  "no_transforms tg override text = Inr text"

section \<open>Properties of the random source\<close>

lemma weighted_walk_Some:
  "weighted_walk r xs = Some x \<Longrightarrow> \<exists>i \<in> set xs. item i = x"
  by (induction xs arbitrary: r) (auto split: if_splits)

lemma weighted_walk_Some_pos:
  "weighted_walk r (filter (\<lambda>i. weight i > 0) items) = Some x \<Longrightarrow> \<exists>i \<in> set items. item i = x \<and> 0 < weight i"
  using weighted_walk_Some[of r "filter (\<lambda>i. weight i > 0) items" x] by auto

lemma last_filter_pos:
  "filter (\<lambda>i. weight i > 0) items \<noteq> [] \<Longrightarrow> last (filter (\<lambda>i. weight i > (0::real)) items) \<in> set items \<and> 0 < weight (last (filter (\<lambda>i. weight i > 0) items))"
  using last_in_set[of "filter (\<lambda>i. weight i > 0) items"] by auto

lemma draw_Inr:
  "weightedPick_draw w items = Inr y \<Longrightarrow> \<exists>i \<in> set items. item i = y \<and> 0 < weight i"
  unfolding weightedPick_draw_def Let_def
  using weighted_walk_Some_pos[of _ items y] last_filter_pos[of items]
  by (auto split: if_splits option.splits)

lemma draw_none:
  "\<forall>i \<in> set items. weight i \<le> 0 \<Longrightarrow> \<exists>e. weightedPick_draw w items = Inl e"
  by (auto simp: weightedPick_draw_def Let_def filter_empty_conv not_less)

lemma draw_fallback:
  "(\<exists>i \<in> set items. 0 < weight i) \<Longrightarrow>
        weighted_walk (u * foldl (\<lambda>sum i. sum + weight i) 0 (filter (\<lambda>i. weight i > 0) items))
          (filter (\<lambda>i. weight i > 0) items) = None
        \<Longrightarrow> weightedPick_draw u items = Inr (item (last (filter (\<lambda>i. weight i > 0) items)))"
  by (auto simp: weightedPick_draw_def Let_def filter_empty_conv)

lemma pick_Inr: "fst (weightedPick items g) = Inr x \<Longrightarrow> (\<exists>i \<in> set items. item i = x \<and> 0 < weight i)"
  unfolding weightedPick_def using draw_Inr[of _ items x]
  by (auto split: if_splits prod.splits)

lemma pick_none: "(\<forall>i \<in> set items. weight i \<le> 0) \<Longrightarrow> (\<exists>e. weightedPick items g = (Inl e, g))"
  using draw_none[of items 0]
  by (auto simp: weightedPick_def filter_empty_conv not_less)

text \<open>
  C7.  \<^verbatim>\<open>weightedPick\<close> only ever returns the item of an entry with positive weight;
  it throws on every list without a positive weight, the empty list included; and when
  the subtraction walk runs off the end of the positive entries, the last of them is
  returned.  The first three conjuncts hold for every value \<open>u\<close> of the draw, so they do
  not depend on how the draw or the total were rounded.
\<close>

theorem weightedPick_correct:
  "(weightedPick_draw u items = Inr x \<longrightarrow> (\<exists>i \<in> set items. item i = x \<and> 0 < weight i))
   \<and> ((\<forall>i \<in> set items. weight i \<le> 0) \<longrightarrow> (\<exists>e. weightedPick_draw u items = Inl e))
   \<and> ((\<exists>i \<in> set items. 0 < weight i) \<and>
        weighted_walk (u * foldl (\<lambda>sum i. sum + weight i) 0 (filter (\<lambda>i. weight i > 0) items))
          (filter (\<lambda>i. weight i > 0) items) = None
        \<longrightarrow> weightedPick_draw u items = Inr (item (last (filter (\<lambda>i. weight i > 0) items))))
   \<and> (fst (weightedPick items g) = Inr x \<longrightarrow> (\<exists>i \<in> set items. item i = x \<and> 0 < weight i))
   \<and> ((\<forall>i \<in> set items. weight i \<le> 0) \<longrightarrow> (\<exists>e. weightedPick items g = (Inl e, g)))"
  using draw_Inr[of u items x] draw_none[of items u] draw_fallback[of items u] pick_Inr[of items g x] pick_none[of items g]
  by blast


theorem weightedPick_correct_witness:
  "weightedPick_draw (1/2) [\<lparr>item = ''a'', weight = 0\<rparr>, \<lparr>item = ''b'', weight = 3\<rparr>, \<lparr>item = ''c'', weight = 1\<rparr>] = Inr ''b''
   \<and> (\<exists>i \<in> set [\<lparr>item = ''a'', weight = 0\<rparr>, \<lparr>item = ''b'', weight = 3\<rparr>, \<lparr>item = ''c'', weight = 1\<rparr>]. item i = ''b'' \<and> 0 < weight i)
   \<and> (\<exists>e. weightedPick_draw (1/2) [\<lparr>item = ''a'', weight = 0\<rparr>, \<lparr>item = ''b'', weight = - 2\<rparr>] = Inl e)
   \<and> (\<exists>e. weightedPick_draw (1/2) ([] :: string weighted_item list) = Inl e)
   \<and> weighted_walk (2 * 4) [\<lparr>item = ''b'', weight = 3\<rparr>, \<lparr>item = ''c'', weight = 1\<rparr>] = None
   \<and> weightedPick_draw 2 [\<lparr>item = ''a'', weight = 0\<rparr>, \<lparr>item = ''b'', weight = 3\<rparr>, \<lparr>item = ''c'', weight = 1\<rparr>] = Inr ''c''
   \<and> fst (weightedPick [\<lparr>item = ''a'', weight = 0\<rparr>, \<lparr>item = ''b'', weight = 3\<rparr>, \<lparr>item = ''c'', weight = 1\<rparr>] (new_rng 42)) = Inr ''b''
   \<and> (\<exists>e. weightedPick [\<lparr>item = ''a'', weight = 0\<rparr>, \<lparr>item = ''b'', weight = - 2\<rparr>] (new_rng 42) = (Inl e, new_rng 42))"
  using weightedPick_correct [of "1/2" "[\<lparr>item = ''a'', weight = 0\<rparr>, \<lparr>item = ''b'', weight = 3\<rparr>, \<lparr>item = ''c'', weight = 1\<rparr>]" "''b''" "new_rng 42"]
    weightedPick_correct [of "1/2" "[\<lparr>item = ''a'', weight = 0\<rparr>, \<lparr>item = ''b'', weight = - 2\<rparr>]" "''b''" "new_rng 42"]
    weightedPick_correct [of "1/2" "[] :: string weighted_item list" "''b''" "new_rng 42"]
    weightedPick_correct [of 2 "[\<lparr>item = ''a'', weight = 0\<rparr>, \<lparr>item = ''b'', weight = 3\<rparr>, \<lparr>item = ''c'', weight = 1\<rparr>]" "''c''" "new_rng 42"]
  by (simp add: weightedPick_draw_def weightedPick_def rng_float_def mulberry32_def new_rng_def Let_def)

section \<open>Properties of term-set sampling and correlations\<close>

lemma termSetWeight_closed:
  "termSetWeight store ctx ident =
     max 0 ((case archetypeDistributionWeight store ctx ident of None \<Rightarrow> 1 | Some w \<Rightarrow> w)
            + (case biases ctx ident of None \<Rightarrow> 0 | Some b \<Rightarrow> b))"
  by (simp add: termSetWeight_def archetypeDistributionWeight_def Let_def split: option.splits)

text \<open>
  Only a term set whose clamped weight is positive is ever sampled, and the weight that
  decides it is \<^const>\<open>termSetWeight\<close>.
\<close>

lemma sampleTerm_positive:
  assumes "sampleTerm store q ctx g = (Inr (Some it), g')"
  shows "\<exists>ident s. li_termSetId it = Some ident \<and> (ident, s) \<in> set (findMatchingTermSets store q ctx)
        \<and> 0 < termSetWeight store ctx ident"
proof -
  let ?cands = "findMatchingTermSets store q ctx"
  let ?ws = "filter (\<lambda>w. weight w > 0)
               (map (\<lambda>(ident, s). \<lparr>item = (ident, s), weight = termSetWeight store ctx ident\<rparr>) ?cands)"
  from assms obtain ident s g1
    where p: "weightedPick ?ws g = (Inr (ident, s), g1)" and t: "li_termSetId it = Some ident"
    by (auto simp: sampleTerm_def Let_def split: option.splits if_splits prod.splits sum.splits)
  from p have "fst (weightedPick ?ws g) = Inr (ident, s)" by simp
  from pick_Inr [OF this] obtain i where "i \<in> set ?ws" "item i = (ident, s)" "0 < weight i" by blast
  then have "(ident, s) \<in> set ?cands \<and> 0 < termSetWeight store ctx ident" by auto
  with t show ?thesis by blast
qed

lemma ex_weight_corporate:
  "archetypeDistributionWeight (Some ex_lexicon) (createContext 42 ''corporate'') ''noun.business'' = Some 10"
  by (simp add: archetypeDistributionWeight_def getArchetype_def getDistribution_def ex_lexicon_def
      createContext_def)

lemma ex_weight_plain:
  "archetypeDistributionWeight (Some ex_lexicon) (createContext 42 ''plain'') ''noun.business'' = None"
  by (simp add: archetypeDistributionWeight_def getArchetype_def getDistribution_def ex_lexicon_def
      createContext_def)

text \<open>
  C4, as the code has it.  The weight of a candidate term set is the context bias for the
  set id added to a base and clamped below at 0, where the base is the weight the active
  archetype's \<^verbatim>\<open>termSetBias\<close> distribution gives the set id when it has an entry for it
  (\<^verbatim>\<open>weight *= entry.weight\<close>, starting from 1), and 1 otherwise.
\<close>

theorem termSetWeight_formula:
  "(archetypeDistributionWeight store ctx ident = Some w \<longrightarrow>
      termSetWeight store ctx ident = max 0 (w + (case biases ctx ident of None \<Rightarrow> 0 | Some b \<Rightarrow> b)))
   \<and> (archetypeDistributionWeight store ctx ident = None \<longrightarrow>
      termSetWeight store ctx ident = max 0 (1 + (case biases ctx ident of None \<Rightarrow> 0 | Some b \<Rightarrow> b)))"
  by (simp add: termSetWeight_closed)

theorem termSetWeight_formula_witness:
  "archetypeDistributionWeight (Some ex_lexicon) (createContext 42 ''corporate'') ''noun.business'' = Some 10
   \<and> termSetWeight (Some ex_lexicon) (createContext 42 ''corporate'') ''noun.business'' = 10
   \<and> archetypeDistributionWeight (Some ex_lexicon) (createContext 42 ''plain'') ''noun.business'' = None
   \<and> termSetWeight (Some ex_lexicon) (createContext 42 ''plain'') ''noun.business'' = 1"
  using termSetWeight_formula [of "Some ex_lexicon" "createContext 42 ''corporate''" "''noun.business''" 10]
    termSetWeight_formula [of "Some ex_lexicon" "createContext 42 ''plain''" "''noun.business''" 10]
    ex_weight_corporate ex_weight_plain
  by (simp add: createContext_def)

text \<open>
  C4, as the specification words it, fails: with a distribution weight of 10 and no bias
  the code's weight is 10, where \<open>1 + 10 + 0\<close> would be 11.
\<close>

theorem termSetWeight_not_additive:
  "termSetWeight (Some ex_lexicon) (createContext 42 ''corporate'') ''noun.business'' = 10
   \<and> spec_termSetWeight (Some ex_lexicon) (createContext 42 ''corporate'') ''noun.business'' = 11
   \<and> termSetWeight (Some ex_lexicon) (createContext 42 ''corporate'') ''noun.business''
       \<noteq> spec_termSetWeight (Some ex_lexicon) (createContext 42 ''corporate'') ''noun.business''"
  using ex_weight_corporate
  by (simp add: termSetWeight_closed spec_termSetWeight_def createContext_def)

text \<open>
  One boost of a matching correlation.  A term-set target is added under the
  scope-prefixed key and under the bare term-set id; a pattern target is added under the
  scope-prefixed key only, and the key \<^verbatim>\<open>pattern:<id>\<close> that \<^verbatim>\<open>samplePattern\<close> reads is
  left as it was.
\<close>

lemma applyBoost_termSet:
  "truthy (boost_termSet boost) \<Longrightarrow> \<not> truthy (boost_pattern boost) \<Longrightarrow>
     applyBoost sc boost b (scope_name sc @ '':'' @ the (boost_termSet boost))
       = Some ((case b (scope_name sc @ '':'' @ the (boost_termSet boost)) of None \<Rightarrow> 0 | Some v \<Rightarrow> v)
               + weightDelta boost)
     \<and> applyBoost sc boost b (the (boost_termSet boost))
       = Some ((case b (the (boost_termSet boost)) of None \<Rightarrow> 0 | Some v \<Rightarrow> v) + weightDelta boost)"
  by (auto simp: applyBoost_def Let_def)

lemma applyBoost_pattern:
  "\<not> truthy (boost_termSet boost) \<Longrightarrow> truthy (boost_pattern boost) \<Longrightarrow>
     applyBoost sc boost b (scope_name sc @ '':pattern:'' @ the (boost_pattern boost))
       = Some ((case b (scope_name sc @ '':pattern:'' @ the (boost_pattern boost)) of None \<Rightarrow> 0 | Some v \<Rightarrow> v)
               + weightDelta boost)
     \<and> applyBoost sc boost b (''pattern:'' @ the (boost_pattern boost))
       = b (''pattern:'' @ the (boost_pattern boost))"
  by (cases sc) (auto simp: applyBoost_def Let_def)

text \<open>
  C5 at a concrete correlation: choosing a term of \<^verbatim>\<open>noun.business\<close> fires a
  sentence-scoped rule with a term-set boost of 5 and a pattern boost of 3.  The term-set
  boost is stored under \<^verbatim>\<open>sentence:verb.business\<close> and \<^verbatim>\<open>verb.business\<close>; the pattern
  boost is stored under \<^verbatim>\<open>sentence:pattern:np.simple\<close> only, no bare key is written, and
  the weight \<^verbatim>\<open>samplePattern\<close> computes for the pattern is unchanged.
\<close>

theorem applyCorrelations_pattern_boost_one_key:
  "biases (applyCorrelations (Some ex_lexicon) (term_event ex_noun) (createContext 42 ''plain''))
      ''sentence:verb.business'' = Some 5
   \<and> biases (applyCorrelations (Some ex_lexicon) (term_event ex_noun) (createContext 42 ''plain''))
      ''verb.business'' = Some 5
   \<and> biases (applyCorrelations (Some ex_lexicon) (term_event ex_noun) (createContext 42 ''plain''))
      ''sentence:pattern:np.simple'' = Some 3
   \<and> biases (applyCorrelations (Some ex_lexicon) (term_event ex_noun) (createContext 42 ''plain''))
      ''pattern:np.simple'' = None
   \<and> biases (applyCorrelations (Some ex_lexicon) (term_event ex_noun) (createContext 42 ''plain''))
      ''np.simple'' = None
   \<and> patternWeight (applyCorrelations (Some ex_lexicon) (term_event ex_noun) (createContext 42 ''plain''))
        ''np.simple''
        \<lparr>pat_type = PtNounPhrase, pat_slots = [''DET'', ''NOUN''], pat_constraints = None,
         pat_weight = None, pat_tags = None\<rparr> = 1"
  by (simp add: applyCorrelations_def ex_lexicon_def term_event_def ex_noun_def createContext_def
      matchesCorrelationCondition_def no_condition_def applyBoost_def patternWeight_def Let_def)

text \<open>
  The sentence-boundary clear deletes the keys that start with \<^verbatim>\<open>sentence:\<close> and nothing
  else, and \<^verbatim>\<open>sampleTerm\<close> reads the bare term-set id: the clear changes no sampling weight.
\<close>

lemma clearSentenceState_bare:
  "\<not> prefix ''sentence:'' key \<Longrightarrow> biases (clearSentenceState ctx) key = biases ctx key"
  by (simp add: clearSentenceState_def)

lemma clearSentenceState_weight:
  "\<not> prefix ''sentence:'' ident \<Longrightarrow>
     termSetWeight store (clearSentenceState ctx) ident = termSetWeight store ctx ident"
  by (simp add: termSetWeight_def clearSentenceState_def)

text \<open>
  C2 at a concrete paragraph.  In a fresh context \<^verbatim>\<open>verb.business\<close> has weight 1.  A noun
  of \<^verbatim>\<open>noun.business\<close> chosen in one sentence fires the sentence-scoped boost of 5 and the
  weight is 6.  At the next sentence boundary \<^verbatim>\<open>clearSentenceState\<close> removes the key
  \<^verbatim>\<open>sentence:verb.business\<close>, and the weight of \<^verbatim>\<open>verb.business\<close> in the next sentence is
  still 6.  The paragraph-scoped boost of 2 for \<^verbatim>\<open>noun.plain\<close> persists in the same way
  (weight 3).
\<close>

theorem sentence_boost_survives_clear:
  "termSetWeight (Some ex_lexicon) (createContext 42 ''plain'') ''verb.business'' = 1
   \<and> termSetWeight (Some ex_lexicon)
        (applyCorrelations (Some ex_lexicon) (term_event ex_noun) (createContext 42 ''plain''))
        ''verb.business'' = 6
   \<and> biases (clearSentenceState
        (applyCorrelations (Some ex_lexicon) (term_event ex_noun) (createContext 42 ''plain'')))
        ''sentence:verb.business'' = None
   \<and> termSetWeight (Some ex_lexicon)
        (clearSentenceState
          (applyCorrelations (Some ex_lexicon) (term_event ex_noun) (createContext 42 ''plain'')))
        ''verb.business'' = 6
   \<and> termSetWeight (Some ex_lexicon)
        (clearSentenceState
          (applyCorrelations (Some ex_lexicon) (term_event ex_idea) (createContext 42 ''plain'')))
        ''noun.plain'' = 3"
  by (simp add: applyCorrelations_def ex_lexicon_def term_event_def ex_noun_def ex_idea_def
      createContext_def matchesCorrelationCondition_def no_condition_def applyBoost_def
      termSetWeight_def getArchetype_def clearSentenceState_def Let_def)

section \<open>Properties of the rule engine\<close>

lemma default_determiners: "determiners DEFAULT_CONFIG = [''the'', ''a'', ''an'', ''this'', ''that'', ''these'', ''those'', ''my'', ''your'',
        ''his'', ''her'', ''its'', ''our'', ''their'', ''some'', ''any'', ''no'', ''every'', ''each'',
        ''all'', ''both'', ''few'', ''many'', ''several'']"
  by (simp add: DEFAULT_CONFIG_def)

lemma toLowerCase_examples: "toLowerCase ''the'' = ''the''" "toLowerCase ''team'' = ''team''" "toLowerCase ''helps'' = ''helps''"  "toLowerCase ''client'' = ''client''"
  "toLowerCase ''ideas'' = ''ideas''" "toLowerCase ''grow'' = ''grow''" "toLowerCase ''in'' = ''in''" "toLowerCase ''areas'' = ''areas''"
  "toLowerCase ''of'' = ''of''" "toLowerCase ''change'' = ''change''" "toLowerCase ''with'' = ''with''" "toLowerCase ''time'' = ''time''"
  by (simp_all add: toLowerCase_def lower_char_def)

lemma ex_det_count1: "length (filter (\<lambda>t. toLowerCase t \<in> set (determiners DEFAULT_CONFIG)) [''the'', ''team'', ''helps'', ''the'', ''client'']) = 2"
  by (simp add: default_determiners toLowerCase_examples)

lemma ex_det_count2: "length (filter (\<lambda>t. toLowerCase t \<in> set (determiners DEFAULT_CONFIG)) [''ideas'', ''grow'', ''in'', ''areas'', ''of'', ''change'', ''with'', ''time'']) = 0"
  by (simp add: default_determiners toLowerCase_examples)

lemma ex_pp_count1: "spec_ppCount [''the'', ''team'', ''helps'', ''the'', ''client''] = 0"
  by (simp add: spec_ppCount_def DEFAULT_PREPOSITIONS_def toLowerCase_examples)

lemma ex_pp_count2: "spec_ppCount [''ideas'', ''grow'', ''in'', ''areas'', ''of'', ''change'', ''with'', ''time''] = 3"
  by (simp add: spec_ppCount_def DEFAULT_PREPOSITIONS_def toLowerCase_examples)

text \<open>
  What \<^verbatim>\<open>evaluateMaxCount\<close> computes for the target \<^verbatim>\<open>PP\<close>: it counts the tokens that are
  among the configured determiners, and fails exactly when that count exceeds the bound
  (1 when the constraint carries none).
\<close>

lemma evaluateMaxCount_PP:
  "c_target c = ''PP'' \<Longrightarrow>
     r_passed (evaluateMaxCount config c ctx tokens)
       = (int (length (filter (\<lambda>t. toLowerCase t \<in> set (determiners config)) tokens))
            \<le> (case c_value c of None \<Rightarrow> 1 | Some v \<Rightarrow> v))"
  by (auto simp: evaluateMaxCount_def Let_def)

text \<open>
  C9 at two concrete sentences under the default configuration.  The first has no
  prepositional phrase and two determiners: the constraint with bound 1 fails.  The
  second has three prepositional phrases and no determiner: the constraint with bound 2
  passes.
\<close>

theorem maxCount_PP_counts_determiners:
  "r_passed (evaluateMaxCount DEFAULT_CONFIG
       \<lparr>c_id = ''c.maxPP'', c_level = Hard, c_scope = ScSentence, c_type = MaxCount,
        c_target = ''PP'', c_value = Some 1\<rparr>
       (createContext 42 ''default'') [''the'', ''team'', ''helps'', ''the'', ''client'']) = False
   \<and> spec_ppCount [''the'', ''team'', ''helps'', ''the'', ''client''] = 0
   \<and> r_passed (evaluateMaxCount DEFAULT_CONFIG
       \<lparr>c_id = ''c.maxPP'', c_level = Hard, c_scope = ScSentence, c_type = MaxCount,
        c_target = ''PP'', c_value = Some 2\<rparr>
       (createContext 42 ''default'')
       [''ideas'', ''grow'', ''in'', ''areas'', ''of'', ''change'', ''with'', ''time'']) = True
   \<and> spec_ppCount [''ideas'', ''grow'', ''in'', ''areas'', ''of'', ''change'', ''with'', ''time''] = 3"
proof -
  have a: "r_passed (evaluateMaxCount DEFAULT_CONFIG
       \<lparr>c_id = ''c.maxPP'', c_level = Hard, c_scope = ScSentence, c_type = MaxCount,
        c_target = ''PP'', c_value = Some 1\<rparr>
       (createContext 42 ''default'') [''the'', ''team'', ''helps'', ''the'', ''client''])
       = (int 2 \<le> 1)"
    by (subst evaluateMaxCount_PP) (simp_all only: ex_det_count1 constraint.simps option.simps)
  have b: "r_passed (evaluateMaxCount DEFAULT_CONFIG
       \<lparr>c_id = ''c.maxPP'', c_level = Hard, c_scope = ScSentence, c_type = MaxCount,
        c_target = ''PP'', c_value = Some 2\<rparr>
       (createContext 42 ''default'')
       [''ideas'', ''grow'', ''in'', ''areas'', ''of'', ''change'', ''with'', ''time''])
       = (int 0 \<le> 2)"
    by (subst evaluateMaxCount_PP) (simp_all only: ex_det_count2 constraint.simps option.simps)
  show ?thesis
    unfolding a b ex_pp_count1 ex_pp_count2 by simp
qed

section \<open>Properties of the sentence templates\<close>

lemma gkeeps_return [intro!]: "gkeeps (greturn x)"
  by (simp add: gkeeps_def greturn_def)

lemma gkeeps_throw [intro!]: "gkeeps (gthrow e)"
  by (simp add: gkeeps_def gthrow_def)

lemma gkeeps_float [intro!]: "gkeeps g_float"
  by (simp add: gkeeps_def g_float_def split: prod.splits)

lemma gkeeps_chance [intro!]: "gkeeps (g_chance p)"
  by (simp add: gkeeps_def g_chance_def split: prod.splits)

lemma gkeeps_pick [intro!]: "gkeeps (g_pick xs)"
  by (simp add: gkeeps_def g_pick_def split: prod.splits)

lemma gkeeps_bind [intro!]:
  assumes "gkeeps m" and "\<And>x. gkeeps (f x)"
  shows "gkeeps (gbind m f)"
proof -
  have "ctx_constraints (fst (snd (gbind m f s))) = ctx_constraints (fst s)" for s
  proof -
    obtain r s1 where ms: "m s = (r, s1)"
      by (cases "m s")
    from assms(1) have k: "ctx_constraints (fst s1) = ctx_constraints (fst s)"
      unfolding gkeeps_def by (metis ms snd_conv)
    show ?thesis
    proof (cases r)
      case (Inl e)
      with ms k show ?thesis by (simp add: gbind_def)
    next
      case (Inr x)
      from assms(2) [of x] have "ctx_constraints (fst (snd (f x s1))) = ctx_constraints (fst s1)"
        unfolding gkeeps_def by blast
      with ms Inr k show ?thesis by (simp add: gbind_def)
    qed
  qed
  then show ?thesis unfolding gkeeps_def by blast
qed

lemma gkeeps_if [intro!]: "gkeeps a \<Longrightarrow> gkeeps b \<Longrightarrow> gkeeps (if c then a else b)"
  by simp

lemma gkeeps_thirdSingular [intro!]: "gkeeps (thirdSingular f)"
  by (cases f) (auto simp: thirdSingular_def)

lemma keeps_builders:
  assumes "keeps_constraints P"
  shows "gkeeps (buildNP P env o1)" "gkeeps (buildVP P env f o2)" "gkeeps (buildPP P env)"
    "gkeeps (buildClause P env o3)" "gkeeps (buildSubordinateClause P env)"
  using assms unfolding keeps_constraints_def by blast+

lemma buildOfType_keeps:
  assumes "keeps_constraints P"
  shows "gkeeps (buildOfType P env t)"
proof (cases t)
  case SimpleDeclarative
  then show ?thesis
    unfolding buildOfType_def buildSimpleDeclarative_def
    by (auto intro!: keeps_builders [OF assms])
next
  case Compound
  then show ?thesis
    unfolding buildOfType_def buildCompound_def
    by (auto intro!: keeps_builders [OF assms])
next
  case IntroAdverbial
  then show ?thesis
    unfolding buildOfType_def buildIntroAdverbial_def
    by (auto intro!: keeps_builders [OF assms])
next
  case Subordinate
  then show ?thesis
    unfolding buildOfType_def buildSubordinate_def
    by (auto intro!: keeps_builders [OF assms])
next
  case Interjection
  then show ?thesis
    unfolding buildOfType_def buildInterjection_def
    by (auto intro!: keeps_builders [OF assms])
next
  case Question
  then show ?thesis
    unfolding buildOfType_def buildQuestion_def
    by (auto intro!: keeps_builders [OF assms])
qed

lemma selectSentenceType_keeps: "gkeeps (selectSentenceType config)"
  unfolding selectSentenceType_def Let_def by (intro gkeeps_bind gkeeps_float gkeeps_return)

lemma buildSentence_keeps:
  assumes "keeps_constraints P"
  shows "gkeeps (buildSentence P env ty)"
  by (cases ty)
     (auto simp: buildSentence_def intro!: buildOfType_keeps [OF assms] selectSentenceType_keeps)

lemma keeps_constraintsD:
  "keeps_constraints P \<Longrightarrow> buildSentence P env ty (c, g) = (r, (c2, g2)) \<Longrightarrow>
     ctx_constraints c2 = ctx_constraints c"
  using buildSentence_keeps [of P env ty] unfolding gkeeps_def
  by (metis fst_conv snd_conv)

lemma buildSimpleDeclarative_type:
  "buildSimpleDeclarative P env s = (Inr r, s') \<Longrightarrow> sr_type r = SimpleDeclarative"
  by (auto simp: buildSimpleDeclarative_def gbind_def greturn_def mk_sentence_def
      split: prod.splits sum.splits)

lemma buildSentence_forced_type:
  "buildSentence P env (Some SimpleDeclarative) s = (Inr r, s') \<Longrightarrow> sr_type r = SimpleDeclarative"
  by (simp add: buildSentence_def buildOfType_def buildSimpleDeclarative_type)

section \<open>Properties of the retry loop\<close>

declare retryLoop.simps [simp del]

lemma evaluateConstraint_id: "r_id (evaluateConstraint config c ctx tokens) = c_id c"
  by (cases "c_type c")
     (simp_all add: evaluateConstraint_def evaluateNoRepeat_def evaluateMaxCount_def
        evaluateMinCount_def evaluateRequired_def evaluateForbidden_def Let_def)

lemma unsat_hard_failed:
  assumes "unsatisfiableHard cs"
  shows "hardConstraintsFailed (validate config cs invs ctx text tokens ScSentence) \<noteq> []"
proof -
  from assms obtain c where c: "c \<in> set cs" "c_scope c = ScSentence" "levelOf cs (c_id c) = Some Hard"
    and f: "\<not> r_passed (evaluateConstraint config c ctx tokens)"
    unfolding unsatisfiableHard_def by blast
  let ?r = "evaluateConstraint config c ctx tokens"
  have "?r \<in> set (evaluateConstraints config cs ctx tokens ScSentence)"
    using c by (auto simp: evaluateConstraints_def)
  with f c(3) have "?r \<in> set (filter (\<lambda>r. levelOf cs (r_id r) = Some Hard)
       (filter (\<lambda>r. \<not> r_passed r) (evaluateConstraints config cs ctx tokens ScSentence)))"
    by (simp add: evaluateConstraint_id)
  then have "filter (\<lambda>r. levelOf cs (r_id r) = Some Hard)
       (filter (\<lambda>r. \<not> r_passed r) (evaluateConstraints config cs ctx tokens ScSentence)) \<noteq> []"
    by (metis empty_iff list.set(1))
  then show ?thesis
    by (simp add: validate_def Let_def)
qed

lemma unsat_invalid:
  "unsatisfiableHard cs \<Longrightarrow> \<not> valid (validate config cs invs ctx text tokens ScSentence)"
  using unsat_hard_failed [of cs config invs ctx "text" tokens]
  by (auto simp: validate_def Let_def)


lemma same_refl: "same_but_chain tg tg"
  unfolding same_but_chain_def
  by (rule exI [of _ "tg_rng tg"], rule exI [of _ "maxPPChain (tg_config tg)"]) simp

lemma same_rng: "same_but_chain tg (tg\<lparr>tg_rng := g\<rparr>)"
  unfolding same_but_chain_def
  by (rule exI [of _ g], rule exI [of _ "maxPPChain (tg_config tg)"]) simp

lemma same_degrade: "same_but_chain tg (degrade (tg\<lparr>tg_rng := g\<rparr>))"
  unfolding same_but_chain_def degrade_def
  by (rule exI [of _ g], rule exI [of _ "max 0 (maxPPChain (tg_config tg) - 1)"]) simp

lemma same_trans:
  assumes "same_but_chain a b" "same_but_chain b c"
  shows "same_but_chain a c"
proof -
  from assms(1) obtain g m where b: "b = a\<lparr>tg_rng := g, tg_config := (tg_config a)\<lparr>maxPPChain := m\<rparr>\<rparr>"
    and m: "m = maxPPChain (tg_config a) \<or> (0 \<le> m \<and> m \<le> max 0 (maxPPChain (tg_config a) - 1))"
    unfolding same_but_chain_def by blast
  from assms(2) obtain g' m' where c: "c = b\<lparr>tg_rng := g', tg_config := (tg_config b)\<lparr>maxPPChain := m'\<rparr>\<rparr>"
    and m': "m' = maxPPChain (tg_config b) \<or> (0 \<le> m' \<and> m' \<le> max 0 (maxPPChain (tg_config b) - 1))"
    unfolding same_but_chain_def by blast
  have "c = a\<lparr>tg_rng := g', tg_config := (tg_config a)\<lparr>maxPPChain := m'\<rparr>\<rparr>"
    by (simp add: b c)
  moreover have "m' = maxPPChain (tg_config a) \<or> (0 \<le> m' \<and> m' \<le> max 0 (maxPPChain (tg_config a) - 1))"
    using m m' by (auto simp: b)
  ultimately show ?thesis
    unfolding same_but_chain_def by blast
qed

lemma retryLoop_frame:
  "same_but_chain tg (ro_generator (retryLoop P tg ctx ty attempts lastResult lastError))"
proof (induction P tg ctx ty attempts lastResult lastError rule: retryLoop.induct)
  case (1 P tg ctx ty attempts lastResult lastError)
  show ?case
  proof (cases "attempts < maxSentenceAttempts (tg_config tg)")
    case False
    then show ?thesis
      by (subst retryLoop.simps)
         (auto simp: same_refl same_rng split: option.splits prod.splits)
  next
    case True
    obtain r ctx2 g2 where b: "buildSentence P (env_of tg) ty (ctx\<lparr>retryCount := attempts + 1 - 1\<rparr>, tg_rng tg) = (r, (ctx2, g2))"
      by (metis prod.exhaust)
    show ?thesis
    proof (cases r)
      case (Inl e)
      from "1.IH"(1) [OF True refl refl b [symmetric] Inl refl]
      have "same_but_chain (tg\<lparr>tg_rng := g2\<rparr>) (ro_generator (retryLoop P (tg\<lparr>tg_rng := g2\<rparr>) ctx2 ty (attempts + 1) lastResult (Some e)))" .
      then have "same_but_chain tg (ro_generator (retryLoop P (tg\<lparr>tg_rng := g2\<rparr>) ctx2 ty (attempts + 1) lastResult (Some e)))"
        using same_rng same_trans by blast
      then show ?thesis
        using True b Inl by (subst retryLoop.simps) (simp add: Let_def)
    next
      case (Inr res)
      let ?v = "validate (tg_config (tg\<lparr>tg_rng := g2\<rparr>)) (ctx_constraints ctx2) (ctx_invariants ctx2) ctx2 (sr_text res) (sr_tokens res) ScSentence"
      show ?thesis
      proof (cases "valid ?v \<or> (length (hardConstraintsFailed ?v) = 0 \<and> length (invariantsFailed ?v) = 0)")
        case True
        then show ?thesis
          using \<open>attempts < maxSentenceAttempts (tg_config tg)\<close> b Inr
          by (subst retryLoop.simps) (auto simp: Let_def same_rng)
      next
        case False
        then have nv: "\<not> valid ?v" and nh: "\<not> (length (hardConstraintsFailed ?v) = 0 \<and> length (invariantsFailed ?v) = 0)"
          by auto
        let ?tg3 = "if 5 < attempts + 1 then degrade (tg\<lparr>tg_rng := g2\<rparr>) else tg\<lparr>tg_rng := g2\<rparr>"
        let ?ty3 = "if 10 < attempts + 1 then Some SimpleDeclarative else ty"
        from "1.IH"(2) [OF True refl refl b [symmetric] Inr refl refl refl nv nh]
        have "same_but_chain ?tg3 (ro_generator (retryLoop P ?tg3 ctx2 ?ty3 (attempts + 1) (Some res) lastError))" .
        moreover have "same_but_chain tg ?tg3"
          by (simp add: same_rng same_degrade)
        ultimately have "same_but_chain tg (ro_generator (retryLoop P ?tg3 ctx2 ?ty3 (attempts + 1) (Some res) lastError))"
          using same_trans by blast
        then show ?thesis
          using \<open>attempts < maxSentenceAttempts (tg_config tg)\<close> b Inr nv nh
          by (subst retryLoop.simps) (simp add: Let_def same_rng)
      qed
    qed
  qed
qed


lemma valid_validate:
  "valid (validate config cs invs ctx txt tokens sc)
     = (hardConstraintsFailed (validate config cs invs ctx txt tokens sc) = []
        \<and> invariantsFailed (validate config cs invs ctx txt tokens sc) = [])"
  by (simp add: validate_def Let_def)

lemma retryLoop_exit:
  "\<not> attempts < maxSentenceAttempts (tg_config tg) \<Longrightarrow>
     retryLoop P tg ctx ty attempts lastResult lastError =
       (case lastResult of
           Some r \<Rightarrow> \<lparr>ro_result = Inr r, ro_attempts = attempts, ro_generator = tg, ro_context = ctx\<rparr>
         | None \<Rightarrow>
             if strictMode (tg_config tg) then
               \<lparr>ro_result = Inl (case lastError of
                                  Some e \<Rightarrow> e
                                | None \<Rightarrow> Error ''Failed to generate valid sentence''),
                ro_attempts = attempts, ro_generator = tg, ro_context = ctx\<rparr>
             else
               (case buildSimpleDeclarative P (env_of tg) (ctx, tg_rng tg) of
                  (r, (ctx2, g2)) \<Rightarrow>
                    \<lparr>ro_result = r, ro_attempts = attempts,
                     ro_generator = tg\<lparr>tg_rng := g2\<rparr>, ro_context = ctx2\<rparr>))"
  by (subst retryLoop.simps) simp

lemma retryLoop_throw:
  "attempts < maxSentenceAttempts (tg_config tg) \<Longrightarrow>
   buildSentence P (env_of tg) ty (ctx\<lparr>retryCount := attempts\<rparr>, tg_rng tg) = (Inl e, (ctx2, g2)) \<Longrightarrow>
     retryLoop P tg ctx ty attempts lastResult lastError =
       retryLoop P (tg\<lparr>tg_rng := g2\<rparr>) ctx2 ty (attempts + 1) lastResult (Some e)"
  by (subst retryLoop.simps) (simp add: Let_def)

lemma retryLoop_accept:
  "attempts < maxSentenceAttempts (tg_config tg) \<Longrightarrow>
   buildSentence P (env_of tg) ty (ctx\<lparr>retryCount := attempts\<rparr>, tg_rng tg) = (Inr res, (ctx2, g2)) \<Longrightarrow>
   valid (validate (tg_config tg) (ctx_constraints ctx2) (ctx_invariants ctx2) ctx2
            (sr_text res) (sr_tokens res) ScSentence) \<Longrightarrow>
     retryLoop P tg ctx ty attempts lastResult lastError =
       \<lparr>ro_result = Inr res, ro_attempts = attempts + 1,
        ro_generator = tg\<lparr>tg_rng := g2\<rparr>, ro_context = ctx2\<rparr>"
  by (subst retryLoop.simps) (simp add: Let_def)

lemma retryLoop_reject:
  "attempts < maxSentenceAttempts (tg_config tg) \<Longrightarrow>
   buildSentence P (env_of tg) ty (ctx\<lparr>retryCount := attempts\<rparr>, tg_rng tg) = (Inr res, (ctx2, g2)) \<Longrightarrow>
   \<not> valid (validate (tg_config tg) (ctx_constraints ctx2) (ctx_invariants ctx2) ctx2
            (sr_text res) (sr_tokens res) ScSentence) \<Longrightarrow>
     retryLoop P tg ctx ty attempts lastResult lastError =
       retryLoop P (if 5 < attempts + 1 then degrade (tg\<lparr>tg_rng := g2\<rparr>) else tg\<lparr>tg_rng := g2\<rparr>) ctx2
         (if 10 < attempts + 1 then Some SimpleDeclarative else ty) (attempts + 1) (Some res) lastError"
  by (subst retryLoop.simps) (auto simp: Let_def valid_validate)

lemma degrade_step:
  assumes "attempts < maxSentenceAttempts (tg_config tg)" and "5 \<le> attempts"
    and "buildSentence P (env_of tg) ty (ctx\<lparr>retryCount := attempts\<rparr>, tg_rng tg) = (Inr result, (ctx2, g2))"
    and "\<not> valid (validate (tg_config tg) (ctx_constraints ctx2) (ctx_invariants ctx2) ctx2
                 (sr_text result) (sr_tokens result) ScSentence)"
  shows "\<exists>g m. ro_generator (retryLoop P tg ctx ty attempts lastResult lastError)
                  = tg\<lparr>tg_rng := g, tg_config := (tg_config tg)\<lparr>maxPPChain := m\<rparr>\<rparr>
               \<and> 0 \<le> m \<and> m \<le> max 0 (maxPPChain (tg_config tg) - 1)"
proof -
  let ?tg3 = "degrade (tg\<lparr>tg_rng := g2\<rparr>)"
  let ?ty3 = "if 10 < attempts + 1 then Some SimpleDeclarative else ty"
  have eq: "retryLoop P tg ctx ty attempts lastResult lastError
          = retryLoop P ?tg3 ctx2 ?ty3 (attempts + 1) (Some result) lastError"
    using retryLoop_reject [OF assms(1) assms(3) assms(4), of lastResult lastError] assms(2) by simp
  from retryLoop_frame [of ?tg3 P ctx2 ?ty3 "attempts + 1" "Some result" lastError]
  obtain g m where f: "ro_generator (retryLoop P ?tg3 ctx2 ?ty3 (attempts + 1) (Some result) lastError)
        = ?tg3\<lparr>tg_rng := g, tg_config := (tg_config ?tg3)\<lparr>maxPPChain := m\<rparr>\<rparr>"
    and m: "m = maxPPChain (tg_config ?tg3) \<or> (0 \<le> m \<and> m \<le> max 0 (maxPPChain (tg_config ?tg3) - 1))"
    unfolding same_but_chain_def by blast
  have "?tg3\<lparr>tg_rng := g, tg_config := (tg_config ?tg3)\<lparr>maxPPChain := m\<rparr>\<rparr>
          = tg\<lparr>tg_rng := g, tg_config := (tg_config tg)\<lparr>maxPPChain := m\<rparr>\<rparr>"
    by (simp add: degrade_def)
  moreover have "0 \<le> m \<and> m \<le> max 0 (maxPPChain (tg_config tg) - 1)"
    using m by (auto simp: degrade_def)
  ultimately show ?thesis
    using eq f by auto
qed

lemma env_of_loop_env: "env_of tg = loop_env tg (maxPPChain (tg_config tg))"
  by (simp add: env_of_def loop_env_def)

lemma loop_env_same: "same_but_chain tg tg' \<Longrightarrow> loop_env tg' m = loop_env tg m"
  by (auto simp: same_but_chain_def loop_env_def)

lemma always_builds_same: "same_but_chain tg tg' \<Longrightarrow> always_builds P tg \<Longrightarrow> always_builds P tg'"
  by (simp add: always_builds_def loop_env_same)

lemma never_builds_same: "same_but_chain tg tg' \<Longrightarrow> never_builds P tg \<Longrightarrow> never_builds P tg'"
  by (simp add: never_builds_def loop_env_same)

lemma same_attempts: "same_but_chain tg tg' \<Longrightarrow> maxSentenceAttempts (tg_config tg') = maxSentenceAttempts (tg_config tg)"
  by (auto simp: same_but_chain_def)

lemma same_strict: "same_but_chain tg tg' \<Longrightarrow> strictMode (tg_config tg') = strictMode (tg_config tg)"
  by (auto simp: same_but_chain_def)

lemma retryLoop_attempts:
  "keeps_constraints P \<Longrightarrow> unsatisfiableHard (ctx_constraints ctx) \<Longrightarrow>
    ro_attempts (retryLoop P tg ctx ty attempts lastResult lastError)
      = max attempts (maxSentenceAttempts (tg_config tg))"
proof (induction P tg ctx ty attempts lastResult lastError rule: retryLoop.induct)
  case (1 P tg ctx ty attempts lastResult lastError)
  note keeps = "1.prems"(1) and unsat = "1.prems"(2)
  show ?case
  proof (cases "attempts < maxSentenceAttempts (tg_config tg)")
    case False
    then show ?thesis
      by (simp add: retryLoop_exit split: option.splits prod.splits)
  next
    case True
    obtain r ctx2 g2 where b: "buildSentence P (env_of tg) ty (ctx\<lparr>retryCount := attempts\<rparr>, tg_rng tg) = (r, (ctx2, g2))"
      by (metis prod.exhaust)
    have cs: "ctx_constraints ctx2 = ctx_constraints ctx"
      using keeps_constraintsD [OF keeps b] by simp
    have b': "(r, (ctx2, g2)) = buildSentence P (env_of tg) ty (ctx\<lparr>retryCount := attempts + 1 - 1\<rparr>, tg_rng tg)"
      using b by simp
    show ?thesis
    proof (cases r)
      case (Inl e)
      from "1.IH"(1) [OF True refl refl b' Inl refl] unsat cs keeps
      have "ro_attempts (retryLoop P (tg\<lparr>tg_rng := g2\<rparr>) ctx2 ty (attempts + 1) lastResult (Some e))
              = max (attempts + 1) (maxSentenceAttempts (tg_config tg))"
        by simp
      then show ?thesis
        using True b Inl by (simp add: retryLoop_throw)
    next
      case (Inr res)
      let ?v = "validate (tg_config tg) (ctx_constraints ctx2) (ctx_invariants ctx2) ctx2 (sr_text res) (sr_tokens res) ScSentence"
      have nv: "\<not> valid ?v"
        using unsat_invalid unsat cs by simp
      then have nh: "\<not> (length (hardConstraintsFailed ?v) = 0 \<and> length (invariantsFailed ?v) = 0)"
        by (simp add: valid_validate)
      let ?tg3 = "if 5 < attempts + 1 then degrade (tg\<lparr>tg_rng := g2\<rparr>) else tg\<lparr>tg_rng := g2\<rparr>"
      let ?ty3 = "if 10 < attempts + 1 then Some SimpleDeclarative else ty"
      have "ro_attempts (retryLoop P ?tg3 ctx2 ?ty3 (attempts + 1) (Some res) lastError)
              = max (attempts + 1) (maxSentenceAttempts (tg_config ?tg3))"
        using "1.IH"(2) [OF True refl refl b' Inr refl refl refl] nv nh unsat cs keeps by simp
      moreover have "maxSentenceAttempts (tg_config ?tg3) = maxSentenceAttempts (tg_config tg)"
        by (simp add: degrade_def)
      ultimately show ?thesis
        using True b Inr nv by (simp add: retryLoop_reject)
    qed
  qed
qed

lemma retryLoop_candidate:
  "keeps_constraints P \<Longrightarrow> unsatisfiableHard (ctx_constraints ctx) \<Longrightarrow> always_builds P tg \<Longrightarrow>
   attempts < maxSentenceAttempts (tg_config tg) \<Longrightarrow>
     \<exists>r m ty' s s'. ro_result (retryLoop P tg ctx ty attempts lastResult lastError) = Inr r
        \<and> buildSentence P (loop_env tg m) ty' s = (Inr r, s')
        \<and> (ty = Some SimpleDeclarative \<or> (12 \<le> maxSentenceAttempts (tg_config tg) \<and> attempts \<le> 10)
             \<longrightarrow> sr_type r = SimpleDeclarative)"
proof (induction P tg ctx ty attempts lastResult lastError rule: retryLoop.induct)
  case (1 P tg ctx ty attempts lastResult lastError)
  note keeps = "1.prems"(1) and unsat = "1.prems"(2) and builds = "1.prems"(3) and lt = "1.prems"(4)
  let ?N = "maxSentenceAttempts (tg_config tg)"
  obtain r0 ctx2 g2 where b: "buildSentence P (env_of tg) ty (ctx\<lparr>retryCount := attempts\<rparr>, tg_rng tg) = (r0, (ctx2, g2))"
    by (metis prod.exhaust)
  from builds obtain res where "r0 = Inr res"
    unfolding always_builds_def env_of_loop_env [symmetric]
    by (metis b env_of_loop_env fst_conv)
  with b have b: "buildSentence P (env_of tg) ty (ctx\<lparr>retryCount := attempts\<rparr>, tg_rng tg) = (Inr res, (ctx2, g2))"
    by simp
  have cs: "ctx_constraints ctx2 = ctx_constraints ctx"
    using keeps_constraintsD [OF keeps b] by simp
  let ?v = "validate (tg_config tg) (ctx_constraints ctx2) (ctx_invariants ctx2) ctx2 (sr_text res) (sr_tokens res) ScSentence"
  have nv: "\<not> valid ?v"
    using unsat_invalid unsat cs by simp
  then have nh: "\<not> (length (hardConstraintsFailed ?v) = 0 \<and> length (invariantsFailed ?v) = 0)"
    by (simp add: valid_validate)
  let ?tg3 = "if 5 < attempts + 1 then degrade (tg\<lparr>tg_rng := g2\<rparr>) else tg\<lparr>tg_rng := g2\<rparr>"
  let ?ty3 = "if 10 < attempts + 1 then Some SimpleDeclarative else ty"
  have same: "same_but_chain tg ?tg3"
    by (simp add: same_rng same_degrade)
  have step: "retryLoop P tg ctx ty attempts lastResult lastError
          = retryLoop P ?tg3 ctx2 ?ty3 (attempts + 1) (Some res) lastError"
    using retryLoop_reject [OF lt b nv] by simp
  show ?case
  proof (cases "attempts + 1 < ?N")
    case True
    have b': "(Inr res, (ctx2, g2)) = buildSentence P (env_of tg) ty (ctx\<lparr>retryCount := attempts + 1 - 1\<rparr>, tg_rng tg)"
      using b by simp
    have lt3: "attempts + 1 < maxSentenceAttempts (tg_config ?tg3)"
      using True same_attempts [OF same] by simp
    have "\<exists>r m ty' s s'. ro_result (retryLoop P ?tg3 ctx2 ?ty3 (attempts + 1) (Some res) lastError) = Inr r
        \<and> buildSentence P (loop_env ?tg3 m) ty' s = (Inr r, s')
        \<and> (?ty3 = Some SimpleDeclarative \<or> (12 \<le> maxSentenceAttempts (tg_config ?tg3) \<and> attempts + 1 \<le> 10)
             \<longrightarrow> sr_type r = SimpleDeclarative)"
    proof (rule "1.IH"(2) [OF lt refl refl b' refl refl refl refl])
      show "\<not> valid (validate (tg_config (tg\<lparr>tg_rng := g2\<rparr>)) (ctx_constraints ctx2) (ctx_invariants ctx2) ctx2 (sr_text res) (sr_tokens res) ScSentence)"
        using nv by simp
      show "\<not> (length (hardConstraintsFailed (validate (tg_config (tg\<lparr>tg_rng := g2\<rparr>)) (ctx_constraints ctx2) (ctx_invariants ctx2) ctx2 (sr_text res) (sr_tokens res) ScSentence)) = 0
           \<and> length (invariantsFailed (validate (tg_config (tg\<lparr>tg_rng := g2\<rparr>)) (ctx_constraints ctx2) (ctx_invariants ctx2) ctx2 (sr_text res) (sr_tokens res) ScSentence)) = 0)"
        using nh by simp
      show "keeps_constraints P" by (rule keeps)
      show "unsatisfiableHard (ctx_constraints ctx2)" using unsat cs by simp
      show "always_builds P ?tg3" by (rule always_builds_same [OF same builds])
      show "attempts + 1 < maxSentenceAttempts (tg_config ?tg3)" by (rule lt3)
    qed
    then obtain r m ty' s s' where r: "ro_result (retryLoop P ?tg3 ctx2 ?ty3 (attempts + 1) (Some res) lastError) = Inr r"
      and bb: "buildSentence P (loop_env ?tg3 m) ty' s = (Inr r, s')"
      and tt: "?ty3 = Some SimpleDeclarative \<or> (12 \<le> maxSentenceAttempts (tg_config ?tg3) \<and> attempts + 1 \<le> 10)
             \<longrightarrow> sr_type r = SimpleDeclarative"
      by blast
    have c3: "ty = Some SimpleDeclarative \<or> (12 \<le> ?N \<and> attempts \<le> 10) \<longrightarrow> sr_type r = SimpleDeclarative"
      using tt same_attempts [OF same] by (auto split: if_splits)
    have c2: "buildSentence P (loop_env tg m) ty' s = (Inr r, s')"
      using bb loop_env_same [OF same] by simp
    have c1: "ro_result (retryLoop P tg ctx ty attempts lastResult lastError) = Inr r"
      using step r by simp
    show ?thesis
      using c1 c2 c3 by blast
  next
    case False
    then have ex: "\<not> attempts + 1 < maxSentenceAttempts (tg_config ?tg3)"
      using same_attempts [OF same] by simp
    have "ro_result (retryLoop P ?tg3 ctx2 ?ty3 (attempts + 1) (Some res) lastError) = Inr res"
      using retryLoop_exit [OF ex] by simp
    then have c1: "ro_result (retryLoop P tg ctx ty attempts lastResult lastError) = Inr res"
      using step by simp
    have c3: "ty = Some SimpleDeclarative \<or> (12 \<le> ?N \<and> attempts \<le> 10) \<longrightarrow> sr_type res = SimpleDeclarative"
      using False b buildSentence_forced_type by auto
    have c2: "buildSentence P (loop_env tg (maxPPChain (tg_config tg))) ty (ctx\<lparr>retryCount := attempts\<rparr>, tg_rng tg) = (Inr res, (ctx2, g2))"
      using b by (simp add: env_of_loop_env)
    show ?thesis
      using c1 c2 c3 by blast
  qed
qed

lemma env_of_rng [simp]: "env_of (tg\<lparr>tg_rng := g\<rparr>) = env_of tg"
  by (simp add: env_of_def)

lemma retryLoop_never_builds:
  "never_builds P tg \<Longrightarrow>
     (strictMode (tg_config tg) \<longrightarrow> (\<exists>e. ro_result (retryLoop P tg ctx ty attempts None lastError) = Inl e))
     \<and> (\<not> strictMode (tg_config tg) \<longrightarrow>
          (\<exists>c g. ro_result (retryLoop P tg ctx ty attempts None lastError)
                    = fst (buildSimpleDeclarative P (env_of tg) (c, g))))"
proof (induction P tg ctx ty attempts "None :: sentence_result option" lastError rule: retryLoop.induct)
  case (1 P tg ctx ty attempts lastError)
  note never = "1.prems"(1)
  show ?case
  proof (cases "attempts < maxSentenceAttempts (tg_config tg)")
    case False
    then show ?thesis
      by (auto simp: retryLoop_exit split: prod.splits) (metis fst_conv)
  next
    case True
    obtain r0 ctx2 g2 where b: "buildSentence P (env_of tg) ty (ctx\<lparr>retryCount := attempts\<rparr>, tg_rng tg) = (r0, (ctx2, g2))"
      by (metis prod.exhaust)
    from never obtain e where "r0 = Inl e"
      unfolding never_builds_def
      by (metis b env_of_loop_env fst_conv)
    with b have b: "buildSentence P (env_of tg) ty (ctx\<lparr>retryCount := attempts\<rparr>, tg_rng tg) = (Inl e, (ctx2, g2))"
      by simp
    have b': "(Inl e, (ctx2, g2)) = buildSentence P (env_of tg) ty (ctx\<lparr>retryCount := attempts + 1 - 1\<rparr>, tg_rng tg)"
      using b by simp
    have nb: "never_builds P (tg\<lparr>tg_rng := g2\<rparr>)"
      using never_builds_same [OF same_rng never] .
    have "(strictMode (tg_config (tg\<lparr>tg_rng := g2\<rparr>)) \<longrightarrow> (\<exists>e'. ro_result (retryLoop P (tg\<lparr>tg_rng := g2\<rparr>) ctx2 ty (attempts + 1) None (Some e)) = Inl e'))
     \<and> (\<not> strictMode (tg_config (tg\<lparr>tg_rng := g2\<rparr>)) \<longrightarrow>
          (\<exists>c g. ro_result (retryLoop P (tg\<lparr>tg_rng := g2\<rparr>) ctx2 ty (attempts + 1) None (Some e))
                    = fst (buildSimpleDeclarative P (env_of (tg\<lparr>tg_rng := g2\<rparr>)) (c, g))))"
      by (rule "1.hyps"(1) [OF True refl refl b' refl refl nb])
    then show ?thesis
      using retryLoop_throw [OF True b, of None lastError] by simp
  qed
qed

subsection \<open>Computations that always return, and the monad laws\<close>

lemma gsucc_return: "Q x \<Longrightarrow> gsucc (greturn x) Q"
  by (simp add: gsucc_def greturn_def)

lemma gsucc_float: "gsucc g_float (\<lambda>_. True)"
  by (simp add: gsucc_def g_float_def split: prod.splits)

lemma gsucc_chance: "gsucc (g_chance p) (\<lambda>_. True)"
  by (simp add: gsucc_def g_chance_def split: prod.splits)

lemma gsucc_pick: "xs \<noteq> [] \<Longrightarrow> gsucc (g_pick xs) (\<lambda>_. True)"
  by (simp add: gsucc_def g_pick_def rng_pick_def split: prod.splits)

lemma gsucc_bind:
  assumes "gsucc m Q" and "\<And>x. Q x \<Longrightarrow> gsucc (f x) R"
  shows "gsucc (gbind m f) R"
proof -
  have "\<exists>r s'. gbind m f s = (Inr r, s') \<and> R r" for s
  proof -
    from assms(1) obtain x s1 where m: "m s = (Inr x, s1)" and q: "Q x"
      unfolding gsucc_def by blast
    from assms(2) [OF q] obtain r s2 where "f x s1 = (Inr r, s2)" "R r"
      unfolding gsucc_def by blast
    with m show ?thesis by (simp add: gbind_def)
  qed
  then show ?thesis unfolding gsucc_def by blast
qed

lemma gsucc_weaken: "gsucc m Q \<Longrightarrow> (\<And>x. Q x \<Longrightarrow> R x) \<Longrightarrow> gsucc m R"
  unfolding gsucc_def by blast

lemma gsucc_if: "gsucc a Q \<Longrightarrow> gsucc b Q \<Longrightarrow> gsucc (if c then a else b) Q"
  by simp

lemma gsucc_thirdSingular: "gsucc (thirdSingular (Some f)) (\<lambda>_. True)"
  by (simp add: thirdSingular_def gsucc_def greturn_def)

lemma gfails_throw: "gfails (gthrow e)"
  by (simp add: gfails_def gthrow_def)

lemma gfails_bind2:
  assumes "\<And>x. gfails (f x)"
  shows "gfails (gbind m f)"
proof -
  have "\<exists>e. fst (gbind m f s) = Inl e" for s
  proof -
    obtain r s1 where ms: "m s = (r, s1)" by (cases "m s")
    show ?thesis
    proof (cases r)
      case (Inl e)
      with ms show ?thesis by (simp add: gbind_def)
    next
      case (Inr x)
      from assms [of x] obtain e where "fst (f x s1) = Inl e"
        unfolding gfails_def by blast
      with ms Inr show ?thesis by (simp add: gbind_def)
    qed
  qed
  then show ?thesis unfolding gfails_def by blast
qed

subsection \<open>The fixed-phrase builders\<close>

lemma ex_phrase_keeps: "gkeeps (ex_phrase ts)"
  by (simp add: gkeeps_def ex_phrase_def)

lemma ex_builders_keep: "keeps_constraints ex_builders"
  by (simp add: keeps_constraints_def ex_builders_def ex_phrase_keeps)

lemma ex_failing_builders_keep: "keeps_constraints ex_failing_builders"
  by (simp add: keeps_constraints_def ex_failing_builders_def gkeeps_throw)

lemma ex_impossible_unsat: "unsatisfiableHard (ctx_constraints ex_context)"
  by (simp add: unsatisfiableHard_def ex_context_def ex_impossible_def levelOf_def
      evaluateConstraint_def evaluateMaxCount_def Let_def)

lemma gbind_assoc: "gbind (gbind m f) g = gbind m (\<lambda>x. gbind (f x) g)"
  by (rule ext) (simp add: gbind_def split: prod.splits sum.splits)

lemma gbind_return: "gbind (greturn x) f = f x"
  by (rule ext) (simp add: gbind_def greturn_def)

lemma gbind_throw: "gbind (gthrow e) f = gthrow e"
  by (rule ext) (simp add: gbind_def gthrow_def)

lemma gbind_if: "gbind (if c then a else b) f = (if c then gbind a f else gbind b f)"
  by simp

lemmas gbind_norm = gbind_assoc gbind_return gbind_throw gbind_if

lemma ex_phrase_return: "ex_phrase ts = greturn \<lparr>pr_tokens = ts, pr_features = Some \<lparr>pf_number = Singular, pf_person = 3\<rparr>\<rparr>"
  by (rule ext) (simp add: ex_phrase_def greturn_def)

lemma thirdSingular_Some: "thirdSingular (Some f) = greturn (pf_number f = Singular \<and> pf_person f = 3)"
  by (simp add: thirdSingular_def)

lemma gsucc_bind_chance: "(\<And>b. gsucc (f b) R) \<Longrightarrow> gsucc (gbind (g_chance p) f) R"
  by (rule gsucc_bind [OF gsucc_chance])

lemma gsucc_bind_float: "(\<And>b. gsucc (f b) R) \<Longrightarrow> gsucc (gbind g_float f) R"
  by (rule gsucc_bind [OF gsucc_float])

lemma gsucc_bind_pick: "xs \<noteq> [] \<Longrightarrow> (\<And>x. gsucc (f x) R) \<Longrightarrow> gsucc (gbind (g_pick xs) f) R"
  by (rule gsucc_bind [OF gsucc_pick])

lemma ex_buildOfType_succ:
  assumes "coordinators (env_config env) \<noteq> []" "transitions (env_config env) \<noteq> []"
    "interjections (env_config env) \<noteq> []"
  shows "gsucc (buildOfType ex_builders env t) (\<lambda>_. True)"
  using assms
  by (cases t)
     (auto simp: buildOfType_def buildSimpleDeclarative_def buildCompound_def buildIntroAdverbial_def
        buildSubordinate_def buildInterjection_def buildQuestion_def ex_builders_def ex_phrase_return
        thirdSingular_Some gbind_norm
        intro!: gsucc_bind_chance gsucc_bind_pick gsucc_return)

lemma ex_buildSentence_succ:
  assumes "coordinators (env_config env) \<noteq> []" "transitions (env_config env) \<noteq> []"
    "interjections (env_config env) \<noteq> []"
  shows "gsucc (buildSentence ex_builders env ty) (\<lambda>_. True)"
  by (cases ty)
     (auto simp: buildSentence_def selectSentenceType_def Let_def gbind_norm
        intro!: gsucc_bind_float ex_buildOfType_succ [OF assms])

lemma ex_always_builds: "always_builds ex_builders (ex_generator budget strict)"
proof -
  have "gsucc (buildSentence ex_builders (loop_env (ex_generator budget strict) m) ty) (\<lambda>_. True)" for m ty
    by (rule ex_buildSentence_succ)
       (simp_all add: loop_env_def ex_generator_def setSeed_def new_TextGenerator_def DEFAULT_CONFIG_def)
  then show ?thesis
    unfolding always_builds_def gsucc_def by (metis fst_conv)
qed

lemma gfails_if: "gfails a \<Longrightarrow> gfails b \<Longrightarrow> gfails (if c then a else b)"
  by simp

lemma ex_failing_buildOfType: "gfails (buildOfType ex_failing_builders env t)"
  by (cases t)
     (auto simp: buildOfType_def buildSimpleDeclarative_def buildCompound_def buildIntroAdverbial_def
        buildSubordinate_def buildInterjection_def buildQuestion_def ex_failing_builders_def
        gbind_norm
        intro!: gfails_bind2 gfails_throw)

lemma ex_never_builds: "never_builds ex_failing_builders tg"
proof -
  have "gfails (buildSentence ex_failing_builders env ty)" for env ty
    by (cases ty)
       (auto simp: buildSentence_def intro!: gfails_bind2 ex_failing_buildOfType)
  then show ?thesis
    unfolding never_builds_def gfails_def by blast
qed

section \<open>Properties of the text generator\<close>

text \<open>
  C10.  Whatever lexicon is loaded, and whatever constraints and invariants it declares,
  the rules a generation call works with are the three default constraints and the three
  default invariants: \<^verbatim>\<open>getActiveConstraints\<close> and \<^verbatim>\<open>getActiveInvariants\<close> never read the
  lexicon's lists, and every call takes its context from \<^verbatim>\<open>createGenerationContext\<close>.
\<close>

theorem active_rules_are_defaults:
  "getActiveConstraints tg =
     [\<lparr>c_id = ''c.maxPP'', c_level = Hard, c_scope = ScPhrase, c_type = MaxCount,
       c_target = ''PP'', c_value = Some (maxPPChain (tg_config tg))\<rparr>,
      \<lparr>c_id = ''c.minWords'', c_level = Soft, c_scope = ScSentence, c_type = MinCount,
       c_target = ''words'', c_value = Some (minWordsPerSentence (tg_config tg))\<rparr>,
      \<lparr>c_id = ''c.maxWords'', c_level = Soft, c_scope = ScSentence, c_type = MaxCount,
       c_target = ''words'', c_value = Some (maxWordsPerSentence (tg_config tg))\<rparr>]
   \<and> getActiveInvariants tg =
     [\<lparr>inv_id = ''inv.capitalized'', inv_type = Capitalization, inv_scope = ScSentence\<rparr>,
      \<lparr>inv_id = ''inv.endsWithPunct'', inv_type = Punctuation, inv_scope = ScSentence\<rparr>,
      \<lparr>inv_id = ''inv.noDoubleSpaces'', inv_type = Whitespace, inv_scope = ScText\<rparr>]
   \<and> ctx_constraints (createGenerationContext hints tg) = getActiveConstraints tg
   \<and> ctx_invariants (createGenerationContext hints tg) = getActiveInvariants tg
   \<and> getActiveConstraints (setLexicon lx tg) = getActiveConstraints tg
   \<and> getActiveInvariants (setLexicon lx tg) = getActiveInvariants tg"
  by (simp add: getActiveConstraints_def getActiveInvariants_def getDefaultConstraints_def
      getDefaultInvariants_def createGenerationContext_def setLexicon_def Let_def
      split: option.splits)

text \<open>
  The two clock readings of the constructor are overwritten by \<^verbatim>\<open>setSeed\<close>: the seeded
  generator does not depend on when it was constructed.
\<close>

lemma setSeed_new_TextGenerator:
  "setSeed s (new_TextGenerator config lx trace now1 now2)
     = \<lparr>tg_config = config, tg_rng = \<lparr>rng_seed = s, rng_next = s\<rparr>, tg_store = lx,
        tg_currentLexicon = lx,
        tg_enableTrace = (case trace of None \<Rightarrow> enableTrace config | Some b \<Rightarrow> b),
        tg_currentArchetype =
          (case lx of
             None \<Rightarrow> ''default''
           | Some l \<Rightarrow> (case opt_list (archetypes l) of [] \<Rightarrow> ''default'' | (name, a) # rest \<Rightarrow> name)),
        tg_currentSeed = s\<rparr>"
  by (simp add: setSeed_def new_TextGenerator_def rng_reseed_def new_rng_def)


section \<open>Exhaustion of the retry budget\<close>

lemma buildQuestion_type:
  "buildQuestion P env s = (Inr r, s') \<Longrightarrow> sr_type r = Question"
  by (auto simp: buildQuestion_def gbind_def greturn_def mk_sentence_def
      split: prod.splits sum.splits)

lemma buildSentence_question_type:
  "buildSentence P env (Some Question) s = (Inr r, s') \<Longrightarrow> sr_type r = Question"
  by (simp add: buildSentence_def buildOfType_def buildQuestion_type)


lemma ex_generator_fields:
  "maxSentenceAttempts (tg_config (ex_generator budget strict)) = budget"
  "strictMode (tg_config (ex_generator budget strict)) = strict"
  "maxPPChain (tg_config (ex_generator budget strict)) = 2"
  "tg_rng (ex_generator budget strict) = \<lparr>rng_seed = 42, rng_next = 42\<rparr>"
  by (simp_all add: ex_generator_def setSeed_def new_TextGenerator_def DEFAULT_CONFIG_def rng_reseed_def new_rng_def)


text \<open>
  With a budget of two attempts and a question requested, the call at exhaustion returns
  the question it built last, in strict mode and out of it: neither an error nor a simple
  declarative sentence.
\<close>

lemma ex_two_attempts:
  "\<exists>r. ro_result (generateSentenceWithRetry ex_builders (ex_generator 2 strict) ex_context (Some Question)) = Inr r
       \<and> sr_type r = Question"
proof -
  let ?tg = "ex_generator 2 strict"
  have lt0: "0 < maxSentenceAttempts (tg_config ?tg)"
    by (simp add: ex_generator_fields)
  obtain res1 ctx1 g1 where b1: "buildSentence ex_builders (env_of ?tg) (Some Question) (ex_context\<lparr>retryCount := 0\<rparr>, tg_rng ?tg) = (Inr res1, (ctx1, g1))"
    using ex_always_builds [of 2 strict] unfolding always_builds_def
    by (metis env_of_loop_env fst_conv prod.exhaust)
  have c1: "ctx_constraints ctx1 = ctx_constraints ex_context"
    using keeps_constraintsD [OF ex_builders_keep b1] by simp
  have nv1: "\<not> valid (validate (tg_config ?tg) (ctx_constraints ctx1) (ctx_invariants ctx1) ctx1 (sr_text res1) (sr_tokens res1) ScSentence)"
    using unsat_invalid ex_impossible_unsat c1 by simp
  let ?tg1 = "?tg\<lparr>tg_rng := g1\<rparr>"
  have s1: "retryLoop ex_builders ?tg ex_context (Some Question) 0 None None
           = retryLoop ex_builders ?tg1 ctx1 (Some Question) 1 (Some res1) None"
    using retryLoop_reject [OF lt0 b1 nv1, of None None] by simp
  have lt1: "1 < maxSentenceAttempts (tg_config ?tg1)"
    by (simp add: ex_generator_fields)
  obtain res2 ctx2 g2 where b2: "buildSentence ex_builders (env_of ?tg1) (Some Question) (ctx1\<lparr>retryCount := 1\<rparr>, tg_rng ?tg1) = (Inr res2, (ctx2, g2))"
    using always_builds_same [OF same_rng ex_always_builds [of 2 strict], of g1] unfolding always_builds_def
    by (metis env_of_loop_env fst_conv prod.exhaust)
  have c2: "ctx_constraints ctx2 = ctx_constraints ex_context"
    using keeps_constraintsD [OF ex_builders_keep b2] c1 by simp
  have nv2: "\<not> valid (validate (tg_config ?tg1) (ctx_constraints ctx2) (ctx_invariants ctx2) ctx2 (sr_text res2) (sr_tokens res2) ScSentence)"
    using unsat_invalid ex_impossible_unsat c2 by simp
  let ?tg2 = "?tg1\<lparr>tg_rng := g2\<rparr>"
  have s2: "retryLoop ex_builders ?tg1 ctx1 (Some Question) 1 (Some res1) None
           = retryLoop ex_builders ?tg2 ctx2 (Some Question) 2 (Some res2) None"
    using retryLoop_reject [OF lt1 b2 nv2, of "Some res1" None] by simp
  have ex: "\<not> 2 < maxSentenceAttempts (tg_config ?tg2)"
    by (simp add: ex_generator_fields)
  have "ro_result (retryLoop ex_builders ?tg2 ctx2 (Some Question) 2 (Some res2) None) = Inr res2"
    using retryLoop_exit [OF ex] by simp
  moreover have "sr_type res2 = Question"
    using buildSentence_question_type [OF b2] .
  ultimately show ?thesis
    unfolding generateSentenceWithRetry_def using s1 s2 by simp
qed


section \<open>The degrade step\<close>

lemma getActiveConstraints_chain:
  "c_value (hd (getActiveConstraints tg)) = Some (maxPPChain (tg_config tg))
   \<and> c_id (hd (getActiveConstraints tg)) = ''c.maxPP''"
  by (simp add: getActiveConstraints_def getDefaultConstraints_def Let_def split: option.splits)

text \<open>
  C8.  When an iteration of the retry loop numbered above 5 builds a candidate that fails
  validation, the generator the call leaves behind has \<^verbatim>\<open>maxPPChain\<close> between 0 and one
  less than before (0 when it was not positive), and nothing else changed but the random
  source: no later iteration and no code after the loop restores it.  The grammar
  environment and the default constraint \<^verbatim>\<open>c.maxPP\<close> of every later call read the lowered
  value, and \<^verbatim>\<open>sentence\<close> hands the generator left by the loop to the next call.
\<close>

theorem degrade_persists:
  assumes "5 \<le> attempts" and "attempts < maxSentenceAttempts (tg_config tg)"
    and "buildSentence P (env_of tg) ty (ctx\<lparr>retryCount := attempts\<rparr>, tg_rng tg) = (Inr result, (ctx2, g2))"
    and "\<not> valid (validate (tg_config tg) (ctx_constraints ctx2) (ctx_invariants ctx2) ctx2
                 (sr_text result) (sr_tokens result) ScSentence)"
  shows "(let tg' = ro_generator (retryLoop P tg ctx ty attempts lastResult lastError);
              m = maxPPChain (tg_config tg')
          in 0 \<le> m \<and> m \<le> max 0 (maxPPChain (tg_config tg) - 1)
             \<and> tg' = tg\<lparr>tg_rng := tg_rng tg', tg_config := (tg_config tg)\<lparr>maxPPChain := m\<rparr>\<rparr>
             \<and> env_config (env_of tg') = (tg_config tg)\<lparr>maxPPChain := m\<rparr>
             \<and> c_value (hd (getActiveConstraints tg')) = Some m
             \<and> c_value (hd (ctx_constraints (createGenerationContext hints tg'))) = Some m)
         \<and> snd (sentence P X opts tg0)
             = ro_generator (generateSentenceWithRetry P tg0
                 (createGenerationContext (case opts of None \<Rightarrow> None | Some opt \<Rightarrow> so_hints opt) tg0)
                 (case opts of None \<Rightarrow> None | Some opt \<Rightarrow> so_type opt))"
proof -
  from degrade_step [OF assms(2) assms(1) assms(3) assms(4), of lastResult lastError]
  obtain g m where f: "ro_generator (retryLoop P tg ctx ty attempts lastResult lastError)
                  = tg\<lparr>tg_rng := g, tg_config := (tg_config tg)\<lparr>maxPPChain := m\<rparr>\<rparr>"
    and m: "0 \<le> m" "m \<le> max 0 (maxPPChain (tg_config tg) - 1)"
    by blast
  have s: "snd (sentence P X opts tg0)
             = ro_generator (generateSentenceWithRetry P tg0
                 (createGenerationContext (case opts of None \<Rightarrow> None | Some opt \<Rightarrow> so_hints opt) tg0)
                 (case opts of None \<Rightarrow> None | Some opt \<Rightarrow> so_type opt))"
    by (simp add: sentence_def Let_def split: sum.splits)
  have c: "ctx_constraints (createGenerationContext hints tg') = getActiveConstraints tg'" for tg'
    by (simp add: createGenerationContext_def Let_def split: option.splits)
  show ?thesis
    using m s by (simp add: f Let_def env_of_def getActiveConstraints_chain c)
qed

theorem degrade_persists_witness:
  "\<exists>result ctx2 g2.
      buildSentence ex_builders (env_of (ex_generator 6 False)) (Some SimpleDeclarative)
        (ex_context\<lparr>retryCount := 5\<rparr>, tg_rng (ex_generator 6 False)) = (Inr result, (ctx2, g2))
    \<and> \<not> valid (validate (tg_config (ex_generator 6 False)) (ctx_constraints ctx2) (ctx_invariants ctx2) ctx2
                 (sr_text result) (sr_tokens result) ScSentence)
    \<and> maxSentenceAttempts (tg_config (ex_generator 6 False)) = 6
    \<and> maxPPChain (tg_config (ex_generator 6 False)) = 2
    \<and> 0 \<le> maxPPChain (tg_config (ro_generator
              (retryLoop ex_builders (ex_generator 6 False) ex_context (Some SimpleDeclarative) 5 None None)))
    \<and> maxPPChain (tg_config (ro_generator
              (retryLoop ex_builders (ex_generator 6 False) ex_context (Some SimpleDeclarative) 5 None None))) \<le> 1
    \<and> c_value (hd (getActiveConstraints (ro_generator
              (retryLoop ex_builders (ex_generator 6 False) ex_context (Some SimpleDeclarative) 5 None None))))
        = Some (maxPPChain (tg_config (ro_generator
              (retryLoop ex_builders (ex_generator 6 False) ex_context (Some SimpleDeclarative) 5 None None))))"
proof -
  let ?tg = "ex_generator 6 False"
  obtain result ctx2 g2 where b: "buildSentence ex_builders (env_of ?tg) (Some SimpleDeclarative)
        (ex_context\<lparr>retryCount := 5\<rparr>, tg_rng ?tg) = (Inr result, (ctx2, g2))"
    using ex_always_builds [of 6 False] unfolding always_builds_def
    by (metis env_of_loop_env fst_conv prod.exhaust)
  have c: "ctx_constraints ctx2 = ctx_constraints ex_context"
    using keeps_constraintsD [OF ex_builders_keep b] by simp
  have nv: "\<not> valid (validate (tg_config ?tg) (ctx_constraints ctx2) (ctx_invariants ctx2) ctx2
                 (sr_text result) (sr_tokens result) ScSentence)"
    using unsat_invalid ex_impossible_unsat c by simp
  have lt: "5 < maxSentenceAttempts (tg_config ?tg)"
    by (simp add: ex_generator_fields)
  have le: "(5::int) \<le> 5" by simp
  from degrade_persists [OF le lt b nv, of None None None no_transforms None ?tg]
  have "0 \<le> maxPPChain (tg_config (ro_generator (retryLoop ex_builders ?tg ex_context (Some SimpleDeclarative) 5 None None)))"
    "maxPPChain (tg_config (ro_generator (retryLoop ex_builders ?tg ex_context (Some SimpleDeclarative) 5 None None))) \<le> 1"
    "c_value (hd (getActiveConstraints (ro_generator (retryLoop ex_builders ?tg ex_context (Some SimpleDeclarative) 5 None None))))
        = Some (maxPPChain (tg_config (ro_generator (retryLoop ex_builders ?tg ex_context (Some SimpleDeclarative) 5 None None))))"
    by (simp_all add: Let_def ex_generator_fields)
  with b nv show ?thesis
    by (simp add: ex_generator_fields) 
qed

section \<open>The form of generated text\<close>

subsection \<open>White space\<close>

lemma nd_Cons:
  "hasNoDoubleSpaces (c # xs) = ((xs = [] \<or> \<not> (is_space c \<and> is_space (hd xs))) \<and> hasNoDoubleSpaces xs)"
  by (cases xs) auto

lemma nd_append:
  "hasNoDoubleSpaces (xs @ ys) =
     (hasNoDoubleSpaces xs \<and> hasNoDoubleSpaces ys
        \<and> (xs = [] \<or> ys = [] \<or> \<not> (is_space (last xs) \<and> is_space (hd ys))))"
proof (induction xs rule: hasNoDoubleSpaces.induct)
  case 1
  then show ?case by simp
next
  case (2 c)
  then show ?case by (auto simp: nd_Cons)
next
  case (3 c d cs)
  then show ?case by auto
qed

lemma collapse_ws_hd:
  "collapse_ws (d # cs) \<noteq> [] \<and> (is_space (hd (collapse_ws (d # cs))) = is_space d)
   \<and> (\<not> is_space d \<longrightarrow> hd (collapse_ws (d # cs)) = d)"
  by (induction "d # cs" arbitrary: d cs rule: collapse_ws.induct) (auto simp: is_space_def)

lemma nd_collapse_ws: "hasNoDoubleSpaces (collapse_ws s)"
proof (induction s rule: collapse_ws.induct)
  case 1
  then show ?case by simp
next
  case (2 c)
  then show ?case by simp
next
  case (3 c d cs)
  then show ?case
    using collapse_ws_hd [of d cs] by (auto simp: nd_Cons)
qed

lemma nd_dropWhile: "hasNoDoubleSpaces s \<Longrightarrow> hasNoDoubleSpaces (dropWhile Q s)"
  using nd_append [of "takeWhile Q s" "dropWhile Q s"] by simp

lemma nd_takeWhile: "hasNoDoubleSpaces s \<Longrightarrow> hasNoDoubleSpaces (takeWhile Q s)"
  using nd_append [of "takeWhile Q s" "dropWhile Q s"] by simp

lemma trimEnd_prefix: "s = trimEnd s @ rev (takeWhile is_space (rev s))"
  unfolding trimEnd_def by (metis rev_append rev_rev_ident takeWhile_dropWhile_id)

lemma nd_trimEnd: "hasNoDoubleSpaces s \<Longrightarrow> hasNoDoubleSpaces (trimEnd s)"
  using nd_append [of "trimEnd s" "rev (takeWhile is_space (rev s))"] trimEnd_prefix [of s] by simp

lemma nd_trim: "hasNoDoubleSpaces s \<Longrightarrow> hasNoDoubleSpaces (trim s)"
  by (simp add: trim_def nd_trimEnd nd_dropWhile)

lemma strip_before_punct_hd:
  "\<not> is_space c \<Longrightarrow> strip_before_punct (c # cs) = c # strip_before_punct cs"
  by simp

lemma nd_space_tail:
  "hasNoDoubleSpaces (c # cs) \<Longrightarrow> is_space c \<Longrightarrow> dropWhile is_space cs = cs \<and> takeWhile is_space cs = []"
  by (cases cs) auto

lemma strip_before_punct_first:
  "s \<noteq> [] \<Longrightarrow> \<not> is_space (hd s) \<Longrightarrow> strip_before_punct s \<noteq> [] \<and> hd (strip_before_punct s) = hd s"
  by (cases s) auto

lemma nd_strip_before_punct:
  "hasNoDoubleSpaces s \<Longrightarrow> hasNoDoubleSpaces (strip_before_punct s)"
proof (induction s rule: strip_before_punct.induct)
  case 1
  then show ?case by simp
next
  case (2 c cs)
  show ?case
  proof (cases "is_space c")
    case False
    then show ?thesis
      using 2 by (auto simp: nd_Cons)
  next
    case True
    note sp = True
    from nd_space_tail [OF "2.prems" True]
    have dw: "dropWhile is_space cs = cs" and tw: "takeWhile is_space cs = []" by auto
    show ?thesis
    proof (cases cs)
      case Nil
      then show ?thesis using True by simp
    next
      case (Cons p ps)
      have nsp: "\<not> is_space p" using "2.prems" sp Cons by simp
      have ndps: "hasNoDoubleSpaces ps" using "2.prems" Cons by (simp add: nd_Cons)
      have d: "dropWhile is_space cs = p # ps" using dw Cons by simp
      show ?thesis
      proof (cases "is_close_punct p")
        case True
        have "hasNoDoubleSpaces (strip_before_punct ps)"
          using "2.IH"(1) [OF sp d True ndps] .
        then show ?thesis
          using sp d True nsp by (simp add: nd_Cons)
      next
        case False
        have "hasNoDoubleSpaces (strip_before_punct ps)"
          using "2.IH"(2) [OF sp d False ndps] .
        then show ?thesis
          using sp d tw False nsp by (simp add: nd_Cons)
      qed
    qed
  qed
qed

lemma strip_after_open_hd: "strip_after_open (c # cs) \<noteq> [] \<and> hd (strip_after_open (c # cs)) = c"
  by simp

lemma nd_strip_after_open:
  "hasNoDoubleSpaces s \<Longrightarrow> hasNoDoubleSpaces (strip_after_open s)"
proof (induction s rule: strip_after_open.induct)
  case 1
  then show ?case by simp
next
  case (2 c cs)
  show ?case
  proof (cases "c = CHR ''(''")
    case True
    have "hasNoDoubleSpaces (dropWhile is_space cs)"
      using "2.prems" by (simp add: nd_Cons nd_dropWhile)
    from "2.IH"(1) [OF True this] show ?thesis
      using True by (simp add: nd_Cons is_space_def)
  next
    case False
    have nd: "hasNoDoubleSpaces cs" using "2.prems" by (simp add: nd_Cons)
    from "2.IH"(2) [OF False nd] have ih: "hasNoDoubleSpaces (strip_after_open cs)" .
    show ?thesis
    proof (cases cs)
      case Nil
      then show ?thesis using False by simp
    next
      case (Cons d ds)
      then have "hd (strip_after_open cs) = d" "strip_after_open cs \<noteq> []"
        using strip_after_open_hd [of d ds] by auto
      then show ?thesis
        using False ih "2.prems" Cons by (simp add: nd_Cons)
    qed
  qed
qed

lemma space_after_punct_hd:
  "space_after_punct (c # cs) \<noteq> [] \<and> hd (space_after_punct (c # cs)) = c"
  by (cases cs) auto

lemma nd_space_after_punct:
  "hasNoDoubleSpaces s \<Longrightarrow> hasNoDoubleSpaces (space_after_punct s)"
proof (induction s rule: space_after_punct.induct)
  case 1
  then show ?case by simp
next
  case (2 c)
  then show ?case by simp
next
  case (3 c d cs)
  have ih: "hasNoDoubleSpaces (space_after_punct (d # cs))"
    using 3 by auto
  have h: "hd (space_after_punct (d # cs)) = d" "space_after_punct (d # cs) \<noteq> []"
    using space_after_punct_hd [of d cs] by auto
  show ?case
    using ih h "3.prems" by (auto simp: nd_Cons is_space_def is_punct_def)
qed

lemma nd_normalizeWhitespace: "hasNoDoubleSpaces (normalizeWhitespace s)"
  by (simp add: normalizeWhitespace_def nd_trim nd_space_after_punct nd_strip_after_open
      nd_strip_before_punct nd_collapse_ws)

subsection \<open>Letters\<close>

lemma letter_not_space: "is_letter c \<Longrightarrow> \<not> is_space c"
  by (auto simp: is_letter_def is_lower_def is_upper_def is_space_def)

lemma letter_not_open: "is_letter c \<Longrightarrow> c \<noteq> CHR ''(''"
  by (auto simp: is_letter_def is_lower_def is_upper_def)

lemma upper_letter: "is_upper c \<Longrightarrow> is_letter c"
  by (simp add: is_letter_def)

lemma upper_char_upper: "is_upper c \<Longrightarrow> upper_char c = c"
  apply (simp add: is_upper_def)
  apply (elim disjE)
  apply (simp_all add: upper_char_def)
  done

lemma upper_char_lower: "is_lower c \<Longrightarrow> is_upper (upper_char c)"
  apply (simp add: is_lower_def)
  apply (elim disjE)
  apply (simp_all add: upper_char_def is_upper_def)
  done

lemma upper_char_other: "\<not> is_lower c \<Longrightarrow> upper_char c = c"
  by (simp add: is_lower_def upper_char_def)

lemma upper_char_letter: "is_letter c \<Longrightarrow> is_upper (upper_char c)"
  using upper_char_lower [of c] upper_char_upper [of c] by (auto simp: is_letter_def)

lemma upper_char_space: "is_space (upper_char c) \<Longrightarrow> is_space c"
proof (cases "is_lower c")
  case True
  then have "\<not> is_space (upper_char c)"
    using upper_char_lower [of c] upper_letter [of "upper_char c"] letter_not_space [of "upper_char c"]
    by simp
  moreover assume "is_space (upper_char c)"
  ultimately show ?thesis by simp
next
  case False
  assume "is_space (upper_char c)"
  then show ?thesis
    using upper_char_other [OF False] by simp
qed

lemma end_punct_not_space: "is_end_punct c \<Longrightarrow> \<not> is_space c"
  by (auto simp: is_end_punct_def is_space_def)

subsection \<open>The first character\<close>

lemma trimEnd_Cons: "\<not> is_space c \<Longrightarrow> trimEnd (c # w) = c # trimEnd w"
  by (auto simp: trimEnd_def dropWhile_append dropWhile_eq_Nil_conv)

lemma normalizeWhitespace_hd:
  assumes "is_letter c"
  shows "normalizeWhitespace (c # cs) \<noteq> [] \<and> hd (normalizeWhitespace (c # cs)) = c"
proof -
  have ns: "\<not> is_space c" and no: "c \<noteq> CHR ''(''"
    using assms letter_not_space letter_not_open by auto
  obtain x where a: "collapse_ws (c # cs) = c # x"
    using collapse_ws_hd [of c cs] ns by (cases "collapse_ws (c # cs)") auto
  have b: "strip_before_punct (c # x) = c # strip_before_punct x"
    using ns by simp
  have d: "strip_after_open (c # strip_before_punct x) = c # strip_after_open (strip_before_punct x)"
    using no by simp
  obtain y where e: "space_after_punct (c # strip_after_open (strip_before_punct x)) = c # y"
    using space_after_punct_hd [of c "strip_after_open (strip_before_punct x)"]
    by (cases "space_after_punct (c # strip_after_open (strip_before_punct x))") auto
  have t: "trim (c # y) = c # trimEnd y"
    using ns by (simp add: trim_def trimEnd_Cons)
  have "normalizeWhitespace (c # cs) = trim (c # y)"
    by (simp only: normalizeWhitespace_def a b d e)
  then show ?thesis
    using t by simp
qed

lemma capitalize_Cons: "capitalize (c # r) = upper_char c # r"
  by (simp add: capitalize_def toUpperCase_def)

lemma capitalize_Nil: "capitalize [] = []"
  by (simp add: capitalize_def)

lemma ensureEndPunctuation_hd:
  "\<not> is_space c \<Longrightarrow> ensureEndPunctuation (c # r) p \<noteq> [] \<and> hd (ensureEndPunctuation (c # r) p) = c"
  by (simp add: ensureEndPunctuation_def trimEnd_Cons Let_def)

lemma formatSentence_hd:
  assumes "is_letter c"
  shows "formatSentence (c # cs) p \<noteq> [] \<and> hd (formatSentence (c # cs) p) = upper_char c"
proof -
  obtain r where n: "normalizeWhitespace (c # cs) = c # r"
    using normalizeWhitespace_hd [OF assms, of cs] by (cases "normalizeWhitespace (c # cs)") auto
  have "\<not> is_space (upper_char c)"
    using upper_char_letter [OF assms] upper_letter letter_not_space by blast
  then show ?thesis
    by (simp add: formatSentence_def n capitalize_Cons ensureEndPunctuation_hd)
qed

lemma formatSentence_capital:
  "s \<noteq> [] \<Longrightarrow> is_letter (hd s) \<Longrightarrow> startsWithCapital (formatSentence s p)"
  using formatSentence_hd [of "hd s" "tl s" p] upper_char_letter [of "hd s"]
  by (simp add: startsWithCapital_def)



subsection \<open>The last character, and the white space of a formatted sentence\<close>

lemma ensureEndPunctuation_last:
  "p \<noteq> [] \<Longrightarrow> is_end_punct (last p) \<Longrightarrow> ensureEndPunctuation s p \<noteq> [] \<Longrightarrow>
     is_end_punct (last (ensureEndPunctuation s p))"
  by (auto simp: ensureEndPunctuation_def Let_def is_end_punct_def split: if_splits)

lemma formatSentence_end:
  "p \<noteq> [] \<Longrightarrow> is_end_punct (last p) \<Longrightarrow> formatSentence s p \<noteq> [] \<Longrightarrow>
     endsInTerminalPunctuation (formatSentence s p)"
  by (simp add: formatSentence_def endsInTerminalPunctuation_def ensureEndPunctuation_last)

lemma nd_capitalize: "hasNoDoubleSpaces s \<Longrightarrow> hasNoDoubleSpaces (capitalize s)"
  using upper_char_space by (cases s) (auto simp: capitalize_Cons capitalize_Nil nd_Cons)

lemma nd_ensureEndPunctuation:
  "hasNoDoubleSpaces s \<Longrightarrow> hasNoDoubleSpaces p \<Longrightarrow> p = [] \<or> \<not> is_space (hd p) \<Longrightarrow>
     hasNoDoubleSpaces (ensureEndPunctuation s p)"
  by (auto simp: ensureEndPunctuation_def Let_def nd_trimEnd nd_append)

lemma nd_formatSentence:
  "hasNoDoubleSpaces p \<Longrightarrow> p = [] \<or> \<not> is_space (hd p) \<Longrightarrow> hasNoDoubleSpaces (formatSentence s p)"
  by (simp add: formatSentence_def nd_ensureEndPunctuation nd_capitalize nd_normalizeWhitespace)

lemma formatSentence_wellFormed:
  assumes "s \<noteq> []" "is_letter (hd s)" "p = ''.'' \<or> p = ''?''"
  shows "wellFormedText (formatSentence s p)"
proof -
  have c: "startsWithCapital (formatSentence s p)"
    using formatSentence_capital [OF assms(1) assms(2)] .
  then have ne: "formatSentence s p \<noteq> []"
    by (simp add: startsWithCapital_def)
  have e: "endsInTerminalPunctuation (formatSentence s p)"
    using assms(3) formatSentence_end [OF _ _ ne] by (auto simp: is_end_punct_def)
  have n: "hasNoDoubleSpaces (formatSentence s p)"
    using assms(3) by (auto intro!: nd_formatSentence simp: is_space_def)
  show ?thesis
    using c e n by (simp add: wellFormedText_def)
qed



subsection \<open>Joining tokens and sentences\<close>

lemma joinTokens_loop_hd:
  "result \<noteq> [] \<Longrightarrow> joinTokens_loop result rest \<noteq> [] \<and> hd (joinTokens_loop result rest) = hd result"
  by (induction rest arbitrary: result) auto

lemma joinTokens_hd:
  "headed tokens \<Longrightarrow> joinTokens tokens \<noteq> [] \<and> is_letter (hd (joinTokens tokens))"
  using joinTokens_loop_hd [of "hd tokens" "tl tokens"]
  by (cases tokens) (auto simp: headed_def joinTokens_def)

lemma mk_sentence_wellFormed:
  "headed tokens \<Longrightarrow> p = ''.'' \<or> p = ''?'' \<Longrightarrow> wellFormedText (sr_text (mk_sentence ty tokens p))"
  using joinTokens_hd [of tokens] formatSentence_wellFormed [of "joinTokens tokens" p]
  by (simp add: mk_sentence_def)

lemma wellFormed_again:
  assumes "wellFormedText s"
  shows "wellFormedText (formatSentence s ''.'')"
  using assms formatSentence_wellFormed [of s "''.''"] upper_letter
  by (simp add: wellFormedText_def startsWithCapital_def)

lemma join_wellFormed:
  "xs \<noteq> [] \<Longrightarrow> list_all wellFormedText xs \<Longrightarrow> wellFormedText (join '' '' xs)"
proof (induction "'' ''" xs rule: join.induct)
  case 1
  then show ?case by simp
next
  case (2 x)
  then show ?case by simp
next
  case (3 x y rest)
  have j: "wellFormedText (join '' '' (y # rest))"
    using 3 by simp
  have x: "wellFormedText x"
    using "3.prems" by simp
  have nx: "x \<noteq> []" "\<not> is_space (last x)" "is_upper (hd x)" "hasNoDoubleSpaces x"
    using x end_punct_not_space
    by (auto simp: wellFormedText_def startsWithCapital_def endsInTerminalPunctuation_def)
  have nj: "join '' '' (y # rest) \<noteq> []" "\<not> is_space (hd (join '' '' (y # rest)))"
    "is_end_punct (last (join '' '' (y # rest)))" "hasNoDoubleSpaces (join '' '' (y # rest))"
    using j upper_letter letter_not_space
    by (auto simp: wellFormedText_def startsWithCapital_def endsInTerminalPunctuation_def)
  show ?case
    using nx nj
    by (simp add: wellFormedText_def startsWithCapital_def endsInTerminalPunctuation_def
        nd_append nd_Cons)
qed

lemma formatParagraph_wellFormed:
  assumes "sentences \<noteq> []" "list_all wellFormedText sentences"
  shows "wellFormedText (formatParagraph sentences)"
proof -
  have "list_all wellFormedText (map (\<lambda>s. formatSentence s ''.'') sentences)"
    using assms(2) wellFormed_again by (simp add: list_all_iff)
  then show ?thesis
    using assms(1) join_wellFormed [of "map (\<lambda>s. formatSentence s ''.'') sentences"]
    by (simp add: formatParagraph_def)
qed

subsection \<open>Results of grammar computations\<close>

lemma gpost_return: "Q x \<Longrightarrow> gpost (greturn x) Q"
  by (simp add: gpost_def greturn_def)

lemma gpost_throw: "gpost (gthrow e) Q"
  by (simp add: gpost_def gthrow_def)

lemma gpost_bind:
  assumes "gpost m Q" and "\<And>x. Q x \<Longrightarrow> gpost (f x) R"
  shows "gpost (gbind m f) R"
  unfolding gpost_def
proof (intro allI impI)
  fix s r s'
  assume a: "gbind m f s = (Inr r, s')"
  obtain r0 s1 where ms: "m s = (r0, s1)" by (cases "m s")
  show "R r"
  proof (cases r0)
    case (Inl e)
    then show ?thesis using a ms by (simp add: gbind_def)
  next
    case (Inr x)
    then have "Q x" using assms(1) ms unfolding gpost_def by blast
    moreover have "f x s1 = (Inr r, s')" using a ms Inr by (simp add: gbind_def)
    ultimately show ?thesis using assms(2) unfolding gpost_def by blast
  qed
qed

lemma gpost_any: "gpost m (\<lambda>_. True)"
  by (simp add: gpost_def)

lemma gpost_bind_any: "(\<And>x. gpost (f x) R) \<Longrightarrow> gpost (gbind m f) R"
  by (rule gpost_bind [OF gpost_any])

lemma gpost_if: "gpost a Q \<Longrightarrow> gpost b Q \<Longrightarrow> gpost (if c then a else b) Q"
  by simp

lemma unat32_frac:
  "0 \<le> real (unat (w :: 32 word)) / 4294967296 \<and> real (unat w) / 4294967296 < 1"
proof -
  have n: "unat w < 4294967296"
    using unsigned_less [of w, where ?'a = nat] by simp
  have r: "real (unat w) < 4294967296"
    using n by linarith
  have z: "0 \<le> real (unat w)"
    by (rule of_nat_0_le_iff)
  have gen: "0 \<le> x \<Longrightarrow> x < 4294967296 \<Longrightarrow> 0 \<le> x / 4294967296 \<and> x / 4294967296 < 1" for x :: real
    by simp
  show ?thesis
    by (rule gen [OF z r])
qed

lemma mulberry32_range: "0 \<le> fst (mulberry32 n) \<and> fst (mulberry32 n) < 1"
  unfolding mulberry32_def Let_def fst_conv by (rule unat32_frac)

lemma rng_float_range: "0 \<le> fst (rng_float g) \<and> fst (rng_float g) < 1"
  using mulberry32_range [of "rng_next g"] by (auto simp: rng_float_def split: prod.splits)

lemma rng_int_range:
  assumes "mn \<le> mx"
  shows "mn \<le> fst (rng_int mn mx g) \<and> fst (rng_int mn mx g) \<le> mx"
proof -
  obtain v g' where f: "rng_float g = (v, g')" by (cases "rng_float g")
  have v: "0 \<le> v" "v < 1" using rng_float_range [of g] f by auto
  let ?k = "real_of_int (mx - mn + 1)"
  have k: "0 < ?k" using assms by simp
  have "0 \<le> v * ?k" using v k by simp
  then have lo: "0 \<le> \<lfloor>v * ?k\<rfloor>" by simp
  have "v * ?k < ?k" using v k by simp
  then have "\<lfloor>v * ?k\<rfloor> < mx - mn + 1" by (simp only: floor_less_iff)
  then show ?thesis
    using lo assms f by (simp add: rng_int_def Let_def)
qed

lemma rng_pick_mem: "rng_pick xs g = (Inr x, g') \<Longrightarrow> x \<in> set xs"
proof -
  assume a: "rng_pick xs g = (Inr x, g')"
  then have ne: "xs \<noteq> []" by (auto simp: rng_pick_def)
  then have le: "(0::int) \<le> int (length xs) - 1" by (cases xs) auto
  from rng_int_range [OF le, of g]
  have "0 \<le> fst (rng_int 0 (int (length xs) - 1) g)" "fst (rng_int 0 (int (length xs) - 1) g) \<le> int (length xs) - 1"
    by auto
  then have "nat (fst (rng_int 0 (int (length xs) - 1) g)) < length xs"
    by linarith
  then have "xs ! nat (fst (rng_int 0 (int (length xs) - 1) g)) \<in> set xs"
    by simp
  then show ?thesis
    using a ne by (simp add: rng_pick_def split: prod.splits)
qed

lemma gpost_pick: "gpost (g_pick xs) (\<lambda>x. x \<in> set xs)"
  using rng_pick_mem by (fastforce simp: gpost_def g_pick_def split: prod.splits)

lemma gpost_bind_pick: "(\<And>x. x \<in> set xs \<Longrightarrow> gpost (f x) R) \<Longrightarrow> gpost (gbind (g_pick xs) f) R"
  by (rule gpost_bind [OF gpost_pick])

subsection \<open>The templates on a vocabulary of words\<close>

lemma headed_append: "headed xs \<Longrightarrow> headed (xs @ ys)"
  by (cases xs) (auto simp: headed_def)

lemma headed_Cons: "headed (w # ts) = (w \<noteq> [] \<and> is_letter (hd w))"
  by (simp add: headed_def)

lemma lh_clause:
  "letter_headed P \<Longrightarrow> (\<And>p. headed (pr_tokens p) \<Longrightarrow> gpost (f p) R) \<Longrightarrow>
     gpost (gbind (buildClause P env opts) f) R"
  by (rule gpost_bind [where Q = "\<lambda>p. headed (pr_tokens p)"]) (auto simp: letter_headed_def)

lemma lh_pp:
  "letter_headed P \<Longrightarrow> (\<And>p. headed (pr_tokens p) \<Longrightarrow> gpost (f p) R) \<Longrightarrow>
     gpost (gbind (buildPP P env) f) R"
  by (rule gpost_bind [where Q = "\<lambda>p. headed (pr_tokens p)"]) (auto simp: letter_headed_def)

lemma lh_sub:
  "letter_headed P \<Longrightarrow> (\<And>p. headed (pr_tokens p) \<Longrightarrow> gpost (f p) R) \<Longrightarrow>
     gpost (gbind (buildSubordinateClause P env) f) R"
  by (rule gpost_bind [where Q = "\<lambda>p. headed (pr_tokens p)"]) (auto simp: letter_headed_def)

lemma headed_transition:
  "headed_words config \<Longrightarrow> w \<in> set (transitions config) \<Longrightarrow> headed [w]"
  by (simp add: headed_words_def list_all_iff)

lemma headed_interjection:
  "headed_words config \<Longrightarrow> w \<in> set (interjections config) \<Longrightarrow> headed [w]"
  by (simp add: headed_words_def list_all_iff)

lemma simpleDeclarative_wf:
  "letter_headed P \<Longrightarrow> gpost (buildSimpleDeclarative P env) (\<lambda>r. wellFormedText (sr_text r))"
  unfolding buildSimpleDeclarative_def
  apply (rule gpost_bind_any)
  apply (rule gpost_bind_any)
  apply (rule lh_clause, assumption)
  apply (rule gpost_return)
  apply (simp add: mk_sentence_wellFormed)
  done

lemma compound_wf:
  "letter_headed P \<Longrightarrow> gpost (buildCompound P env) (\<lambda>r. wellFormedText (sr_text r))"
  unfolding buildCompound_def
  apply (rule gpost_bind_any)
  apply (rule lh_clause, assumption)
  apply (rule gpost_bind_any)
  apply (rule gpost_bind_any)
  apply (rule gpost_return)
  apply (simp add: mk_sentence_wellFormed headed_append)
  done

lemma introAdverbial_wf:
  "letter_headed P \<Longrightarrow> headed_words (env_config env) \<Longrightarrow>
     gpost (buildIntroAdverbial P env) (\<lambda>r. wellFormedText (sr_text r))"
  unfolding buildIntroAdverbial_def
  apply (rule gpost_bind_any)
  apply (rule gpost_bind [where Q = headed])
   apply (rule gpost_if)
    apply (rule gpost_bind_pick)
    apply (rule gpost_return)
    apply (erule (1) headed_transition)
   apply (rule lh_pp, assumption)
   apply (rule gpost_return, assumption)
  apply (rule gpost_bind_any)
  apply (rule gpost_bind_any)
  apply (rule gpost_return)
  apply (simp add: mk_sentence_wellFormed headed_append)
  done

lemma subordinate_wf:
  "letter_headed P \<Longrightarrow> gpost (buildSubordinate P env) (\<lambda>r. wellFormedText (sr_text r))"
  unfolding buildSubordinate_def
  apply (rule lh_sub, assumption)
  apply (rule gpost_bind_any)
  apply (rule lh_clause, assumption)
  apply (rule gpost_bind_any)
  apply (rule gpost_return)
  apply (simp add: mk_sentence_wellFormed headed_append)
  done

lemma interjection_wf:
  "headed_words (env_config env) \<Longrightarrow>
     gpost (buildInterjection P env) (\<lambda>r. wellFormedText (sr_text r))"
  unfolding buildInterjection_def
  apply (rule gpost_bind_pick)
  apply (rule gpost_bind_any)
  apply (rule gpost_return)
  apply (drule (1) headed_interjection)
  apply (simp add: mk_sentence_wellFormed headed_Cons)
  done

lemma letter_d: "is_letter CHR ''d''"
  by (simp add: is_letter_def is_lower_def)

lemma letter_w: "is_letter CHR ''w''"
  by (simp add: is_letter_def is_lower_def)

lemma letter_h: "is_letter CHR ''h''"
  by (simp add: is_letter_def is_lower_def)

lemma question_wf:
  "gpost (buildQuestion P env) (\<lambda>r. wellFormedText (sr_text r))"
  unfolding buildQuestion_def
  apply (rule gpost_bind_any)
  apply (rule gpost_bind [where Q = headed])
   apply (rule gpost_if)
    apply (rule gpost_bind_any)
    apply (rule gpost_bind_any)
    apply (rule gpost_bind_any)
    apply (rule gpost_bind [where Q = "\<lambda>w. headed [w]"])
     apply (rule gpost_if)
      apply (rule gpost_return)
      apply (simp add: headed_Cons letter_d)
     apply (rule gpost_bind_any)
     apply (rule gpost_return)
     apply (simp add: headed_Cons letter_d)
    apply (rule gpost_bind_any)
    apply (rule gpost_return)
    apply (simp add: headed_Cons)
   apply (rule gpost_bind_pick)
   apply (rule gpost_if)
    apply (rule gpost_bind_any)
    apply (rule gpost_if)
     apply (rule gpost_bind_any)
     apply (rule gpost_return)
     apply (auto simp: headed_Cons letter_w letter_h)[1]
    apply (rule gpost_bind_any)
    apply (rule gpost_bind_any)
    apply (rule gpost_bind_any)
    apply (rule gpost_return)
    apply (auto simp: headed_Cons letter_w letter_h)[1]
   apply (rule gpost_bind_any)
   apply (rule gpost_bind_any)
   apply (rule gpost_bind_any)
   apply (rule gpost_return)
   apply (auto simp: headed_Cons letter_w letter_h)[1]
  apply (rule gpost_return)
  apply (simp add: mk_sentence_wellFormed)
  done

lemma buildOfType_wf:
  "letter_headed P \<Longrightarrow> headed_words (env_config env) \<Longrightarrow>
     gpost (buildOfType P env t) (\<lambda>r. wellFormedText (sr_text r))"
  by (cases t)
     (simp_all add: buildOfType_def simpleDeclarative_wf compound_wf introAdverbial_wf subordinate_wf
        interjection_wf question_wf)

lemma buildSentence_wf:
  "letter_headed P \<Longrightarrow> headed_words (env_config env) \<Longrightarrow>
     gpost (buildSentence P env ty) (\<lambda>r. wellFormedText (sr_text r))"
  by (cases ty) (auto simp: buildSentence_def buildOfType_wf intro!: gpost_bind_any)

subsection \<open>What the retry loop and the sentence loop return\<close>

lemma buildSentence_simple:
  "buildSentence P env (Some SimpleDeclarative) = buildSimpleDeclarative P env"
  by (simp add: buildSentence_def buildOfType_def)

lemma retryLoop_post:
  "(\<forall>m. gpost (buildSentence P (loop_env tg m) ty) Q
        \<and> gpost (buildSentence P (loop_env tg m) (Some SimpleDeclarative)) Q) \<Longrightarrow>
   (\<forall>r0. lastResult = Some r0 \<longrightarrow> Q r0) \<Longrightarrow>
   ro_result (retryLoop P tg ctx ty attempts lastResult lastError) = Inr r \<Longrightarrow> Q r"
proof (induction P tg ctx ty attempts lastResult lastError rule: retryLoop.induct)
  case (1 P tg ctx ty attempts lastResult lastError)
  note builds = "1.prems"(1) and last = "1.prems"(2) and res = "1.prems"(3)
  have post: "buildSentence P (env_of tg) ty s = (Inr x, s') \<Longrightarrow> Q x"
    and post_simple: "buildSentence P (env_of tg) (Some SimpleDeclarative) s = (Inr x, s') \<Longrightarrow> Q x"
    for s x s'
    using builds unfolding gpost_def env_of_loop_env by blast+
  show ?case
  proof (cases "attempts < maxSentenceAttempts (tg_config tg)")
    case False
    show ?thesis
    proof (cases lastResult)
      case (Some r0)
      then show ?thesis
        using res last retryLoop_exit [OF False, of P ctx ty lastResult lastError] by simp
    next
      case None
      obtain x ctx2 g2 where f: "buildSimpleDeclarative P (env_of tg) (ctx, tg_rng tg) = (x, (ctx2, g2))"
        by (metis prod.exhaust)
      have "\<not> strictMode (tg_config tg)"
        using res None retryLoop_exit [OF False, of P ctx ty lastResult lastError] by auto
      then have "x = Inr r"
        using res None f retryLoop_exit [OF False, of P ctx ty lastResult lastError] by simp
      then show ?thesis
        using post_simple [of "(ctx, tg_rng tg)" r "(ctx2, g2)"] f
        by (simp add: buildSentence_simple)
    qed
  next
    case True
    obtain r1 ctx2 g2 where b: "buildSentence P (env_of tg) ty (ctx\<lparr>retryCount := attempts\<rparr>, tg_rng tg) = (r1, (ctx2, g2))"
      by (metis prod.exhaust)
    have b': "(r1, (ctx2, g2)) = buildSentence P (env_of tg) ty (ctx\<lparr>retryCount := attempts + 1 - 1\<rparr>, tg_rng tg)"
      using b by simp
    show ?thesis
    proof (cases r1)
      case (Inl e)
      have step: "retryLoop P tg ctx ty attempts lastResult lastError
              = retryLoop P (tg\<lparr>tg_rng := g2\<rparr>) ctx2 ty (attempts + 1) lastResult (Some e)"
        using retryLoop_throw [OF True, of P ty ctx e ctx2 g2 lastResult lastError] b Inl by simp
      have builds': "\<forall>m. gpost (buildSentence P (loop_env (tg\<lparr>tg_rng := g2\<rparr>) m) ty) Q
          \<and> gpost (buildSentence P (loop_env (tg\<lparr>tg_rng := g2\<rparr>) m) (Some SimpleDeclarative)) Q"
        using builds loop_env_same [OF same_rng [where tg = tg and g = g2]] by simp
      show ?thesis
        using "1.IH"(1) [OF True refl refl b' Inl refl builds' last] res step by simp
    next
      case (Inr x)
      have qx: "Q x"
        using post b Inr by blast
      let ?v = "validate (tg_config tg) (ctx_constraints ctx2) (ctx_invariants ctx2) ctx2 (sr_text x) (sr_tokens x) ScSentence"
      show ?thesis
      proof (cases "valid ?v")
        case True
        note v = True
        have "ro_result (retryLoop P tg ctx ty attempts lastResult lastError) = Inr x"
          using retryLoop_accept [OF \<open>attempts < maxSentenceAttempts (tg_config tg)\<close>, of P ty ctx x ctx2 g2 lastResult lastError]
            b Inr v by simp
        then show ?thesis
          using res qx by simp
      next
        case False
        note nv = False
        then have nh: "\<not> (length (hardConstraintsFailed ?v) = 0 \<and> length (invariantsFailed ?v) = 0)"
          by (simp add: valid_validate)
        let ?tg3 = "if 5 < attempts + 1 then degrade (tg\<lparr>tg_rng := g2\<rparr>) else tg\<lparr>tg_rng := g2\<rparr>"
        let ?ty3 = "if 10 < attempts + 1 then Some SimpleDeclarative else ty"
        have same: "same_but_chain tg ?tg3"
          by (simp add: same_rng same_degrade)
        have bx: "buildSentence P (env_of tg) ty (ctx\<lparr>retryCount := attempts\<rparr>, tg_rng tg) = (Inr x, (ctx2, g2))"
          using b Inr by simp
        have step: "retryLoop P tg ctx ty attempts lastResult lastError
                = retryLoop P ?tg3 ctx2 ?ty3 (attempts + 1) (Some x) lastError"
          using retryLoop_reject [OF True bx nv] by simp
        have builds': "\<forall>m. gpost (buildSentence P (loop_env ?tg3 m) ?ty3) Q
            \<and> gpost (buildSentence P (loop_env ?tg3 m) (Some SimpleDeclarative)) Q"
          using builds loop_env_same [OF same] by simp
        have last': "\<forall>r0. Some x = Some r0 \<longrightarrow> Q r0"
          using qx by simp
        have "Q r"
        proof (rule "1.IH"(2) [OF True refl refl b' Inr refl refl refl])
          show "\<not> valid (validate (tg_config (tg\<lparr>tg_rng := g2\<rparr>)) (ctx_constraints ctx2) (ctx_invariants ctx2) ctx2 (sr_text x) (sr_tokens x) ScSentence)"
            using nv by simp
          show "\<not> (length (hardConstraintsFailed (validate (tg_config (tg\<lparr>tg_rng := g2\<rparr>)) (ctx_constraints ctx2) (ctx_invariants ctx2) ctx2 (sr_text x) (sr_tokens x) ScSentence)) = 0
               \<and> length (invariantsFailed (validate (tg_config (tg\<lparr>tg_rng := g2\<rparr>)) (ctx_constraints ctx2) (ctx_invariants ctx2) ctx2 (sr_text x) (sr_tokens x) ScSentence)) = 0)"
            using nh by simp
          show "\<forall>m. gpost (buildSentence P (loop_env ?tg3 m) ?ty3) Q
            \<and> gpost (buildSentence P (loop_env ?tg3 m) (Some SimpleDeclarative)) Q" by (rule builds')
          show "\<forall>r0. Some x = Some r0 \<longrightarrow> Q r0" by (rule last')
          show "ro_result (retryLoop P ?tg3 ctx2 ?ty3 (attempts + 1) (Some x) lastError) = Inr r"
            using res step by simp
        qed
        then show ?thesis .
      qed
    qed
  qed
qed

lemma retryLoop_returns:
  "always_builds P tg \<Longrightarrow> attempts < maxSentenceAttempts (tg_config tg) \<or> lastResult \<noteq> None \<Longrightarrow>
     \<exists>r. ro_result (retryLoop P tg ctx ty attempts lastResult lastError) = Inr r"
proof (induction P tg ctx ty attempts lastResult lastError rule: retryLoop.induct)
  case (1 P tg ctx ty attempts lastResult lastError)
  note builds = "1.prems"(1) and more = "1.prems"(2)
  show ?case
  proof (cases "attempts < maxSentenceAttempts (tg_config tg)")
    case False
    then obtain r0 where "lastResult = Some r0"
      using more by auto
    then show ?thesis
      using retryLoop_exit [OF False, of P ctx ty lastResult lastError] by simp
  next
    case True
    obtain r1 ctx2 g2 where b: "buildSentence P (env_of tg) ty (ctx\<lparr>retryCount := attempts\<rparr>, tg_rng tg) = (r1, (ctx2, g2))"
      by (metis prod.exhaust)
    from builds obtain x where "r1 = Inr x"
      unfolding always_builds_def by (metis b env_of_loop_env fst_conv)
    with b have bx: "buildSentence P (env_of tg) ty (ctx\<lparr>retryCount := attempts\<rparr>, tg_rng tg) = (Inr x, (ctx2, g2))"
      by simp
    have b': "(Inr x, (ctx2, g2)) = buildSentence P (env_of tg) ty (ctx\<lparr>retryCount := attempts + 1 - 1\<rparr>, tg_rng tg)"
      using bx by simp
    let ?v = "validate (tg_config tg) (ctx_constraints ctx2) (ctx_invariants ctx2) ctx2 (sr_text x) (sr_tokens x) ScSentence"
    show ?thesis
    proof (cases "valid ?v")
      case True
      note v = True
      show ?thesis
        using retryLoop_accept [OF \<open>attempts < maxSentenceAttempts (tg_config tg)\<close> bx v, of lastResult lastError]
        by simp
    next
      case False
      note nv = False
      then have nh: "\<not> (length (hardConstraintsFailed ?v) = 0 \<and> length (invariantsFailed ?v) = 0)"
        by (simp add: valid_validate)
      let ?tg3 = "if 5 < attempts + 1 then degrade (tg\<lparr>tg_rng := g2\<rparr>) else tg\<lparr>tg_rng := g2\<rparr>"
      let ?ty3 = "if 10 < attempts + 1 then Some SimpleDeclarative else ty"
      have same: "same_but_chain tg ?tg3"
        by (simp add: same_rng same_degrade)
      have step: "retryLoop P tg ctx ty attempts lastResult lastError
              = retryLoop P ?tg3 ctx2 ?ty3 (attempts + 1) (Some x) lastError"
        using retryLoop_reject [OF True bx nv] by simp
      have "\<exists>r. ro_result (retryLoop P ?tg3 ctx2 ?ty3 (attempts + 1) (Some x) lastError) = Inr r"
      proof (rule "1.IH"(2) [OF True refl refl b' refl refl refl refl])
        show "\<not> valid (validate (tg_config (tg\<lparr>tg_rng := g2\<rparr>)) (ctx_constraints ctx2) (ctx_invariants ctx2) ctx2 (sr_text x) (sr_tokens x) ScSentence)"
          using nv by simp
        show "\<not> (length (hardConstraintsFailed (validate (tg_config (tg\<lparr>tg_rng := g2\<rparr>)) (ctx_constraints ctx2) (ctx_invariants ctx2) ctx2 (sr_text x) (sr_tokens x) ScSentence)) = 0
             \<and> length (invariantsFailed (validate (tg_config (tg\<lparr>tg_rng := g2\<rparr>)) (ctx_constraints ctx2) (ctx_invariants ctx2) ctx2 (sr_text x) (sr_tokens x) ScSentence)) = 0)"
          using nh by simp
        show "always_builds P ?tg3" by (rule always_builds_same [OF same builds])
        show "attempts + 1 < maxSentenceAttempts (tg_config ?tg3) \<or> Some x \<noteq> None" by simp
      qed
      then show ?thesis
        using step by simp
    qed
  qed
qed

lemma sentenceLoop_post:
  "sentenceLoop P n i tg ctx acc = (Inr ss, tg', ctx') \<Longrightarrow>
   (\<forall>m ty. gpost (buildSentence P (loop_env tg m) ty) Q) \<Longrightarrow> list_all Q acc \<Longrightarrow>
     list_all Q ss \<and> length ss = length acc + n"
proof (induction n arbitrary: i tg ctx acc)
  case 0
  then show ?case by simp
next
  case (Suc n)
  let ?ctx1 = "clearSentenceState (ctx\<lparr>sentenceIndex := i\<rparr>)"
  let ?out = "generateSentenceWithRetry P tg ?ctx1 None"
  obtain x where x: "ro_result ?out = Inr x"
    using Suc.prems(1) by (cases "ro_result ?out") (auto simp: Let_def)
  have qx: "Q x"
    using retryLoop_post [where P = P and tg = tg and Q = Q and ty = None and ctx = ?ctx1
        and attempts = 0 and lastResult = None and lastError = None and r = x] Suc.prems(2) x
    by (simp add: generateSentenceWithRetry_def)
  have same: "same_but_chain tg (ro_generator ?out)"
    unfolding generateSentenceWithRetry_def by (rule retryLoop_frame)
  have builds': "\<forall>m ty. gpost (buildSentence P (loop_env (ro_generator ?out) m) ty) Q"
    using Suc.prems(2) loop_env_same [OF same] by simp
  have rec: "sentenceLoop P n (i + 1) (ro_generator ?out) (ro_context ?out) (acc @ [x]) = (Inr ss, tg', ctx')"
    using Suc.prems(1) x by (simp add: Let_def)
  have "list_all Q (acc @ [x])"
    using Suc.prems(3) qx by simp
  from Suc.IH [OF rec builds' this] show ?case
    by simp
qed

lemma sentenceLoop_returns:
  "always_builds P tg \<Longrightarrow> 0 < maxSentenceAttempts (tg_config tg) \<Longrightarrow>
     \<exists>ss tg' ctx'. sentenceLoop P n i tg ctx acc = (Inr ss, tg', ctx')"
proof (induction n arbitrary: i tg ctx acc)
  case 0
  then show ?case by simp
next
  case (Suc n)
  let ?ctx1 = "clearSentenceState (ctx\<lparr>sentenceIndex := i\<rparr>)"
  let ?out = "generateSentenceWithRetry P tg ?ctx1 None"
  obtain x where x: "ro_result ?out = Inr x"
    using retryLoop_returns [OF Suc.prems(1), of 0 None ?ctx1 None None] Suc.prems(2)
    by (auto simp: generateSentenceWithRetry_def)
  have same: "same_but_chain tg (ro_generator ?out)"
    unfolding generateSentenceWithRetry_def by (rule retryLoop_frame)
  have a: "always_builds P (ro_generator ?out)"
    by (rule always_builds_same [OF same Suc.prems(1)])
  have b: "0 < maxSentenceAttempts (tg_config (ro_generator ?out))"
    using same_attempts [OF same] Suc.prems(2) by simp
  from Suc.IH [OF a b, of "i + 1" "ro_context ?out" "acc @ [x]"] show ?case
    using x by (simp add: Let_def)
qed

lemma loop_builds_wf:
  "letter_headed P \<Longrightarrow> headed_words (tg_config tg) \<Longrightarrow>
     \<forall>m ty. gpost (buildSentence P (loop_env tg m) ty) (\<lambda>r. wellFormedText (sr_text r))"
  by (auto intro!: buildSentence_wf simp: loop_env_def headed_words_def)

lemma sentence_wf:
  assumes "letter_headed P" "headed_words (tg_config tg)"
    and "fst (sentence P no_transforms opts tg) = Inr txt"
  shows "wellFormedText txt"
proof -
  let ?ctx = "createGenerationContext (case opts of None \<Rightarrow> None | Some opt \<Rightarrow> so_hints opt) tg"
  let ?ty = "case opts of None \<Rightarrow> None | Some opt \<Rightarrow> so_type opt"
  let ?out = "generateSentenceWithRetry P tg ?ctx ?ty"
  obtain x where x: "ro_result ?out = Inr x" and t: "txt = sr_text x"
    using assms(3) by (cases "ro_result ?out") (auto simp: sentence_def Let_def no_transforms_def)
  have "wellFormedText (sr_text x)"
    using retryLoop_post [where P = P and tg = tg and Q = "\<lambda>r. wellFormedText (sr_text r)"
        and ty = ?ty and ctx = ?ctx and attempts = 0 and lastResult = None and lastError = None and r = x]
      loop_builds_wf [OF assms(1) assms(2)] x
    by (simp add: generateSentenceWithRetry_def)
  then show ?thesis using t by simp
qed

lemma formatParagraph_Nil: "formatParagraph [] = []"
  by (simp add: formatParagraph_def)

lemma paragraph_text:
  assumes "letter_headed P" "headed_words (tg_config tg)"
    and "sentenceLoop P n 0 tg1 ctx [] = (Inr ss, tg2, ctx2)" "same_but_chain tg tg1"
  shows "length ss = n \<and> (ss \<noteq> [] \<longrightarrow> wellFormedText (formatParagraph (map sr_text ss)))"
proof -
  have b: "\<forall>m ty. gpost (buildSentence P (loop_env tg1 m) ty) (\<lambda>r. wellFormedText (sr_text r))"
    using loop_builds_wf [OF assms(1) assms(2)] loop_env_same [OF assms(4)] by simp
  from sentenceLoop_post [OF assms(3) b] have a: "list_all (\<lambda>r. wellFormedText (sr_text r)) ss" "length ss = n"
    by auto
  have "list_all wellFormedText (map sr_text ss)"
    using a(1) by (simp add: list_all_iff)
  then show ?thesis
    using a(2) formatParagraph_wellFormed [of "map sr_text ss"] by simp
qed

subsection \<open>Paragraphs\<close>

lemma genParagraph_unfold:
  "\<exists>k tg1. same_but_chain tg tg1
      \<and> (popts = None \<longrightarrow> k = fst (rng_int (minSentencesPerParagraph (tg_config tg))
                                      (maxSentencesPerParagraph (tg_config tg)) (tg_rng tg)))
      \<and> genParagraph P X popts tg =
          (case sentenceLoop P (nat k) 0 tg1
                  (createGenerationContext (case popts of None \<Rightarrow> None | Some opt \<Rightarrow> po_hints opt) tg) [] of
             (Inl e, tg2, ctx2) \<Rightarrow> (Inl e, tg2)
           | (Inr ss, tg2, ctx2) \<Rightarrow>
               (X tg2 (case popts of None \<Rightarrow> None | Some opt \<Rightarrow> po_outputTransforms opt)
                  (formatParagraph (map sr_text ss)), tg2))"
proof (cases popts)
  case None
  obtain k g1 where r: "rng_int (minSentencesPerParagraph (tg_config tg))
                          (maxSentencesPerParagraph (tg_config tg)) (tg_rng tg) = (k, g1)"
    by (metis prod.exhaust)
  show ?thesis
    by (rule exI [of _ k], rule exI [of _ "tg\<lparr>tg_rng := g1\<rparr>"])
       (auto simp: None r same_rng genParagraph_def Let_def split: prod.splits sum.splits)
next
  case (Some a)
  show ?thesis
  proof (cases "po_sentences a")
    case (Some k)
    show ?thesis
      by (rule exI [of _ k], rule exI [of _ tg])
         (auto simp: \<open>popts = Some a\<close> Some same_refl genParagraph_def Let_def
            split: prod.splits sum.splits)
  next
    case None
    let ?mn = "case po_minSentences a of Some m \<Rightarrow> m | None \<Rightarrow> minSentencesPerParagraph (tg_config tg)"
    let ?mx = "case po_maxSentences a of Some m \<Rightarrow> m | None \<Rightarrow> maxSentencesPerParagraph (tg_config tg)"
    obtain k g1 where r: "rng_int ?mn ?mx (tg_rng tg) = (k, g1)"
      by (metis prod.exhaust)
    show ?thesis
      apply (rule exI [of _ k])
      apply (rule exI [of _ "tg\<lparr>tg_rng := g1\<rparr>"])
      using r
      apply (auto simp: \<open>popts = Some a\<close> None same_rng genParagraph_def Let_def
          split: option.splits prod.splits sum.splits)
      done
  qed
qed

lemma genParagraph_text:
  assumes "letter_headed P" "headed_words (tg_config tg)"
    and "fst (genParagraph P no_transforms popts tg) = Inr ptxt"
  shows "(ptxt \<noteq> [] \<longrightarrow> wellFormedText ptxt)
       \<and> (popts = None \<and> 1 \<le> minSentencesPerParagraph (tg_config tg)
            \<and> 1 \<le> maxSentencesPerParagraph (tg_config tg) \<longrightarrow> ptxt \<noteq> [])"
proof -
  let ?ctx = "createGenerationContext (case popts of None \<Rightarrow> None | Some opt \<Rightarrow> po_hints opt) tg"
  from genParagraph_unfold [of tg popts P no_transforms]
  obtain k tg1 where same: "same_but_chain tg tg1"
    and k: "popts = None \<longrightarrow> k = fst (rng_int (minSentencesPerParagraph (tg_config tg))
                                      (maxSentencesPerParagraph (tg_config tg)) (tg_rng tg))"
    and g: "genParagraph P no_transforms popts tg =
          (case sentenceLoop P (nat k) 0 tg1 ?ctx [] of
             (Inl e, tg2, ctx2) \<Rightarrow> (Inl e, tg2)
           | (Inr ss, tg2, ctx2) \<Rightarrow>
               (no_transforms tg2 (case popts of None \<Rightarrow> None | Some opt \<Rightarrow> po_outputTransforms opt)
                  (formatParagraph (map sr_text ss)), tg2))"
    by blast
  obtain r tg2 ctx2 where sl: "sentenceLoop P (nat k) 0 tg1 ?ctx [] = (r, tg2, ctx2)"
    by (metis prod.exhaust)
  obtain ss where ss: "r = Inr ss" and p: "ptxt = formatParagraph (map sr_text ss)"
    using assms(3) g sl by (cases r) (auto simp: no_transforms_def)
  from paragraph_text [OF assms(1) assms(2) _ same, of "nat k" ?ctx ss tg2 ctx2] sl ss
  have len: "length ss = nat k" and wf: "ss \<noteq> [] \<longrightarrow> wellFormedText (formatParagraph (map sr_text ss))"
    by auto
  have a: "ptxt \<noteq> [] \<longrightarrow> wellFormedText ptxt"
    using wf p formatParagraph_Nil by auto
  have b: "ptxt \<noteq> []"
    if d: "popts = None" "1 \<le> minSentencesPerParagraph (tg_config tg)" "1 \<le> maxSentencesPerParagraph (tg_config tg)"
  proof -
    let ?mn = "minSentencesPerParagraph (tg_config tg)" and ?mx = "maxSentencesPerParagraph (tg_config tg)"
    have "1 \<le> fst (rng_int ?mn ?mx (tg_rng tg))"
    proof (cases "?mn \<le> ?mx")
      case True
      then show ?thesis using rng_int_range [OF True, of "tg_rng tg"] d by simp
    next
      case False
      then have le: "?mx \<le> ?mn" by simp
      have "rng_int ?mn ?mx (tg_rng tg) = rng_int ?mx ?mn (tg_rng tg)"
        using False by (simp add: rng_int_def Let_def)
      then show ?thesis using rng_int_range [OF le, of "tg_rng tg"] d by simp
    qed
    then have "1 \<le> k" using k d by simp
    then have "ss \<noteq> []" using len by auto
    then have "wellFormedText ptxt" using wf p by simp
    then show ?thesis by (simp add: wellFormedText_def startsWithCapital_def)
  qed
  show ?thesis using a b by blast
qed

subsection \<open>A sentence and a paragraph of the fixed-phrase builders\<close>

lemma ex_letter_headed: "letter_headed ex_builders"
  by (simp add: letter_headed_def ex_builders_def gpost_def ex_phrase_def headed_def
      is_letter_def is_lower_def)

lemma ex_headed_words: "headed_words (tg_config (ex_generator budget strict))"
  by (simp add: ex_generator_def setSeed_def new_TextGenerator_def DEFAULT_CONFIG_def
      headed_words_def headed_def is_letter_def is_lower_def is_upper_def)

lemma ex_simple_build:
  "gpost (buildSentence ex_builders env (Some SimpleDeclarative))
     (\<lambda>r. r = mk_sentence SimpleDeclarative [''the'', ''team'', ''helps'', ''the'', ''client''] ''.'')"
  unfolding buildSentence_simple buildSimpleDeclarative_def
  apply (rule gpost_bind_any)
  apply (rule gpost_bind_any)
  apply (simp add: ex_builders_def ex_phrase_return gbind_norm)
  apply (rule gpost_return)
  apply simp
  done

lemma ex_text:
  "sr_text (mk_sentence SimpleDeclarative [''the'', ''team'', ''helps'', ''the'', ''client''] ''.'')
     = ''The team helps the client.''"
  by code_simp

lemma ex_sentence:
  "fst (sentence ex_builders no_transforms
          (Some \<lparr>so_type = Some SimpleDeclarative, so_hints = None, so_outputTransforms = None\<rparr>)
          (ex_generator 3 False))
     = Inr ''The team helps the client.''"
proof -
  let ?tg = "ex_generator 3 False"
  let ?ctx = "createGenerationContext None ?tg"
  let ?R = "mk_sentence SimpleDeclarative [''the'', ''team'', ''helps'', ''the'', ''client''] ''.''"
  obtain r where r: "ro_result (retryLoop ex_builders ?tg ?ctx (Some SimpleDeclarative) 0 None None) = Inr r"
    using retryLoop_returns [OF ex_always_builds [of 3 False], of 0 None ?ctx "Some SimpleDeclarative" None]
    by (auto simp: ex_generator_fields)
  have "r = ?R"
    using retryLoop_post [where P = ex_builders and tg = ?tg and Q = "\<lambda>r. r = ?R"
        and ty = "Some SimpleDeclarative" and ctx = ?ctx and attempts = 0 and lastResult = None
        and lastError = None and r = r]
      ex_simple_build r by simp
  then show ?thesis
    using r by (simp add: sentence_def generateSentenceWithRetry_def Let_def no_transforms_def ex_text)
qed

lemma genParagraph_returns:
  assumes "always_builds P tg" "0 < maxSentenceAttempts (tg_config tg)"
  shows "\<exists>ptxt. fst (genParagraph P no_transforms popts tg) = Inr ptxt"
proof -
  let ?ctx = "createGenerationContext (case popts of None \<Rightarrow> None | Some opt \<Rightarrow> po_hints opt) tg"
  from genParagraph_unfold [of tg popts P no_transforms]
  obtain k tg1 where same: "same_but_chain tg tg1"
    and g: "genParagraph P no_transforms popts tg =
          (case sentenceLoop P (nat k) 0 tg1 ?ctx [] of
             (Inl e, tg2, ctx2) \<Rightarrow> (Inl e, tg2)
           | (Inr ss, tg2, ctx2) \<Rightarrow>
               (no_transforms tg2 (case popts of None \<Rightarrow> None | Some opt \<Rightarrow> po_outputTransforms opt)
                  (formatParagraph (map sr_text ss)), tg2))"
    by blast
  have a: "always_builds P tg1"
    by (rule always_builds_same [OF same assms(1)])
  have b: "0 < maxSentenceAttempts (tg_config tg1)"
    using same_attempts [OF same] assms(2) by simp
  from sentenceLoop_returns [OF a b, of "nat k" 0 ?ctx "[]"]
  obtain ss tg2 ctx2 where "sentenceLoop P (nat k) 0 tg1 ?ctx [] = (Inr ss, tg2, ctx2)"
    by blast
  then show ?thesis
    using g by (simp add: no_transforms_def)
qed

lemma ex_paragraph:
  "\<exists>ptxt. fst (genParagraph ex_builders no_transforms None (ex_generator 3 False)) = Inr ptxt"
  by (rule genParagraph_returns [OF ex_always_builds]) (simp add: ex_generator_fields)

lemma ex_paragraph_bounds:
  "minSentencesPerParagraph (tg_config (ex_generator budget strict)) = 2
   \<and> maxSentencesPerParagraph (tg_config (ex_generator budget strict)) = 7"
  by (simp add: ex_generator_def setSeed_def new_TextGenerator_def DEFAULT_CONFIG_def)



end
